theory Spec2Isabelle
  imports Main "HOL-Library.AList" "HOL-Library.Multiset"
begin

section \<open>Qualified names and Python values\<close>

text \<open>
  The mapping engine of \<^verbatim>\<open>provapi.py\<close> works on the document model of the
  \<^verbatim>\<open>prov\<close> library. A namespace is a prefix with a URI, a qualified name is a
  namespace with a local part. Two qualified names are equal in Python when their URIs
  (namespace URI followed by the local part) are equal; \<^verbatim>\<open>str\<close> renders a qualified
  name as \<^verbatim>\<open>prefix:local\<close>.
\<close>

record namespace =
  ns_prefix :: string
  ns_uri :: string

record qualified_name =
  qn_namespace :: namespace
  localpart :: string

definition qn_uri :: "qualified_name \<Rightarrow> string" where
  "qn_uri q = ns_uri (qn_namespace q) @ localpart q"

definition qn_eq :: "qualified_name \<Rightarrow> qualified_name \<Rightarrow> bool" where
  "qn_eq a b = (qn_uri a = qn_uri b)"

definition str_qname :: "qualified_name \<Rightarrow> string" where
  "str_qname q =
     (if ns_prefix (qn_namespace q) = [] then localpart q
      else ns_prefix (qn_namespace q) @ '':'' @ localpart q)"

definition PROV :: namespace where
  "PROV = \<lparr>ns_prefix = ''prov'', ns_uri = ''http://www.w3.org/ns/prov#''\<rparr>"

definition XSD :: namespace where
  "XSD = \<lparr>ns_prefix = ''xsd'', ns_uri = ''http://www.w3.org/2001/XMLSchema#''\<rparr>"

definition XSI :: namespace where
  "XSI = \<lparr>ns_prefix = ''xsi'', ns_uri = ''http://www.w3.org/2001/XMLSchema-instance''\<rparr>"

definition DEFAULT_NAMESPACES :: "namespace list" where
  "DEFAULT_NAMESPACES = [PROV, XSD, XSI]"

definition prov_qn :: "string \<Rightarrow> qualified_name" where
  "prov_qn l = \<lparr>qn_namespace = PROV, localpart = l\<rparr>"

definition PROV_MENTION :: qualified_name where
  "PROV_MENTION = prov_qn ''Mention''"

definition PROV_BUNDLE :: qualified_name where
  "PROV_BUNDLE = prov_qn ''Bundle''"

definition PROV_LABEL :: qualified_name where
  "PROV_LABEL = prov_qn ''label''"

definition PROV_ASSOCIATION :: qualified_name where
  "PROV_ASSOCIATION = prov_qn ''Association''"

definition PROV_UNKNOWN :: qualified_name where
  "PROV_UNKNOWN = prov_qn ''Unknown''"

text \<open>
  \<^verbatim>\<open>PROV_ATTRIBUTES\<close> of \<^verbatim>\<open>prov.constants\<close>: the positional attributes reserved by the
  relation kinds. Only the type map reads it.
\<close>

definition PROV_ATTRIBUTES :: "qualified_name list" where
  "PROV_ATTRIBUTES = map prov_qn
     [''entity'', ''activity'', ''trigger'', ''informed'', ''informant'', ''starter'',
      ''ender'', ''agent'', ''plan'', ''delegate'', ''responsible'', ''generatedEntity'',
      ''usedEntity'', ''generation'', ''usage'', ''specificEntity'', ''generalEntity'',
      ''alternate1'', ''alternate2'', ''bundle'', ''influencee'', ''influencer'',
      ''collection'', ''time'', ''startTime'', ''endTime'']"

text \<open>
  The Python values that occur as identifiers, attribute keys and attribute values:
  \<^verbatim>\<open>None\<close>, a \<^verbatim>\<open>str\<close>, a \<^verbatim>\<open>QualifiedName\<close>, or a typed literal (lexical form and
  datatype), which stands for every other scalar (dates, numbers, \<^verbatim>\<open>Literal\<close>).
\<close>

datatype pyval =
    VNone
  | VStr string
  | VQName qualified_name
  | VLiteral string string

text \<open>Python's \<^verbatim>\<open>==\<close> on these values: qualified names compare by URI.\<close>

fun py_eq :: "pyval \<Rightarrow> pyval \<Rightarrow> bool" where
  "py_eq (VQName a) (VQName b) = qn_eq a b"
| "py_eq a b = (a = b)"

section \<open>Qualified-Name Resolver\<close>

text \<open>\<^verbatim>\<open>str.split(':', 1)\<close>: the text before and after the first colon, if there is one.\<close>

fun split_colon :: "string \<Rightarrow> (string \<times> string) option" where
  "split_colon [] = None"
| "split_colon (c # cs) =
     (if c = CHR '':'' then Some ([], cs)
      else (case split_colon cs of
              None \<Rightarrow> None
            | Some (p, l) \<Rightarrow> Some (c # p, l)))"

definition starts_with :: "string \<Rightarrow> string \<Rightarrow> bool" where
  "starts_with s p = (take (length p) s = p)"

text \<open>
  Modelled from the spec: \<^verbatim>\<open>valid_qualified_name\<close> is a method of the \<^verbatim>\<open>prov\<close> library's
  bundle and is not part of the sources. Section 4.1 of the specification describes it:
  a qualified name passes through; a string of the form \<^verbatim>\<open>prefix:local\<close> resolves against
  the namespaces known to the bundle, a bare URI against a namespace whose URI it starts
  with; anything else fails, which the callers see as \<^verbatim>\<open>None\<close>. The namespaces
  \<^verbatim>\<open>prov\<close>, \<^verbatim>\<open>xsd\<close> and \<^verbatim>\<open>xsi\<close> are known to every bundle. The argument \<open>nss\<close> is the table of
  the namespaces registered with the bundle.
\<close>

definition valid_qualified_name :: "namespace list \<Rightarrow> pyval \<Rightarrow> qualified_name option" where
  "valid_qualified_name nss v =
     (case v of
        VQName q \<Rightarrow> Some q
      | VStr s \<Rightarrow>
          (case split_colon s of
             None \<Rightarrow> None
           | Some (p, l) \<Rightarrow>
               (case find (\<lambda>n. ns_prefix n = p) (DEFAULT_NAMESPACES @ nss) of
                  Some n \<Rightarrow> Some \<lparr>qn_namespace = n, localpart = l\<rparr>
                | None \<Rightarrow>
                    (case find (\<lambda>n. starts_with s (ns_uri n)) (DEFAULT_NAMESPACES @ nss) of
                       Some n \<Rightarrow> Some \<lparr>qn_namespace = n, localpart = drop (length (ns_uri n)) s\<rparr>
                     | None \<Rightarrow> None)))
      | _ \<Rightarrow> None)"

section \<open>Records, bundles and documents\<close>

text \<open>
  A \<^verbatim>\<open>ProvRecord\<close>: the bundle it belongs to (its namespace table is all the code reads
  of it), whether it is a \<^verbatim>\<open>ProvElement\<close>, a \<^verbatim>\<open>ProvRelation\<close> or neither, the result of
  \<^verbatim>\<open>get_type()\<close> (\<^verbatim>\<open>None\<close> for a bare \<^verbatim>\<open>ProvRecord\<close>), the identifier, and the attributes as
  the list of (key, value) pairs that the property \<^verbatim>\<open>attributes\<close> returns: a key that
  has several values occurs once for each. For a relation, \<open>formal_from\<close>, \<open>formal_to\<close> and
  \<open>formal_third\<close> are the values \<^verbatim>\<open>formal_attributes[0][1]\<close>, \<^verbatim>\<open>formal_attributes[1][1]\<close> and
  \<^verbatim>\<open>formal_attributes[2][1]\<close> (every relation class of the library has the first two, a
  mention has the bundle as its third).
\<close>

datatype record_class = ProvElement | ProvRelation | OtherRecord

record prov_record =
  rec_bundle :: "namespace list"
  record_class :: record_class
  get_type :: "qualified_name option"
  rec_identifier :: pyval
  rec_attributes :: "(pyval \<times> pyval) list"
  formal_from :: "qualified_name option"
  formal_to :: "qualified_name option"
  formal_third :: "qualified_name option"

datatype py_object = Record prov_record | NotARecord

record prov_bundle =
  bundle_identifier :: qualified_name
  bundle_namespaces :: "namespace list"
  bundle_records :: "prov_record list"

record prov_document =
  records :: "prov_record list"
  bundles :: "prov_bundle list"

definition get_records :: "record_class \<Rightarrow> prov_record list \<Rightarrow> prov_record list" where
  "get_records c rs = filter (\<lambda>r. record_class r = c) rs"

section \<open>Errors\<close>

text \<open>The exceptions of \<^verbatim>\<open>db_adapters/__init__.py\<close>: the database error family.\<close>

datatype db_error =
    AdapterException
  | AuthException
  | InvalidOptionsException
  | CreateRecordException
  | DatabaseException
  | CreateRelationException

text \<open>
  Everything a call can raise: the typed errors of the package, an adapter's error
  passed on unchanged, the two built-in Python errors that the code can run into
  (a failed \<^verbatim>\<open>dict\<close> lookup, an attribute read on \<^verbatim>\<open>None\<close>), and the error of the \<^verbatim>\<open>prov\<close>
  library.
\<close>

datatype error =
    InvalidArgumentTypeException
  | InvalidProvRecordException
  | ParseException
  | DatabaseError db_error
  | KeyError
  | AttributeError
  | ProvException

section \<open>Record Metadata Extractor\<close>

record metadata =
  prov_type :: qualified_name
  md_identifier :: qualified_name
  namespaces :: "(string \<times> string) list"
  type_map :: "(string \<times> string) list"

text \<open>
  A Python \<^verbatim>\<open>dict\<close> keeps its keys in the order of their first insertion; setting a
  key that is already there (one equal to it) replaces the value and keeps the old key.
  Dictionaries keyed by strings are updated with \<^const>\<open>AList.update\<close>.
\<close>

fun dict_set :: "pyval \<Rightarrow> 'v \<Rightarrow> (pyval \<times> 'v) list \<Rightarrow> (pyval \<times> 'v) list" where
  "dict_set k v [] = [(k, v)]"
| "dict_set k v ((k', v') # d) =
     (if py_eq k' k then (k', v) # d else (k', v') # dict_set k v d)"

definition py_dict :: "(pyval \<times> 'v) list \<Rightarrow> (pyval \<times> 'v) list" where
  "py_dict items = foldl (\<lambda>d (k, v). dict_set k v d) [] items"

definition add_namespace :: "namespace \<Rightarrow> (string \<times> string) list \<Rightarrow> (string \<times> string) list" where
  "add_namespace n used = AList.update (ns_prefix n) (ns_uri n) used"

text \<open>
  Modelled from the spec: \<^verbatim>\<open>encode_json_representation\<close> (module \<^verbatim>\<open>utils.serializer\<close>) is
  not part of the sources. Section 4.2: the type tag of a value, none for a plain string.
\<close>

fun encode_json_representation :: "pyval \<Rightarrow> string option" where
  "encode_json_representation (VQName q) = Some ''prov:QUALIFIED_NAME''"
| "encode_json_representation (VLiteral s t) = Some t"
| "encode_json_representation v = None"

text \<open>The loop over \<^verbatim>\<open>attributes.items()\<close> that collects the namespaces (lines 384-406).\<close>

fun collect_namespaces ::
  "namespace list \<Rightarrow> (pyval \<times> pyval) list \<Rightarrow> (string \<times> string) list \<Rightarrow>
   error + (string \<times> string) list" where
  "collect_namespaces b [] used = Inr used"
| "collect_namespaces b ((key, val) # items) used =
     (case key of
        VQName k \<Rightarrow>
          (let used1 = add_namespace (qn_namespace k) used;
               used2 =
                 (case val of
                    VQName q \<Rightarrow> add_namespace (qn_namespace q) used1
                  | _ \<Rightarrow>
                      (case valid_qualified_name b val of
                         Some q \<Rightarrow> add_namespace (qn_namespace q) used1
                       | None \<Rightarrow> used1))
           in collect_namespaces b items used2)
      | _ \<Rightarrow> Inl InvalidProvRecordException)"

text \<open>The loop that builds the type map (lines 409-414).\<close>

definition in_prov_attributes :: "pyval \<Rightarrow> bool" where
  "in_prov_attributes key = (\<exists>a \<in> set PROV_ATTRIBUTES. py_eq key (VQName a))"

definition str_key :: "pyval \<Rightarrow> string" where
  "str_key key = (case key of VQName k \<Rightarrow> str_qname k | VStr s \<Rightarrow> s | _ \<Rightarrow> [])"

definition create_type_dict :: "(pyval \<times> pyval) list \<Rightarrow> (string \<times> string) list" where
  "create_type_dict attrs =
     foldl (\<lambda>d (key, val).
              if in_prov_attributes key then d
              else (case encode_json_representation val of
                      Some t \<Rightarrow> AList.update (str_key key) t d
                    | None \<Rightarrow> d))
       [] attrs"

definition get_metadata_and_attributes_for_record ::
  "py_object \<Rightarrow> error + (metadata \<times> (pyval \<times> pyval) list)" where
  "get_metadata_and_attributes_for_record obj =
     (case obj of
        NotARecord \<Rightarrow> Inl InvalidArgumentTypeException
      | Record r \<Rightarrow>
          (let ptype =
                 (case get_type r of
                    None \<Rightarrow> valid_qualified_name (rec_bundle r) (VStr ''prov:Unknown'')
                  | Some t \<Rightarrow> Some t);
               pid =
                 (if rec_identifier r = VNone
                  then (case ptype of Some t \<Rightarrow> VQName t | None \<Rightarrow> VNone)
                  else rec_identifier r)
           in (case valid_qualified_name (rec_bundle r) pid of
                 None \<Rightarrow> Inl InvalidProvRecordException
               | Some ident \<Rightarrow>
                   (case ptype of
                      None \<Rightarrow> Inl AttributeError
                    | Some t \<Rightarrow>
                        (let used = add_namespace (qn_namespace ident)
                                      (add_namespace (qn_namespace t) []);
                             attrs = py_dict (rec_attributes r)
                         in (case collect_namespaces (rec_bundle r) attrs used of
                               Inl e \<Rightarrow> Inl e
                             | Inr used' \<Rightarrow>
                                 Inr (\<lparr>prov_type = t, md_identifier = ident,
                                       namespaces = used',
                                       type_map = create_type_dict attrs\<rparr>, attrs)))))))"

section \<open>Storage adapter\<close>

text \<open>
  What the reconstructor reads back (\<^verbatim>\<open>get_document\<close>): raw records with their metadata
  and attributes. The storage keeps strings: type and identifier come back as
  \<^verbatim>\<open>prefix:local\<close> strings and the attribute keys are strings. The type map comes back as
  a \<^verbatim>\<open>dict\<close>, as a JSON string (given here by the \<^verbatim>\<open>dict\<close> that \<^verbatim>\<open>json.load\<close> reads from
  it; a string that is not the JSON text of a \<^verbatim>\<open>dict\<close> is not among the values) or as
  something else.
\<close>

datatype type_map_value =
    TypeMapDict "(string \<times> string) list"
  | TypeMapJson "(string \<times> string) list"
  | TypeMapOther

record raw_metadata =
  raw_type :: string
  raw_identifier :: string
  raw_namespaces :: "(string \<times> string) list"
  raw_type_map :: type_map_value

record raw_record =
  raw_meta :: raw_metadata
  raw_attributes :: "(string \<times> pyval) list"

record raw_bundle =
  bundle_record :: raw_record
  raw_records :: "raw_record list"

record raw_document =
  document_records :: "raw_record list"
  raw_bundles :: "raw_bundle list"

text \<open>
  The adapter is a parameter: any implementation of the save/get contract, over a state
  \<open>'s\<close> of its own. Each operation either fails with an error of the database family or
  returns an id (any Python value) and the new state.
\<close>

record 's adapter =
  save_document :: "'s \<Rightarrow> db_error + (pyval \<times> 's)"
  save_bundle ::
    "pyval \<Rightarrow> (pyval \<times> pyval) list \<Rightarrow> metadata \<Rightarrow> 's \<Rightarrow> db_error + (pyval \<times> 's)"
  save_record ::
    "pyval \<Rightarrow> (pyval \<times> pyval) list \<Rightarrow> metadata \<Rightarrow> 's \<Rightarrow> db_error + (pyval \<times> 's)"
  save_relation ::
    "pyval \<Rightarrow> qualified_name option \<Rightarrow> pyval \<Rightarrow> qualified_name option \<Rightarrow>
     (pyval \<times> pyval) list \<Rightarrow> metadata \<Rightarrow> 's \<Rightarrow> db_error + (pyval \<times> 's)"
  get_document :: "string \<Rightarrow> 's \<Rightarrow> db_error + raw_document"

text \<open>
  The calls made to the adapter, with their arguments. The state of a run is the
  adapter's state, the calls made so far with the ids they returned (a history kept
  for the ordering properties; the code never reads it), and the source of the values
  of \<^verbatim>\<open>uuid4()\<close>: the sequence of its results and the number drawn so far.
\<close>

datatype db_call =
    SaveDocument
  | SaveBundle pyval "(pyval \<times> pyval) list" metadata
  | SaveRecord pyval "(pyval \<times> pyval) list" metadata
  | SaveRelation pyval "qualified_name option" pyval "qualified_name option"
      "(pyval \<times> pyval) list" metadata

record 's api_state =
  db :: 's
  calls :: "(db_call \<times> pyval) list"
  uuid_source :: "nat \<Rightarrow> string"
  uuid_count :: nat

definition issue ::
  "('s \<Rightarrow> db_error + (pyval \<times> 's)) \<Rightarrow> db_call \<Rightarrow> 's api_state \<Rightarrow>
   error + (pyval \<times> 's api_state)" where
  "issue f c st =
     (case f (db st) of
        Inl e \<Rightarrow> Inl (DatabaseError e)
      | Inr (i, s') \<Rightarrow> Inr (i, st\<lparr>db := s', calls := calls st @ [(c, i)]\<rparr>))"

definition adapter_save_document :: "'s adapter \<Rightarrow> 's api_state \<Rightarrow> error + (pyval \<times> 's api_state)" where
  "adapter_save_document ad = issue (save_document ad) SaveDocument"

definition adapter_save_bundle ::
  "'s adapter \<Rightarrow> pyval \<Rightarrow> (pyval \<times> pyval) list \<Rightarrow> metadata \<Rightarrow> 's api_state \<Rightarrow>
   error + (pyval \<times> 's api_state)" where
  "adapter_save_bundle ad document_id attrs md =
     issue (save_bundle ad document_id attrs md) (SaveBundle document_id attrs md)"

definition adapter_save_record ::
  "'s adapter \<Rightarrow> pyval \<Rightarrow> (pyval \<times> pyval) list \<Rightarrow> metadata \<Rightarrow> 's api_state \<Rightarrow>
   error + (pyval \<times> 's api_state)" where
  "adapter_save_record ad bundle_id attrs md =
     issue (save_record ad bundle_id attrs md) (SaveRecord bundle_id attrs md)"

definition adapter_save_relation ::
  "'s adapter \<Rightarrow> pyval \<Rightarrow> qualified_name option \<Rightarrow> pyval \<Rightarrow> qualified_name option \<Rightarrow>
   (pyval \<times> pyval) list \<Rightarrow> metadata \<Rightarrow> 's api_state \<Rightarrow> error + (pyval \<times> 's api_state)" where
  "adapter_save_relation ad from_bundle_id from_qn to_bundle_id to_qn attrs md =
     issue (save_relation ad from_bundle_id from_qn to_bundle_id to_qn attrs md)
       (SaveRelation from_bundle_id from_qn to_bundle_id to_qn attrs md)"

definition uuid4 :: "'s api_state \<Rightarrow> string \<times> 's api_state" where
  "uuid4 st = (uuid_source st (uuid_count st), st\<lparr>uuid_count := Suc (uuid_count st)\<rparr>)"

section \<open>Graph Materializer\<close>

definition PROV_API_BUNDLE_IDENTIFIER_PREFIX :: string where
  "PROV_API_BUNDLE_IDENTIFIER_PREFIX = ''prov:bundle:{}''"

text \<open>\<^verbatim>\<open>PROV_API_BUNDLE_IDENTIFIER_PREFIX.format(x)\<close>: the braces are replaced by \<open>x\<close>.\<close>

definition format_bundle_identifier :: "string \<Rightarrow> string" where
  "format_bundle_identifier x =
     take (length PROV_API_BUNDLE_IDENTIFIER_PREFIX - 2) PROV_API_BUNDLE_IDENTIFIER_PREFIX @ x"

definition is_str :: "pyval \<Rightarrow> bool" where
  "is_str v = (case v of VStr s \<Rightarrow> True | _ \<Rightarrow> False)"

definition py_of_qname :: "qualified_name option \<Rightarrow> pyval" where
  "py_of_qname q = (case q of None \<Rightarrow> VNone | Some n \<Rightarrow> VQName n)"

text \<open>\<^verbatim>\<open>_create_unknown_node\<close> (lines 302-315): a bare record in a fresh document.\<close>

definition create_unknown_node ::
  "'s adapter \<Rightarrow> pyval \<Rightarrow> 's api_state \<Rightarrow> error + (qualified_name option \<times> 's api_state)" where
  "create_unknown_node ad bundle_id st =
     (let (uid, st1) = uuid4 st;
          ident = valid_qualified_name [] (VStr (''prov:Unknown-'' @ uid));
          rec = \<lparr>rec_bundle = [], record_class = OtherRecord, get_type = None,
                 rec_identifier = py_of_qname ident, rec_attributes = [],
                 formal_from = None, formal_to = None, formal_third = None\<rparr>
      in (case get_metadata_and_attributes_for_record (Record rec) of
            Inl e \<Rightarrow> Inl e
          | Inr (md, attrs) \<Rightarrow>
              (case adapter_save_record ad bundle_id attrs md st1 of
                 Inl e \<Rightarrow> Inl e
               | Inr (i, st2) \<Rightarrow> Inr (ident, st2))))"

text \<open>\<^verbatim>\<open>_create_relation\<close> (lines 255-279).\<close>

definition create_relation ::
  "'s adapter \<Rightarrow> pyval \<Rightarrow> pyval \<Rightarrow> prov_record \<Rightarrow> 's api_state \<Rightarrow>
   error + (pyval \<times> 's api_state)" where
  "create_relation ad from_bundle_id to_bundle_id prov_relation st =
     (case (case formal_from prov_relation of
              None \<Rightarrow> create_unknown_node ad from_bundle_id st
            | Some q \<Rightarrow> Inr (Some q, st)) of
        Inl e \<Rightarrow> Inl e
      | Inr (from_qn, st1) \<Rightarrow>
          (case (case formal_to prov_relation of
                   None \<Rightarrow> create_unknown_node ad to_bundle_id st1
                 | Some q \<Rightarrow> Inr (Some q, st1)) of
             Inl e \<Rightarrow> Inl e
           | Inr (to_qn, st2) \<Rightarrow>
               (case get_metadata_and_attributes_for_record (Record prov_relation) of
                  Inl e \<Rightarrow> Inl e
                | Inr (md, attrs) \<Rightarrow>
                    adapter_save_relation ad from_bundle_id from_qn to_bundle_id to_qn
                      attrs md st2)))"

text \<open>\<^verbatim>\<open>_create_bundle\<close> (lines 232-253): the two loops, then the function.\<close>

fun create_nodes ::
  "'s adapter \<Rightarrow> pyval \<Rightarrow> prov_record list \<Rightarrow> 's api_state \<Rightarrow> error + 's api_state" where
  "create_nodes ad bundle_id [] st = Inr st"
| "create_nodes ad bundle_id (r # rs) st =
     (case get_metadata_and_attributes_for_record (Record r) of
        Inl e \<Rightarrow> Inl e
      | Inr (md, attrs) \<Rightarrow>
          (case adapter_save_record ad bundle_id attrs md st of
             Inl e \<Rightarrow> Inl e
           | Inr (i, st1) \<Rightarrow> create_nodes ad bundle_id rs st1))"

fun create_relations ::
  "'s adapter \<Rightarrow> pyval \<Rightarrow> prov_record list \<Rightarrow> 's api_state \<Rightarrow> error + 's api_state" where
  "create_relations ad bundle_id [] st = Inr st"
| "create_relations ad bundle_id (r # rs) st =
     (if get_type r = Some PROV_MENTION then create_relations ad bundle_id rs st
      else (case create_relation ad bundle_id bundle_id r st of
              Inl e \<Rightarrow> Inl e
            | Inr (i, st1) \<Rightarrow> create_relations ad bundle_id rs st1))"

definition create_bundle ::
  "'s adapter \<Rightarrow> pyval \<Rightarrow> prov_record list \<Rightarrow> 's api_state \<Rightarrow> error + 's api_state" where
  "create_bundle ad bundle_id recs st =
     (if \<not> is_str bundle_id then Inl InvalidArgumentTypeException
      else (case create_nodes ad bundle_id (get_records ProvElement recs) st of
              Inl e \<Rightarrow> Inl e
            | Inr st1 \<Rightarrow> create_relations ad bundle_id (get_records ProvRelation recs) st1))"

text \<open>\<^verbatim>\<open>_create_bundle_association\<close> (lines 281-300).\<close>

fun create_associations ::
  "'s adapter \<Rightarrow> pyval \<Rightarrow> pyval \<Rightarrow> qualified_name option \<Rightarrow> (pyval \<times> pyval) list \<Rightarrow>
   metadata \<Rightarrow> prov_record list \<Rightarrow> 's api_state \<Rightarrow> error + 's api_state" where
  "create_associations ad document_id bundle_id to_qn belong_attrs belong_md [] st = Inr st"
| "create_associations ad document_id bundle_id to_qn belong_attrs belong_md (r # rs) st =
     (case get_metadata_and_attributes_for_record (Record r) of
        Inl e \<Rightarrow> Inl e
      | Inr (md, attrs) \<Rightarrow>
          (case adapter_save_relation ad bundle_id (Some (md_identifier md)) document_id to_qn
                  belong_attrs belong_md st of
             Inl e \<Rightarrow> Inl e
           | Inr (i, st1) \<Rightarrow>
               create_associations ad document_id bundle_id to_qn belong_attrs belong_md rs st1))"

definition belong_relation :: "prov_bundle \<Rightarrow> prov_record" where
  "belong_relation b =
     \<lparr>rec_bundle = bundle_namespaces b, record_class = ProvRelation,
      get_type = Some PROV_ASSOCIATION, rec_identifier = VNone,
      rec_attributes = [(VQName PROV_LABEL, VStr ''belongsToBundle'')],
      formal_from = None, formal_to = None, formal_third = None\<rparr>"

definition create_bundle_association ::
  "'s adapter \<Rightarrow> pyval \<Rightarrow> pyval \<Rightarrow> qualified_name option \<Rightarrow> prov_bundle \<Rightarrow> 's api_state \<Rightarrow>
   error + 's api_state" where
  "create_bundle_association ad document_id bundle_id bundle_ident b st =
     (case get_metadata_and_attributes_for_record (Record (belong_relation b)) of
        Inl e \<Rightarrow> Inl e
      | Inr (belong_md, belong_attrs) \<Rightarrow>
          create_associations ad document_id bundle_id bundle_ident belong_attrs belong_md
            (get_records ProvElement (bundle_records b)) st)"

text \<open>
  \<^verbatim>\<open>_create_bundle_links\<close> (lines 317-334). The map from bundle identifiers to database
  ids is a \<^verbatim>\<open>dict\<close>; reading a key that is not there raises \<^verbatim>\<open>KeyError\<close>.
\<close>

fun dict_get :: "pyval \<Rightarrow> (pyval \<times> 'v) list \<Rightarrow> 'v option" where
  "dict_get k [] = None"
| "dict_get k ((k', v) # d) = (if py_eq k' k then Some v else dict_get k d)"

fun create_mentions ::
  "'s adapter \<Rightarrow> pyval \<Rightarrow> (pyval \<times> pyval) list \<Rightarrow> prov_record list \<Rightarrow> 's api_state \<Rightarrow>
   error + 's api_state" where
  "create_mentions ad from_bundle_id bundle_id_map [] st = Inr st"
| "create_mentions ad from_bundle_id bundle_id_map (m # ms) st =
     (if get_type m \<noteq> Some PROV_MENTION then create_mentions ad from_bundle_id bundle_id_map ms st
      else (case dict_get (py_of_qname (formal_third m)) bundle_id_map of
              None \<Rightarrow> Inl KeyError
            | Some to_bundle_id \<Rightarrow>
                (case create_relation ad from_bundle_id to_bundle_id m st of
                   Inl e \<Rightarrow> Inl e
                 | Inr (i, st1) \<Rightarrow> create_mentions ad from_bundle_id bundle_id_map ms st1)))"

definition create_bundle_links ::
  "'s adapter \<Rightarrow> prov_bundle \<Rightarrow> (pyval \<times> pyval) list \<Rightarrow> 's api_state \<Rightarrow> error + 's api_state" where
  "create_bundle_links ad b bundle_id_map st =
     (case dict_get (VQName (bundle_identifier b)) bundle_id_map of
        None \<Rightarrow> Inl KeyError
      | Some from_bundle_id \<Rightarrow>
          create_mentions ad from_bundle_id bundle_id_map
            (get_records ProvRelation (bundle_records b)) st)"

text \<open>
  Modelled from the spec: \<^verbatim>\<open>form_string\<close> (module \<^verbatim>\<open>utils.converter\<close>) is not part of the
  sources. Section 6: a document instance is returned as it is, a text is parsed into a
  document or fails with \<^verbatim>\<open>ParseError\<close>. The parser is the parameter \<open>parse\<close>.
\<close>

datatype content = Document prov_document | Text string

definition form_string :: "(string \<Rightarrow> prov_document option) \<Rightarrow> content \<Rightarrow> error + prov_document" where
  "form_string parse c =
     (case c of
        Document d \<Rightarrow> Inr d
      | Text s \<Rightarrow> (case parse s of None \<Rightarrow> Inl ParseException | Some d \<Rightarrow> Inr d))"

text \<open>
  \<^verbatim>\<open>create_document\<close> (lines 126-162). The record of a bundle is a \<^verbatim>\<open>ProvBundleRecord\<close>
  with the prefixed identifier and the attribute \<^verbatim>\<open>prov:bundle_name\<close> (the constructor of
  the record resolves the key to a qualified name).
\<close>

definition bundle_record_of :: "prov_bundle \<Rightarrow> qualified_name option \<Rightarrow> prov_record" where
  "bundle_record_of b custom_bundle_identifier =
     \<lparr>rec_bundle = bundle_namespaces b, record_class = OtherRecord,
      get_type = Some PROV_BUNDLE, rec_identifier = py_of_qname custom_bundle_identifier,
      rec_attributes = [(VQName (prov_qn ''bundle_name''), VQName (bundle_identifier b))],
      formal_from = None, formal_to = None, formal_third = None\<rparr>"

fun create_bundles ::
  "'s adapter \<Rightarrow> pyval \<Rightarrow> prov_bundle list \<Rightarrow> (pyval \<times> pyval) list \<Rightarrow> 's api_state \<Rightarrow>
   error + ((pyval \<times> pyval) list \<times> 's api_state)" where
  "create_bundles ad doc_id [] bundle_id_map st = Inr (bundle_id_map, st)"
| "create_bundles ad doc_id (b # bs) bundle_id_map st =
     (let custom_bundle_identifier =
            valid_qualified_name (bundle_namespaces b)
              (VStr (format_bundle_identifier (str_qname (bundle_identifier b))))
      in (case get_metadata_and_attributes_for_record
                 (Record (bundle_record_of b custom_bundle_identifier)) of
            Inl e \<Rightarrow> Inl e
          | Inr (md, attrs) \<Rightarrow>
              (case adapter_save_bundle ad doc_id attrs md st of
                 Inl e \<Rightarrow> Inl e
               | Inr (bundle_id, st1) \<Rightarrow>
                   (case create_bundle ad bundle_id (bundle_records b) st1 of
                      Inl e \<Rightarrow> Inl e
                    | Inr st2 \<Rightarrow>
                        (case create_bundle_association ad doc_id bundle_id
                                custom_bundle_identifier b st2 of
                           Inl e \<Rightarrow> Inl e
                         | Inr st3 \<Rightarrow>
                             create_bundles ad doc_id bs
                               (dict_set (VQName (bundle_identifier b)) bundle_id bundle_id_map)
                               st3)))))"

fun create_all_bundle_links ::
  "'s adapter \<Rightarrow> prov_bundle list \<Rightarrow> (pyval \<times> pyval) list \<Rightarrow> 's api_state \<Rightarrow>
   error + 's api_state" where
  "create_all_bundle_links ad [] bundle_id_map st = Inr st"
| "create_all_bundle_links ad (b # bs) bundle_id_map st =
     (case create_bundle_links ad b bundle_id_map st of
        Inl e \<Rightarrow> Inl e
      | Inr st1 \<Rightarrow> create_all_bundle_links ad bs bundle_id_map st1)"

text \<open>
  The first pass of \<^verbatim>\<open>create_document\<close> (lines 141-157): the document's container, its
  records, then every bundle. The second pass (lines 159-160) creates the links.
\<close>

definition first_pass ::
  "'s adapter \<Rightarrow> prov_document \<Rightarrow> 's api_state \<Rightarrow>
   error + (pyval \<times> (pyval \<times> pyval) list \<times> 's api_state)" where
  "first_pass ad prov_document st =
     (case adapter_save_document ad st of
        Inl e \<Rightarrow> Inl e
      | Inr (doc_id, st1) \<Rightarrow>
          (case create_bundle ad doc_id (records prov_document) st1 of
             Inl e \<Rightarrow> Inl e
           | Inr st2 \<Rightarrow>
               (case create_bundles ad doc_id (bundles prov_document) [] st2 of
                  Inl e \<Rightarrow> Inl e
                | Inr (bundle_id_map, st3) \<Rightarrow> Inr (doc_id, bundle_id_map, st3))))"

definition create_document ::
  "(string \<Rightarrow> prov_document option) \<Rightarrow> 's adapter \<Rightarrow> content \<Rightarrow> 's api_state \<Rightarrow>
   error + (pyval \<times> 's api_state)" where
  "create_document parse ad c st =
     (case form_string parse c of
        Inl e \<Rightarrow> Inl InvalidArgumentTypeException
      | Inr prov_document \<Rightarrow>
          (case first_pass ad prov_document st of
             Inl e \<Rightarrow> Inl e
           | Inr (doc_id, bundle_id_map, st3) \<Rightarrow>
               (case create_all_bundle_links ad (bundles prov_document) bundle_id_map st3 of
                  Inl e \<Rightarrow> Inl e
                | Inr st4 \<Rightarrow> Inr (doc_id, st4))))"

text \<open>
  The converter methods (lines 61-123). The three text variants call \<^verbatim>\<open>form_string\<close>
  themselves, outside the \<^verbatim>\<open>try\<close> of \<^verbatim>\<open>create_document\<close>.
\<close>

definition create_document_from_json ::
  "(string \<Rightarrow> prov_document option) \<Rightarrow> 's adapter \<Rightarrow> content \<Rightarrow> 's api_state \<Rightarrow>
   error + (pyval \<times> 's api_state)" where
  "create_document_from_json parse ad c st =
     (case form_string parse c of
        Inl e \<Rightarrow> Inl e
      | Inr prov_document \<Rightarrow> create_document parse ad (Document prov_document) st)"

definition create_document_from_xml ::
  "(string \<Rightarrow> prov_document option) \<Rightarrow> 's adapter \<Rightarrow> content \<Rightarrow> 's api_state \<Rightarrow>
   error + (pyval \<times> 's api_state)" where
  "create_document_from_xml parse ad c st =
     (case form_string parse c of
        Inl e \<Rightarrow> Inl e
      | Inr prov_document \<Rightarrow> create_document parse ad (Document prov_document) st)"

definition create_document_from_provn ::
  "(string \<Rightarrow> prov_document option) \<Rightarrow> 's adapter \<Rightarrow> content \<Rightarrow> 's api_state \<Rightarrow>
   error + (pyval \<times> 's api_state)" where
  "create_document_from_provn parse ad c st =
     (case form_string parse c of
        Inl e \<Rightarrow> Inl e
      | Inr prov_document \<Rightarrow> create_document parse ad (Document prov_document) st)"

definition create_document_from_prov ::
  "(string \<Rightarrow> prov_document option) \<Rightarrow> 's adapter \<Rightarrow> content \<Rightarrow> 's api_state \<Rightarrow>
   error + (pyval \<times> 's api_state)" where
  "create_document_from_prov parse ad c st =
     (case c of
        Document d \<Rightarrow> create_document parse ad c st
      | _ \<Rightarrow> Inl InvalidArgumentTypeException)"

section \<open>Document Reconstructor\<close>

text \<open>
  The document that \<^verbatim>\<open>get_document_as_prov\<close> builds: for the document itself and for
  each bundle, the namespaces registered so far and the records created, each with the
  type, the identifier and the attributes that \<^verbatim>\<open>_parse_record\<close> hands to
  \<^verbatim>\<open>create_prov_record\<close>.
\<close>

record restored_record =
  restored_type :: "qualified_name option"
  restored_identifier :: pyval
  restored_attributes :: "(pyval \<times> pyval) list"

record restored_bundle =
  restored_name :: "qualified_name option"
  restored_namespaces :: "namespace list"
  restored_records :: "restored_record list"

record restored_document =
  restored_top :: restored_bundle
  restored_bundles :: "restored_bundle list"

text \<open>
  Modelled from the spec: \<^verbatim>\<open>add_namespaces_to_bundle\<close> (module \<^verbatim>\<open>utils.serializer\<close>) is
  not part of the sources. Section 4.5: the namespaces of the stored metadata are
  registered with the bundle again.
\<close>

definition add_namespaces_to_bundle :: "restored_bundle \<Rightarrow> raw_metadata \<Rightarrow> restored_bundle" where
  "add_namespaces_to_bundle b md =
     b\<lparr>restored_namespaces :=
         restored_namespaces b @ map (\<lambda>(p, u). \<lparr>ns_prefix = p, ns_uri = u\<rparr>) (raw_namespaces md)\<rparr>"

text \<open>
  Modelled from the spec: the decoding half of the type codec (module
  \<^verbatim>\<open>utils.serializer\<close>) is not part of the sources. Section 4.2: a stored value without a
  type tag is what it is; a tagged value is read back according to its tag.
\<close>

definition decode_json_representation :: "namespace list \<Rightarrow> pyval \<Rightarrow> string option \<Rightarrow> pyval" where
  "decode_json_representation nss v tag =
     (case tag of
        None \<Rightarrow> v
      | Some t \<Rightarrow>
          (case v of
             VStr s \<Rightarrow>
               (if t = ''prov:QUALIFIED_NAME''
                then (case valid_qualified_name nss v of Some q \<Rightarrow> VQName q | None \<Rightarrow> v)
                else VLiteral s t)
           | _ \<Rightarrow> v))"

text \<open>
  Modelled from the spec: \<^verbatim>\<open>create_prov_record\<close> (module \<^verbatim>\<open>utils.serializer\<close>) is not part
  of the sources. Section 4.5: the record is created in the bundle with the given type,
  with the given identifier (none, or the stored string resolved against the bundle),
  and with the stored attributes, their value types restored from the type map.
  Section 3: the keys of a record's attributes are qualified names, so each stored key
  is resolved against the bundle; a key that does not resolve stays the stored string.
\<close>

definition restored_key :: "namespace list \<Rightarrow> string \<Rightarrow> pyval" where
  "restored_key nss k =
     (case valid_qualified_name nss (VStr k) of Some q \<Rightarrow> VQName q | None \<Rightarrow> VStr k)"

definition create_prov_record ::
  "restored_bundle \<Rightarrow> qualified_name option \<Rightarrow> pyval \<Rightarrow> (string \<times> pyval) list \<Rightarrow>
   (string \<times> string) list \<Rightarrow> restored_bundle" where
  "create_prov_record b ptype prov_id attrs tm =
     b\<lparr>restored_records := restored_records b @
         [\<lparr>restored_type = ptype,
           restored_identifier =
             (case valid_qualified_name (restored_namespaces b) prov_id of
                Some q \<Rightarrow> VQName q
              | None \<Rightarrow> prov_id),
           restored_attributes =
             map (\<lambda>(k, v). (restored_key (restored_namespaces b) k,
                             decode_json_representation (restored_namespaces b) v (map_of tm k)))
               attrs\<rparr>]\<rparr>"

text \<open>Python's \<^verbatim>\<open>==\<close> between two results of the resolver, either of which may be \<^verbatim>\<open>None\<close>.\<close>

fun qn_opt_eq :: "qualified_name option \<Rightarrow> qualified_name option \<Rightarrow> bool" where
  "qn_opt_eq (Some a) (Some b) = qn_eq a b"
| "qn_opt_eq None None = True"
| "qn_opt_eq a b = False"

text \<open>
  \<^verbatim>\<open>_parse_record\<close> (lines 190-230). The test \<^verbatim>\<open>is\<close> of line 204 compares the two
  objects that the resolver returns for the stored type and for \<^verbatim>\<open>prov:Unknown\<close>; the
  library keeps one object for each name of a namespace, so it is the equality of the
  two results.
\<close>

definition parse_record :: "restored_bundle \<Rightarrow> raw_record \<Rightarrow> error + restored_bundle" where
  "parse_record b raw =
     (let ptype = valid_qualified_name (restored_namespaces b) (VStr (raw_type (raw_meta raw)))
      in if ptype = valid_qualified_name (restored_namespaces b) (VStr ''prov:Unknown'')
         then Inr b
         else (let prov_label = map_of (raw_attributes raw) (str_qname PROV_LABEL)
               in if prov_label \<noteq> None \<and> prov_label = Some (VStr ''belongsToBundle'')
                  then Inr b
                  else (let prov_id = raw_identifier (raw_meta raw);
                            prov_id_qualified =
                              valid_qualified_name (restored_namespaces b) (VStr prov_id);
                            prov_id' = (if qn_opt_eq prov_id_qualified ptype then VNone
                                        else VStr prov_id)
                        in (case raw_type_map (raw_meta raw) of
                              TypeMapJson tm \<Rightarrow>
                                Inr (create_prov_record (add_namespaces_to_bundle b (raw_meta raw))
                                       ptype prov_id' (raw_attributes raw) tm)
                            | TypeMapDict tm \<Rightarrow>
                                Inr (create_prov_record (add_namespaces_to_bundle b (raw_meta raw))
                                       ptype prov_id' (raw_attributes raw) tm)
                            | TypeMapOther \<Rightarrow> Inl InvalidArgumentTypeException))))"

fun parse_records :: "restored_bundle \<Rightarrow> raw_record list \<Rightarrow> error + restored_bundle" where
  "parse_records b [] = Inr b"
| "parse_records b (raw # raws) =
     (case parse_record b raw of
        Inl e \<Rightarrow> Inl e
      | Inr b' \<Rightarrow> parse_records b' raws)"

text \<open>
  The loop over the bundles of \<^verbatim>\<open>get_document_as_prov\<close> (lines 180-187). The method
  \<^verbatim>\<open>ProvDocument.bundle\<close> of the \<^verbatim>\<open>prov\<close> library (line 184) resolves the identifier against
  the document and raises \<^verbatim>\<open>ProvException\<close> when it does not resolve or when the document
  already has a bundle of that name. A new bundle of the document sees the namespaces of
  the document.
\<close>

fun parse_bundles ::
  "restored_bundle \<Rightarrow> raw_bundle list \<Rightarrow> restored_bundle list \<Rightarrow> error + restored_bundle list" where
  "parse_bundles doc [] acc = Inr acc"
| "parse_bundles doc (rb # rbs) acc =
     (let prefixed_identifier = raw_identifier (raw_meta (bundle_record rb));
          ident = drop (length PROV_API_BUNDLE_IDENTIFIER_PREFIX - 2) prefixed_identifier
      in (case valid_qualified_name (restored_namespaces doc) (VStr ident) of
            None \<Rightarrow> Inl ProvException
          | Some valid_id \<Rightarrow>
              if list_ex (\<lambda>b. qn_opt_eq (restored_name b) (Some valid_id)) acc
              then Inl ProvException
              else (case parse_records
                           \<lparr>restored_name = Some valid_id,
                            restored_namespaces = restored_namespaces doc,
                            restored_records = []\<rparr>
                           (raw_records rb) of
                      Inl e \<Rightarrow> Inl e
                    | Inr b' \<Rightarrow> parse_bundles doc rbs (acc @ [b']))))"

definition get_document_as_prov ::
  "'s adapter \<Rightarrow> pyval \<Rightarrow> 's api_state \<Rightarrow> error + restored_document" where
  "get_document_as_prov ad document_id st =
     (case document_id of
        VStr i \<Rightarrow>
          (case get_document ad i (db st) of
             Inl e \<Rightarrow> Inl (DatabaseError e)
           | Inr raw_doc \<Rightarrow>
               (case parse_records
                       \<lparr>restored_name = None, restored_namespaces = [], restored_records = []\<rparr>
                       (document_records raw_doc) of
                  Inl e \<Rightarrow> Inl e
                | Inr doc \<Rightarrow>
                    (case parse_bundles doc (raw_bundles raw_doc) [] of
                       Inl e \<Rightarrow> Inl e
                     | Inr bs \<Rightarrow> Inr \<lparr>restored_top = doc, restored_bundles = bs\<rparr>)))
      | _ \<Rightarrow> Inl InvalidArgumentTypeException)"

text \<open>
  The three output variants (lines 70-113) serialize the result; the serializers
  (\<^verbatim>\<open>to_json\<close>, \<^verbatim>\<open>to_xml\<close>, \<^verbatim>\<open>to_provn\<close> of \<^verbatim>\<open>utils.converter\<close>) are parameters.
\<close>

definition get_document_as_json ::
  "(restored_document \<Rightarrow> string) \<Rightarrow> 's adapter \<Rightarrow> pyval \<Rightarrow> 's api_state \<Rightarrow> error + string" where
  "get_document_as_json to_json ad document_id st =
     (case get_document_as_prov ad document_id st of
        Inl e \<Rightarrow> Inl e
      | Inr d \<Rightarrow> Inr (to_json d))"

definition get_document_as_xml ::
  "(restored_document \<Rightarrow> string) \<Rightarrow> 's adapter \<Rightarrow> pyval \<Rightarrow> 's api_state \<Rightarrow> error + string" where
  "get_document_as_xml to_xml ad document_id st =
     (case get_document_as_prov ad document_id st of
        Inl e \<Rightarrow> Inl e
      | Inr d \<Rightarrow> Inr (to_xml d))"

definition get_document_as_provn ::
  "(restored_document \<Rightarrow> string) \<Rightarrow> 's adapter \<Rightarrow> pyval \<Rightarrow> 's api_state \<Rightarrow> error + string" where
  "get_document_as_provn to_provn ad document_id st =
     (case get_document_as_prov ad document_id st of
        Inl e \<Rightarrow> Inl e
      | Inr d \<Rightarrow> Inr (to_provn d))"

text \<open>
  Modelled from the spec: the storage adapters are not part of the sources. Sections 1,
  4.1 and 6: what is saved is read back with \<^verbatim>\<open>metadata\<close> and \<^verbatim>\<open>attributes\<close>, the qualified
  names of type, identifier and attribute keys as \<^verbatim>\<open>prefix:local\<close> strings.
\<close>

definition stored_record :: "(pyval \<times> pyval) list \<Rightarrow> metadata \<Rightarrow> raw_record" where
  "stored_record attrs md =
     \<lparr>raw_meta = \<lparr>raw_type = str_qname (prov_type md),
                  raw_identifier = str_qname (md_identifier md),
                  raw_namespaces = namespaces md,
                  raw_type_map = TypeMapDict (type_map md)\<rparr>,
      raw_attributes = map (\<lambda>(k, v). (str_key k, v)) attrs\<rparr>"

section \<open>Notions used in the statements\<close>

text \<open>Whether a Python value is a qualified name.\<close>

definition is_qname :: "pyval \<Rightarrow> bool" where
  "is_qname v = (case v of VQName q \<Rightarrow> True | _ \<Rightarrow> False)"

text \<open>The type under which a record is stored, and the identifier that is resolved.\<close>

definition record_type :: "prov_record \<Rightarrow> qualified_name" where
  "record_type r = (case get_type r of None \<Rightarrow> PROV_UNKNOWN | Some t \<Rightarrow> t)"

definition declared_identifier :: "prov_record \<Rightarrow> pyval" where
  "declared_identifier r =
     (if rec_identifier r = VNone then VQName (record_type r) else rec_identifier r)"

text \<open>
  The namespaces that the loop over the attributes comes across, in its order: of each
  key, and of each value that is a qualified name or resolves to one.
\<close>

definition referenced_namespaces :: "namespace list \<Rightarrow> (pyval \<times> pyval) list \<Rightarrow> namespace list" where
  "referenced_namespaces b attrs =
     concat (map (\<lambda>(k, v).
        (case k of VQName q \<Rightarrow> [qn_namespace q] | _ \<Rightarrow> []) @
        (case valid_qualified_name b v of Some q \<Rightarrow> [qn_namespace q] | None \<Rightarrow> [])) attrs)"

text \<open>
  What \<^verbatim>\<open>_parse_record\<close> reads of a raw record: the stored type and identifier as the
  bundle resolves them, the type map if it is a \<^verbatim>\<open>dict\<close> or a JSON string, and whether the
  record is skipped (its type is \<^verbatim>\<open>prov:Unknown\<close>, or its \<^verbatim>\<open>prov:label\<close> is
  \<^verbatim>\<open>belongsToBundle\<close>).
\<close>

definition skipped_label :: "(string \<times> pyval) list \<Rightarrow> bool" where
  "skipped_label attrs = (map_of attrs ''prov:label'' = Some (VStr ''belongsToBundle''))"

definition type_map_of :: "type_map_value \<Rightarrow> (string \<times> string) list option" where
  "type_map_of v =
     (case v of TypeMapDict tm \<Rightarrow> Some tm | TypeMapJson tm \<Rightarrow> Some tm | TypeMapOther \<Rightarrow> None)"

definition stored_type :: "restored_bundle \<Rightarrow> raw_record \<Rightarrow> qualified_name option" where
  "stored_type b raw = valid_qualified_name (restored_namespaces b) (VStr (raw_type (raw_meta raw)))"

definition stored_identifier :: "restored_bundle \<Rightarrow> raw_record \<Rightarrow> qualified_name option" where
  "stored_identifier b raw =
     valid_qualified_name (restored_namespaces b) (VStr (raw_identifier (raw_meta raw)))"

definition is_skipped :: "restored_bundle \<Rightarrow> raw_record \<Rightarrow> bool" where
  "is_skipped b raw =
     (stored_type b raw = Some PROV_UNKNOWN \<or> skipped_label (raw_attributes raw))"

text \<open>
  The metadata of the placeholder that \<^verbatim>\<open>_create_unknown_node\<close> saves for the identifier
  \<^verbatim>\<open>prov:Unknown-<uid>\<close>.
\<close>

definition unknown_metadata :: "string \<Rightarrow> metadata" where
  "unknown_metadata uid =
     \<lparr>prov_type = PROV_UNKNOWN, md_identifier = prov_qn (''Unknown-'' @ uid),
      namespaces = [(''prov'', ''http://www.w3.org/ns/prov#'')], type_map = []\<rparr>"

text \<open>
  The adapter calls made between two states, and the relation between a state and a later
  one: the log of calls grows at its end, the source of identifiers is the same and is
  never rewound.
\<close>

definition new_calls :: "'s api_state \<Rightarrow> 's api_state \<Rightarrow> (db_call \<times> pyval) list" where
  "new_calls st st' = drop (length (calls st)) (calls st')"

definition extends :: "'s api_state \<Rightarrow> 's api_state \<Rightarrow> bool" where
  "extends st st' = (take (length (calls st)) (calls st') = calls st \<and>
      length (calls st) \<le> length (calls st') \<and>
      uuid_source st' = uuid_source st \<and> uuid_count st \<le> uuid_count st')"

text \<open>
  The identifier and the call of the \<open>n\<close>-th placeholder created from the state \<open>st\<close> on.
\<close>

definition placeholder_identifier :: "'s api_state \<Rightarrow> nat \<Rightarrow> qualified_name" where
  "placeholder_identifier st n = prov_qn (''Unknown-'' @ uuid_source st (uuid_count st + n))"

definition placeholder_call :: "'s api_state \<Rightarrow> nat \<Rightarrow> pyval \<Rightarrow> db_call" where
  "placeholder_call st n bundle_id =
     SaveRecord bundle_id [] (unknown_metadata (uuid_source st (uuid_count st + n)))"

text \<open>
  The records of a reconstructed document and the raw records of what the adapter
  returned. A record is rebuilt from a raw record when \<^verbatim>\<open>_parse_record\<close>, in some state of
  the bundle, creates it from that raw record.
\<close>

definition all_restored_records :: "restored_document \<Rightarrow> restored_record list" where
  "all_restored_records d =
     restored_records (restored_top d) @ concat (map restored_records (restored_bundles d))"

definition all_raw_records :: "raw_document \<Rightarrow> raw_record list" where
  "all_raw_records raw_doc =
     document_records raw_doc @ concat (map raw_records (raw_bundles raw_doc))"

definition rebuilt_from :: "raw_record \<Rightarrow> restored_record \<Rightarrow> bool" where
  "rebuilt_from raw r =
     (\<exists>b b'. parse_record b raw = Inr b' \<and> restored_records b' = restored_records b @ [r])"

text \<open>
  What holds of every record that the reconstructor creates from the raw records \<open>raws\<close>:
  its type is not \<^verbatim>\<open>prov:Unknown\<close>, and it is rebuilt from one of them whose stored
  \<^verbatim>\<open>prov:label\<close> is not \<^verbatim>\<open>belongsToBundle\<close>.
\<close>

definition kept :: "raw_record list \<Rightarrow> restored_record \<Rightarrow> bool" where
  "kept raws r =
     (restored_type r \<noteq> Some PROV_UNKNOWN \<and>
      (\<exists>raw \<in> set raws. rebuilt_from raw r \<and> \<not> skipped_label (raw_attributes raw)))"

text \<open>The attributes and the metadata of a bundle-membership edge.\<close>

definition membership_attributes :: "(pyval \<times> pyval) list" where
  "membership_attributes = [(VQName PROV_LABEL, VStr ''belongsToBundle'')]"

definition membership_metadata :: metadata where
  "membership_metadata =
     \<lparr>prov_type = PROV_ASSOCIATION, md_identifier = PROV_ASSOCIATION,
      namespaces = [(''prov'', ''http://www.w3.org/ns/prov#'')], type_map = []\<rparr>"

text \<open>
  The errors of the taxonomy: \<^verbatim>\<open>InvalidArgumentTypeException\<close>, \<^verbatim>\<open>InvalidProvRecordException\<close> and the
  database error family.
\<close>

definition typed_error :: "error \<Rightarrow> bool" where
  "typed_error e =
     (case e of
        InvalidArgumentTypeException \<Rightarrow> True
      | InvalidProvRecordException \<Rightarrow> True
      | DatabaseError d \<Rightarrow> True
      | _ \<Rightarrow> False)"

text \<open>
  The kinds of calls: a placeholder node, and an edge of type \<^verbatim>\<open>prov:mentionOf\<close>.
\<close>

definition is_placeholder :: "db_call \<Rightarrow> bool" where
  "is_placeholder c =
     (case c of SaveRecord b attrs md \<Rightarrow> attrs = [] \<and> prov_type md = PROV_UNKNOWN | _ \<Rightarrow> False)"

definition is_mention_edge :: "db_call \<Rightarrow> bool" where
  "is_mention_edge c =
     (case c of SaveRelation fb fq tb tq attrs md \<Rightarrow> prov_type md = PROV_MENTION | _ \<Rightarrow> False)"

text \<open>
  A call that saves the record \<open>r\<close> as a node of the container \<open>bundle_id\<close>.
\<close>

definition node_saved :: "pyval \<Rightarrow> prov_record \<Rightarrow> db_call \<times> pyval \<Rightarrow> bool" where
  "node_saved bundle_id r ci =
     (case get_metadata_and_attributes_for_record (Record r) of
        Inr (md, attrs) \<Rightarrow> fst ci = SaveRecord bundle_id attrs md
      | Inl e \<Rightarrow> False)"

text \<open>
  A call of the loop over the relations of a container: an edge within the container that
  is no mention, or a placeholder for a missing endpoint of such an edge.
\<close>

definition plain_edge_part :: "pyval \<Rightarrow> db_call \<Rightarrow> bool" where
  "plain_edge_part bundle_id c =
     (case c of
        SaveRecord b attrs md \<Rightarrow> b = bundle_id \<and> is_placeholder c
      | SaveRelation fb fq tb tq attrs md \<Rightarrow>
          fb = bundle_id \<and> tb = bundle_id \<and> prov_type md \<noteq> PROV_MENTION
      | _ \<Rightarrow> False)"

text \<open>
  The identifier of the node that stands for a bundle, \<^verbatim>\<open>prov:bundle:<identifier>\<close>, the call
  that saves it, and the membership edge of an element of the bundle.
\<close>

definition bundle_node_identifier :: "prov_bundle \<Rightarrow> qualified_name" where
  "bundle_node_identifier b = prov_qn (''bundle:'' @ str_qname (bundle_identifier b))"

definition is_save_bundle :: "pyval \<Rightarrow> prov_bundle \<Rightarrow> db_call \<Rightarrow> bool" where
  "is_save_bundle doc_id b c =
     (case c of
        SaveBundle d attrs md \<Rightarrow>
          d = doc_id \<and> prov_type md = PROV_BUNDLE \<and> md_identifier md = bundle_node_identifier b
      | _ \<Rightarrow> False)"

definition membership_saved ::
  "pyval \<Rightarrow> pyval \<Rightarrow> prov_bundle \<Rightarrow> prov_record \<Rightarrow> db_call \<times> pyval \<Rightarrow> bool" where
  "membership_saved doc_id bundle_id b r ci =
     (case get_metadata_and_attributes_for_record (Record r) of
        Inr (md, attrs) \<Rightarrow>
          fst ci = SaveRelation bundle_id (Some (md_identifier md)) doc_id
                     (Some (bundle_node_identifier b)) membership_attributes membership_metadata
      | Inl e \<Rightarrow> False)"

text \<open>
  The calls of the first pass for one bundle: \<^verbatim>\<open>save_bundle\<close>, the element nodes, the edges
  that are no mentions, the membership edges.
\<close>

definition bundle_segment :: "pyval \<Rightarrow> prov_bundle \<Rightarrow> (db_call \<times> pyval) list \<Rightarrow> bool" where
  "bundle_segment doc_id b seg =
     (\<exists>sb nodes edges ms.
        seg = sb # nodes @ edges @ ms \<and>
        is_save_bundle doc_id b (fst sb) \<and>
        list_all2 (node_saved (snd sb)) (get_records ProvElement (bundle_records b)) nodes \<and>
        (\<forall>ci \<in> set edges. plain_edge_part (snd sb) (fst ci)) \<and>
        list_all2 (membership_saved doc_id (snd sb) b)
          (get_records ProvElement (bundle_records b)) ms)"

text \<open>
  The id \<open>v\<close> was returned by a \<^verbatim>\<open>save_bundle\<close> call among \<open>cs\<close>.
\<close>

definition issued :: "pyval \<Rightarrow> (db_call \<times> pyval) list \<Rightarrow> pyval \<Rightarrow> bool" where
  "issued doc_id cs v =
     (\<exists>ci \<in> set cs. snd ci = v \<and>
        (case fst ci of SaveBundle d attrs md \<Rightarrow> d = doc_id | _ \<Rightarrow> False))"

text \<open>
  A call of the second pass: a mention edge between two containers of the map, or a
  placeholder in one of them.
\<close>

definition link_part :: "(pyval \<times> pyval) list \<Rightarrow> db_call \<Rightarrow> bool" where
  "link_part bundle_id_map c =
     (case c of
        SaveRecord b attrs md \<Rightarrow> b \<in> snd ` set bundle_id_map \<and> is_placeholder c
      | SaveRelation fb fq tb tq attrs md \<Rightarrow>
          fb \<in> snd ` set bundle_id_map \<and> tb \<in> snd ` set bundle_id_map \<and>
          prov_type md = PROV_MENTION
      | _ \<Rightarrow> False)"

text \<open>
  The mentions of a bundle, and a call among \<open>cs\<close> that saves the mention \<open>m\<close> as an edge
  from the container \<open>from_id\<close> to the container \<open>to_id\<close>: with the attributes and the
  metadata extracted from \<open>m\<close>, between the endpoints that \<open>m\<close> names.
\<close>

definition mentions_of :: "prov_bundle \<Rightarrow> prov_record list" where
  "mentions_of b =
     filter (\<lambda>m. get_type m = Some PROV_MENTION) (get_records ProvRelation (bundle_records b))"

definition mention_saved ::
  "pyval \<Rightarrow> pyval \<Rightarrow> prov_record \<Rightarrow> (db_call \<times> pyval) list \<Rightarrow> bool" where
  "mention_saved from_id to_id m cs =
     (\<exists>ci \<in> set cs.
        (case fst ci of
           SaveRelation fb fq tb tq attrs md \<Rightarrow>
             fb = from_id \<and> tb = to_id \<and> prov_type md = PROV_MENTION \<and>
             get_metadata_and_attributes_for_record (Record m) = Inr (md, attrs) \<and>
             (formal_from m = None \<or> fq = formal_from m) \<and>
             (formal_to m = None \<or> tq = formal_to m)
         | _ \<Rightarrow> False))"

text \<open>
  The calls of \<^verbatim>\<open>_create_relation\<close> for the mention \<open>m\<close>, from the container \<open>from_id\<close> to
  the container \<open>to_id\<close>: a placeholder in the one container for an absent "from"
  endpoint, a placeholder in the other for an absent "to" endpoint, then the edge with
  what was extracted from \<open>m\<close>. The calls of \<^verbatim>\<open>_create_bundle_links\<close> for a bundle are those
  of its mentions, one after the other, each to the container that \<open>container\<close> gives for
  the bundle that the mention names.
\<close>

definition mention_part ::
  "pyval \<Rightarrow> pyval \<Rightarrow> prov_record \<Rightarrow> (db_call \<times> pyval) list \<Rightarrow> bool" where
  "mention_part from_id to_id m part =
     (\<exists>pf pt fq tq attrs md i.
        part = pf @ pt @ [(SaveRelation from_id fq to_id tq attrs md, i)] \<and>
        get_metadata_and_attributes_for_record (Record m) = Inr (md, attrs) \<and>
        (case formal_from m of
           Some q \<Rightarrow> pf = [] \<and> fq = Some q
         | None \<Rightarrow>
             (\<exists>uid j. pf = [(SaveRecord from_id [] (unknown_metadata uid), j)] \<and>
                     fq = Some (prov_qn (''Unknown-'' @ uid)))) \<and>
        (case formal_to m of
           Some q \<Rightarrow> pt = [] \<and> tq = Some q
         | None \<Rightarrow>
             (\<exists>uid k. pt = [(SaveRecord to_id [] (unknown_metadata uid), k)] \<and>
                     tq = Some (prov_qn (''Unknown-'' @ uid)))))"

definition bundle_links ::
  "(pyval \<Rightarrow> pyval option) \<Rightarrow> prov_bundle \<Rightarrow> (db_call \<times> pyval) list list \<Rightarrow> bool" where
  "bundle_links container b parts =
     (\<exists>from_id.
        container (VQName (bundle_identifier b)) = Some from_id \<and>
        list_all2
          (\<lambda>m part. \<exists>to_id. container (py_of_qname (formal_third m)) = Some to_id \<and>
                     mention_part from_id to_id m part)
          (mentions_of b) parts)"

text \<open>
  The id of the container of the bundle named \<open>k\<close>: what \<^verbatim>\<open>save_bundle\<close> returned in the
  first call of the bundle's segment. Of several bundles with that identifier it is the
  last one, as each \<^verbatim>\<open>bundle_id_map.update\<close> overwrites the entry.
\<close>

fun container_id ::
  "pyval \<Rightarrow> prov_bundle list \<Rightarrow> (db_call \<times> pyval) list list \<Rightarrow> pyval option" where
  "container_id k [] segs = None"
| "container_id k (b # bs) segs =
     (case container_id k bs (tl segs) of
        Some v \<Rightarrow> Some v
      | None \<Rightarrow>
          if py_eq (VQName (bundle_identifier b)) k then Some (snd (hd (hd segs))) else None)"

text \<open>
  A document in which a mention of a bundle names a bundle that is not in the document.
\<close>

definition dangling_mention :: "prov_document \<Rightarrow> bool" where
  "dangling_mention d =
     (\<exists>b \<in> set (bundles d). \<exists>m \<in> set (mentions_of b).
        \<forall>b' \<in> set (bundles d).
          \<not> py_eq (VQName (bundle_identifier b')) (py_of_qname (formal_third m)))"

section \<open>Example inputs\<close>

text \<open>
  The namespace \<^verbatim>\<open>ex\<close> of the examples and its qualified names.
\<close>

definition EXAMPLE_NS :: namespace where
  "EXAMPLE_NS = \<lparr>ns_prefix = ''ex'', ns_uri = ''http://example.org/''\<rparr>"

definition ex_qn :: "string \<Rightarrow> qualified_name" where
  "ex_qn l = \<lparr>qn_namespace = EXAMPLE_NS, localpart = l\<rparr>"

text \<open>An entity whose identifier is a string that no namespace of its bundle resolves.\<close>

definition unresolvable_record :: prov_record where
  "unresolvable_record =
     \<lparr>rec_bundle = [EXAMPLE_NS], record_class = ProvElement, get_type = Some (prov_qn ''Entity''),
      rec_identifier = VStr ''not:a:resolvable:value'', rec_attributes = [],
      formal_from = None, formal_to = None, formal_third = None\<rparr>"

text \<open>An entity with an attribute whose value is a string of the form \<^verbatim>\<open>prefix:local\<close>.\<close>

definition string_valued_record :: prov_record where
  "string_valued_record =
     \<lparr>rec_bundle = [EXAMPLE_NS], record_class = ProvElement, get_type = Some (prov_qn ''Entity''),
      rec_identifier = VQName (ex_qn ''e1''),
      rec_attributes = [(VQName (ex_qn ''note''), VStr ''ex:thing'')],
      formal_from = None, formal_to = None, formal_third = None\<rparr>"

text \<open>A relation without identifier: \<^verbatim>\<open>wasGeneratedBy(ex:e1, ex:a1)\<close>.\<close>

definition anonymous_generation :: prov_record where
  "anonymous_generation =
     \<lparr>rec_bundle = [EXAMPLE_NS], record_class = ProvRelation,
      get_type = Some (prov_qn ''Generation''), rec_identifier = VNone,
      rec_attributes = [(VQName (prov_qn ''entity''), VQName (ex_qn ''e1'')),
                        (VQName (prov_qn ''activity''), VQName (ex_qn ''a1''))],
      formal_from = Some (ex_qn ''e1''), formal_to = Some (ex_qn ''a1''), formal_third = None\<rparr>"

text \<open>A bundle under reconstruction that has no records yet.\<close>

definition empty_bundle :: restored_bundle where
  "empty_bundle = \<lparr>restored_name = None, restored_namespaces = [], restored_records = []\<rparr>"

text \<open>
  An adapter that never fails: its state counts the calls, and the id it returns is made
  from that count. It returns the raw document \<open>raw\<close> for every id.
\<close>

definition fresh_id :: "nat \<Rightarrow> pyval" where
  "fresh_id n = VStr (''id'' @ replicate n (CHR ''+''))"

definition counting_adapter :: "raw_document \<Rightarrow> nat adapter" where
  "counting_adapter raw =
     \<lparr>save_document = (\<lambda>n. Inr (fresh_id n, Suc n)),
      save_bundle = (\<lambda>document_id attrs md n. Inr (fresh_id n, Suc n)),
      save_record = (\<lambda>bundle_id attrs md n. Inr (fresh_id n, Suc n)),
      save_relation = (\<lambda>from_bundle_id from_qn to_bundle_id to_qn attrs md n. Inr (fresh_id n, Suc n)),
      get_document = (\<lambda>i n. Inr raw)\<rparr>"

text \<open>A raw document without records, and the state before any call.\<close>

definition no_document :: raw_document where
  "no_document = \<lparr>document_records = [], raw_bundles = []\<rparr>"

definition initial_state :: "nat api_state" where
  "initial_state =
     \<lparr>db = 0, calls = [], uuid_source = (\<lambda>n. replicate (Suc n) (CHR ''u'')), uuid_count = 0\<rparr>"

text \<open>A usage without its entity, and an influence with neither endpoint.\<close>

definition open_usage :: prov_record where
  "open_usage =
     \<lparr>rec_bundle = [EXAMPLE_NS], record_class = ProvRelation,
      get_type = Some (prov_qn ''Usage''), rec_identifier = VNone,
      rec_attributes = [(VQName (prov_qn ''activity''), VQName (ex_qn ''a1''))],
      formal_from = Some (ex_qn ''a1''), formal_to = None, formal_third = None\<rparr>"

definition open_influence :: prov_record where
  "open_influence =
     \<lparr>rec_bundle = [EXAMPLE_NS], record_class = ProvRelation,
      get_type = Some (prov_qn ''Influence''), rec_identifier = VNone,
      rec_attributes = [],
      formal_from = None, formal_to = None, formal_third = None\<rparr>"

text \<open>
  An entity with the attribute \<^verbatim>\<open>ex:note\<close> of value \<^verbatim>\<open>belongsToBundle\<close>, and its metadata.
\<close>

definition noted_entity :: prov_record where
  "noted_entity =
     \<lparr>rec_bundle = [EXAMPLE_NS], record_class = ProvElement, get_type = Some (prov_qn ''Entity''),
      rec_identifier = VQName (ex_qn ''e1''),
      rec_attributes = [(VQName (ex_qn ''note''), VStr ''belongsToBundle'')],
      formal_from = None, formal_to = None, formal_third = None\<rparr>"

definition noted_entity_metadata :: metadata where
  "noted_entity_metadata =
     \<lparr>prov_type = prov_qn ''Entity'', md_identifier = ex_qn ''e1'',
      namespaces = [(''prov'', ''http://www.w3.org/ns/prov#''), (''ex'', ''http://example.org/'')],
      type_map = []\<rparr>"

text \<open>What is stored for the document that consists of the entity with the note.\<close>

definition stored_noted_document :: raw_document where
  "stored_noted_document =
     \<lparr>document_records =
        [stored_record [(VQName (ex_qn ''note''), VStr ''belongsToBundle'')] noted_entity_metadata],
      raw_bundles = []\<rparr>"

text \<open>
  A second prefix for the namespace of PROV, an entity whose attribute is the label of
  that namespace, written with this prefix, with the value \<^verbatim>\<open>belongsToBundle\<close>, and what is
  stored for the document that consists of this entity.
\<close>

definition ALIAS_NS :: namespace where
  "ALIAS_NS = \<lparr>ns_prefix = ''p'', ns_uri = ''http://www.w3.org/ns/prov#''\<rparr>"

definition aliased_label_entity :: prov_record where
  "aliased_label_entity =
     \<lparr>rec_bundle = [EXAMPLE_NS, ALIAS_NS], record_class = ProvElement,
      get_type = Some (prov_qn ''Entity''), rec_identifier = VQName (ex_qn ''e1''),
      rec_attributes =
        [(VQName \<lparr>qn_namespace = ALIAS_NS, localpart = ''label''\<rparr>, VStr ''belongsToBundle'')],
      formal_from = None, formal_to = None, formal_third = None\<rparr>"

definition aliased_label_metadata :: metadata where
  "aliased_label_metadata =
     \<lparr>prov_type = prov_qn ''Entity'', md_identifier = ex_qn ''e1'',
      namespaces = [(''prov'', ''http://www.w3.org/ns/prov#''), (''ex'', ''http://example.org/''),
                    (''p'', ''http://www.w3.org/ns/prov#'')],
      type_map = []\<rparr>"

definition stored_aliased_document :: raw_document where
  "stored_aliased_document =
     \<lparr>document_records =
        [stored_record
           [(VQName \<lparr>qn_namespace = ALIAS_NS, localpart = ''label''\<rparr>, VStr ''belongsToBundle'')]
           aliased_label_metadata],
      raw_bundles = []\<rparr>"

text \<open>
  The entities \<^verbatim>\<open>ex:e1\<close> and \<^verbatim>\<open>ex:e2\<close>, the metadata of an entity of that namespace, and the
  bundle \<^verbatim>\<open>ex:b1\<close> with \<^verbatim>\<open>ex:e1\<close> alone.
\<close>

definition entity1 :: prov_record where
  "entity1 =
     \<lparr>rec_bundle = [EXAMPLE_NS], record_class = ProvElement, get_type = Some (prov_qn ''Entity''),
      rec_identifier = VQName (ex_qn ''e1''), rec_attributes = [],
      formal_from = None, formal_to = None, formal_third = None\<rparr>"

definition entity_metadata :: "string \<Rightarrow> metadata" where
  "entity_metadata l =
     \<lparr>prov_type = prov_qn ''Entity'', md_identifier = ex_qn l,
      namespaces = [(''prov'', ''http://www.w3.org/ns/prov#''), (''ex'', ''http://example.org/'')],
      type_map = []\<rparr>"

definition bundle_of_entity1 :: prov_bundle where
  "bundle_of_entity1 =
     \<lparr>bundle_identifier = ex_qn ''b1'', bundle_namespaces = [EXAMPLE_NS],
      bundle_records = [entity1]\<rparr>"

definition entity2 :: prov_record where
  "entity2 =
     \<lparr>rec_bundle = [EXAMPLE_NS], record_class = ProvElement, get_type = Some (prov_qn ''Entity''),
      rec_identifier = VQName (ex_qn ''e2''), rec_attributes = [],
      formal_from = None, formal_to = None, formal_third = None\<rparr>"

text \<open>
  The relation \<^verbatim>\<open>mentionOf(ex:e1, ex:e2, ex:l)\<close> and its metadata.
\<close>

definition mention_of :: "string \<Rightarrow> prov_record" where
  "mention_of l =
     \<lparr>rec_bundle = [EXAMPLE_NS], record_class = ProvRelation, get_type = Some PROV_MENTION,
      rec_identifier = VNone,
      rec_attributes = [(VQName (prov_qn ''specificEntity''), VQName (ex_qn ''e1'')),
                        (VQName (prov_qn ''generalEntity''), VQName (ex_qn ''e2'')),
                        (VQName (prov_qn ''bundle''), VQName (ex_qn l))],
      formal_from = Some (ex_qn ''e1''), formal_to = Some (ex_qn ''e2''),
      formal_third = Some (ex_qn l)\<rparr>"

definition mention_metadata :: metadata where
  "mention_metadata =
     \<lparr>prov_type = PROV_MENTION, md_identifier = PROV_MENTION,
      namespaces = [(''prov'', ''http://www.w3.org/ns/prov#''), (''ex'', ''http://example.org/'')],
      type_map = []\<rparr>"

text \<open>
  The metadata of the node that stands for the bundle \<^verbatim>\<open>ex:l\<close>.
\<close>

definition bundle_metadata :: "string \<Rightarrow> metadata" where
  "bundle_metadata l =
     \<lparr>prov_type = PROV_BUNDLE, md_identifier = prov_qn (''bundle:ex:'' @ l),
      namespaces = [(''prov'', ''http://www.w3.org/ns/prov#''), (''ex'', ''http://example.org/'')],
      type_map = [(''prov:bundle_name'', ''prov:QUALIFIED_NAME'')]\<rparr>"

text \<open>
  The bundle \<^verbatim>\<open>ex:b1\<close> with the entity \<^verbatim>\<open>ex:e1\<close> and a mention that names the bundle \<^verbatim>\<open>ex:b2\<close>, and
  the bundle \<^verbatim>\<open>ex:b2\<close> with the entity \<^verbatim>\<open>ex:e2\<close>.
\<close>

definition bundle_with_mention :: prov_bundle where
  "bundle_with_mention =
     \<lparr>bundle_identifier = ex_qn ''b1'', bundle_namespaces = [EXAMPLE_NS],
      bundle_records = [entity1, mention_of ''b2'']\<rparr>"

definition bundle_of_entity2 :: prov_bundle where
  "bundle_of_entity2 =
     \<lparr>bundle_identifier = ex_qn ''b2'', bundle_namespaces = [EXAMPLE_NS],
      bundle_records = [entity2]\<rparr>"

text \<open>
  Three documents: the two bundles with the mention in the first; the mention at the top
  level, beside the two bundles; the first bundle with its mention alone, so that the
  bundle it names is missing.
\<close>

definition linked_document :: prov_document where
  "linked_document = \<lparr>records = [], bundles = [bundle_with_mention, bundle_of_entity2]\<rparr>"

definition top_mention_document :: prov_document where
  "top_mention_document =
     \<lparr>records = [mention_of ''b1''], bundles = [bundle_of_entity1, bundle_of_entity2]\<rparr>"

definition dangling_document :: prov_document where
  "dangling_document = \<lparr>records = [], bundles = [bundle_with_mention]\<rparr>"

text \<open>A parser that accepts no text.\<close>

definition no_parser :: "string \<Rightarrow> prov_document option" where
  "no_parser s = None"

text \<open>
  The calls that the counting adapter receives for a bundle \<^verbatim>\<open>ex:l\<close> with the single entity
  \<^verbatim>\<open>ex:le\<close>, when the bundle is saved as the \<open>n\<close>-th call, and the calls for two of the documents.
\<close>

definition segment_calls :: "pyval \<Rightarrow> nat \<Rightarrow> string \<Rightarrow> string \<Rightarrow> (db_call \<times> pyval) list" where
  "segment_calls doc_id n l le =
     [(SaveBundle doc_id [(VQName (prov_qn ''bundle_name''), VQName (ex_qn l))]
         (bundle_metadata l), fresh_id n),
      (SaveRecord (fresh_id n) [] (entity_metadata le), fresh_id (n + 1)),
      (SaveRelation (fresh_id n) (Some (ex_qn le)) doc_id
         (Some (prov_qn (''bundle:ex:'' @ l))) membership_attributes membership_metadata,
       fresh_id (n + 2))]"

definition linked_document_calls :: "(db_call \<times> pyval) list" where
  "linked_document_calls =
     (SaveDocument, fresh_id 0) #
     segment_calls (fresh_id 0) 1 ''b1'' ''e1'' @
     segment_calls (fresh_id 0) 4 ''b2'' ''e2'' @
     [(SaveRelation (fresh_id 1) (Some (ex_qn ''e1'')) (fresh_id 4) (Some (ex_qn ''e2''))
         (rec_attributes (mention_of ''b2'')) mention_metadata, fresh_id 7)]"

definition top_mention_document_calls :: "(db_call \<times> pyval) list" where
  "top_mention_document_calls =
     (SaveDocument, fresh_id 0) #
     segment_calls (fresh_id 0) 1 ''b1'' ''e1'' @
     segment_calls (fresh_id 0) 4 ''b2'' ''e2''"

text \<open>
  An entity with two values for the attribute \<^verbatim>\<open>ex:note\<close>, the entity with the second value
  alone, and the documents that consist of each.
\<close>

definition twice_noted_entity :: prov_record where
  "twice_noted_entity =
     \<lparr>rec_bundle = [EXAMPLE_NS], record_class = ProvElement, get_type = Some (prov_qn ''Entity''),
      rec_identifier = VQName (ex_qn ''e1''),
      rec_attributes = [(VQName (ex_qn ''note''), VStr ''first''),
                        (VQName (ex_qn ''note''), VStr ''second'')],
      formal_from = None, formal_to = None, formal_third = None\<rparr>"

definition once_noted_entity :: prov_record where
  "once_noted_entity =
     \<lparr>rec_bundle = [EXAMPLE_NS], record_class = ProvElement, get_type = Some (prov_qn ''Entity''),
      rec_identifier = VQName (ex_qn ''e1''),
      rec_attributes = [(VQName (ex_qn ''note''), VStr ''second'')],
      formal_from = None, formal_to = None, formal_third = None\<rparr>"

definition twice_noted_document :: prov_document where
  "twice_noted_document = \<lparr>records = [twice_noted_entity], bundles = []\<rparr>"

definition once_noted_document :: prov_document where
  "once_noted_document = \<lparr>records = [once_noted_entity], bundles = []\<rparr>"

text \<open>
  A second namespace, and an entity of a bundle with both namespaces that has the
  attribute \<^verbatim>\<open>ex:note\<close> twice, each time with a string that resolves to a qualified name.
\<close>

definition FOO_NS :: namespace where
  "FOO_NS = \<lparr>ns_prefix = ''foo'', ns_uri = ''http://foo.example/''\<rparr>"

definition relinked_entity :: prov_record where
  "relinked_entity =
     \<lparr>rec_bundle = [EXAMPLE_NS, FOO_NS], record_class = ProvElement,
      get_type = Some (prov_qn ''Entity''), rec_identifier = VQName (ex_qn ''e1''),
      rec_attributes = [(VQName (ex_qn ''note''), VStr ''foo:a''),
                        (VQName (ex_qn ''note''), VStr ''ex:b'')],
      formal_from = None, formal_to = None, formal_third = None\<rparr>"

section \<open>Properties of the resolver and of the metadata extractor\<close>

lemma vqn_prov_unknown:
  "valid_qualified_name b (VStr ''prov:Unknown'') = Some PROV_UNKNOWN"
  by (simp add: valid_qualified_name_def DEFAULT_NAMESPACES_def PROV_def PROV_UNKNOWN_def prov_qn_def)

lemma vqn_qname: "valid_qualified_name b (VQName q) = Some q"
  by (simp add: valid_qualified_name_def)

lemma vqn_none: "valid_qualified_name b VNone = None"
  by (simp add: valid_qualified_name_def)

lemma collect_namespaces_error:
  "collect_namespaces b items used = Inl e \<Longrightarrow> e = InvalidProvRecordException"
  by (induction b items used rule: collect_namespaces.induct)
     (auto simp: Let_def split: pyval.splits option.splits)

lemma collect_namespaces_fails_iff:
  "(\<exists>e. collect_namespaces b items used = Inl e) \<longleftrightarrow> (\<exists>k \<in> fst ` set items. \<not> is_qname k)"
  by (induction b items used rule: collect_namespaces.induct)
     (auto simp: Let_def is_qname_def split: pyval.splits option.splits)

lemma py_eq_is_qname: "py_eq k' k \<Longrightarrow> is_qname k' = is_qname k"
  by (cases k'; cases k) (auto simp: is_qname_def)

lemma dict_set_keys_non_qname:
  "(\<exists>k' \<in> fst ` set (dict_set k v d). \<not> is_qname k') \<longleftrightarrow>
   (\<not> is_qname k \<or> (\<exists>k' \<in> fst ` set d. \<not> is_qname k'))"
proof (induction d)
  case Nil
  then show ?case by simp
next
  case (Cons a d)
  obtain k0 v0 where a: "a = (k0, v0)" by (cases a)
  show ?case
  proof (cases "py_eq k0 k")
    case True
    with py_eq_is_qname[OF True] a show ?thesis by auto
  next
    case False
    with a Cons show ?thesis by auto
  qed
qed

lemma foldl_dict_set_keys_non_qname:
  "(\<exists>k' \<in> fst ` set (foldl (\<lambda>d (k, v). dict_set k v d) d0 items). \<not> is_qname k') \<longleftrightarrow>
   ((\<exists>k' \<in> fst ` set d0. \<not> is_qname k') \<or> (\<exists>k' \<in> fst ` set items. \<not> is_qname k'))"
proof (induction items arbitrary: d0)
  case Nil
  then show ?case by simp
next
  case (Cons a items)
  obtain k v where a: "a = (k, v)" by (cases a)
  show ?case
    unfolding a using Cons[of "dict_set k v d0"] dict_set_keys_non_qname[of k v d0]
    by auto
qed

lemma py_dict_keys_non_qname:
  "(\<exists>k' \<in> fst ` set (py_dict items). \<not> is_qname k') \<longleftrightarrow> (\<exists>k' \<in> fst ` set items. \<not> is_qname k')"
  unfolding py_dict_def using foldl_dict_set_keys_non_qname[of "[]" items] by simp

lemma extract_record:
  "get_metadata_and_attributes_for_record (Record r) =
     (case valid_qualified_name (rec_bundle r) (declared_identifier r) of
        None \<Rightarrow> Inl InvalidProvRecordException
      | Some ident \<Rightarrow>
          (case collect_namespaces (rec_bundle r) (py_dict (rec_attributes r))
                  (add_namespace (qn_namespace ident) (add_namespace (qn_namespace (record_type r)) [])) of
             Inl e \<Rightarrow> Inl e
           | Inr used \<Rightarrow>
               Inr (\<lparr>prov_type = record_type r, md_identifier = ident, namespaces = used,
                     type_map = create_type_dict (py_dict (rec_attributes r))\<rparr>,
                    py_dict (rec_attributes r))))"
proof -
  have t: "(case get_type r of
              None \<Rightarrow> valid_qualified_name (rec_bundle r) (VStr ''prov:Unknown'')
            | Some t \<Rightarrow> Some t) = Some (record_type r)"
    by (simp add: record_type_def vqn_prov_unknown split: option.splits)
  show ?thesis
    unfolding get_metadata_and_attributes_for_record_def declared_identifier_def
    by (simp add: t Let_def vqn_qname split: option.splits)
qed

lemma extract_invalid_record_iff:
  "get_metadata_and_attributes_for_record (Record r) = Inl InvalidProvRecordException \<longleftrightarrow>
     (rec_identifier r \<noteq> VNone \<and> valid_qualified_name (rec_bundle r) (rec_identifier r) = None)
     \<or> (\<exists>k \<in> fst ` set (rec_attributes r). \<not> is_qname k)"
proof (cases "valid_qualified_name (rec_bundle r) (declared_identifier r)")
  case None
  then have "rec_identifier r \<noteq> VNone \<and> valid_qualified_name (rec_bundle r) (rec_identifier r) = None"
    by (auto simp: declared_identifier_def vqn_qname split: if_splits)
  with None show ?thesis by (simp add: extract_record)
next
  case (Some ident)
  then have ok: "\<not> (rec_identifier r \<noteq> VNone \<and> valid_qualified_name (rec_bundle r) (rec_identifier r) = None)"
    by (auto simp: declared_identifier_def split: if_splits)
  let ?c = "collect_namespaces (rec_bundle r) (py_dict (rec_attributes r))
              (add_namespace (qn_namespace ident) (add_namespace (qn_namespace (record_type r)) []))"
  have "get_metadata_and_attributes_for_record (Record r) = Inl InvalidProvRecordException
          \<longleftrightarrow> (\<exists>e. ?c = Inl e)"
    using Some collect_namespaces_error[of "rec_bundle r" "py_dict (rec_attributes r)"]
    by (auto simp: extract_record split: sum.splits)
  also have "\<dots> \<longleftrightarrow> (\<exists>k \<in> fst ` set (rec_attributes r). \<not> is_qname k)"
    by (simp only: collect_namespaces_fails_iff py_dict_keys_non_qname)
  finally show ?thesis using ok by blast
qed

lemma extract_not_invalid_argument:
  "get_metadata_and_attributes_for_record (Record r) \<noteq> Inl InvalidArgumentTypeException"
  using collect_namespaces_error[of "rec_bundle r" "py_dict (rec_attributes r)"]
  by (auto simp: extract_record split: option.splits sum.splits)

lemma vqn_not_resolvable:
  assumes "\<forall>n \<in> set nss. ns_prefix n \<noteq> ''not'' \<and> \<not> starts_with ''not:a:resolvable:value'' (ns_uri n)"
  shows "valid_qualified_name nss (VStr ''not:a:resolvable:value'') = None"
proof -
  have sp: "split_colon ''not:a:resolvable:value'' = Some (''not'', ''a:resolvable:value'')"
    by simp
  have f1: "find (\<lambda>n. ns_prefix n = ''not'') (DEFAULT_NAMESPACES @ nss) = None"
    using assms by (auto simp: find_None_iff DEFAULT_NAMESPACES_def PROV_def XSD_def XSI_def)
  have f2: "find (\<lambda>n. starts_with ''not:a:resolvable:value'' (ns_uri n)) (DEFAULT_NAMESPACES @ nss) = None"
    using assms by (auto simp: find_None_iff DEFAULT_NAMESPACES_def PROV_def XSD_def XSI_def starts_with_def)
  show ?thesis
    unfolding valid_qualified_name_def using sp f1 f2 by simp
qed

text \<open>
  C6. Metadata extraction fails with \<^verbatim>\<open>InvalidArgumentType\<close> exactly when its input is not a
  record. It fails with \<^verbatim>\<open>InvalidProvRecord\<close> exactly when the input is a record whose
  declared identifier is present and cannot be resolved to a qualified name, or one of
  whose attribute keys is not a qualified name. In particular a record with the
  identifier \<^verbatim>\<open>not:a:resolvable:value\<close>, in a bundle none of whose namespaces has the prefix
  \<^verbatim>\<open>not\<close> or a URI that the string starts with, fails with \<^verbatim>\<open>InvalidProvRecord\<close>.
\<close>

theorem extraction_error_cases:
  "(get_metadata_and_attributes_for_record obj = Inl InvalidArgumentTypeException
      \<longleftrightarrow> obj = NotARecord) \<and>
   (get_metadata_and_attributes_for_record obj = Inl InvalidProvRecordException
      \<longleftrightarrow> (\<exists>r. obj = Record r \<and>
             ((rec_identifier r \<noteq> VNone \<and>
               valid_qualified_name (rec_bundle r) (rec_identifier r) = None)
              \<or> (\<exists>k \<in> fst ` set (rec_attributes r). \<not> is_qname k)))) \<and>
   (\<forall>r. obj = Record r \<and> rec_identifier r = VStr ''not:a:resolvable:value'' \<and>
        (\<forall>n \<in> set (rec_bundle r). ns_prefix n \<noteq> ''not'' \<and>
            \<not> starts_with ''not:a:resolvable:value'' (ns_uri n))
        \<longrightarrow> get_metadata_and_attributes_for_record obj = Inl InvalidProvRecordException)"
proof (cases obj)
  case NotARecord
  then show ?thesis by (simp add: get_metadata_and_attributes_for_record_def)
next
  case (Record r)
  have a: "get_metadata_and_attributes_for_record obj \<noteq> Inl InvalidArgumentTypeException"
    using Record extract_not_invalid_argument by simp
  have b: "get_metadata_and_attributes_for_record obj = Inl InvalidProvRecordException \<longleftrightarrow>
     (rec_identifier r \<noteq> VNone \<and> valid_qualified_name (rec_bundle r) (rec_identifier r) = None)
     \<or> (\<exists>k \<in> fst ` set (rec_attributes r). \<not> is_qname k)"
    using Record extract_invalid_record_iff by simp
  have c: "rec_identifier r = VStr ''not:a:resolvable:value'' \<and>
        (\<forall>n \<in> set (rec_bundle r). ns_prefix n \<noteq> ''not'' \<and>
            \<not> starts_with ''not:a:resolvable:value'' (ns_uri n))
        \<longrightarrow> get_metadata_and_attributes_for_record obj = Inl InvalidProvRecordException"
    using b vqn_not_resolvable[of "rec_bundle r"] by auto
  from a b c Record show ?thesis by auto
qed

theorem extraction_error_cases_witness:
  "get_metadata_and_attributes_for_record (Record unresolvable_record)
     = Inl InvalidProvRecordException \<and>
   get_metadata_and_attributes_for_record NotARecord = Inl InvalidArgumentTypeException"
  using extraction_error_cases[of "Record unresolvable_record"]
    extraction_error_cases[of NotARecord]
  by (simp add: unresolvable_record_def EXAMPLE_NS_def starts_with_def)

lemma collect_namespaces_fold:
  "collect_namespaces b attrs used = Inr used' \<Longrightarrow>
   used' = foldl (\<lambda>u n. add_namespace n u) used (referenced_namespaces b attrs)"
proof (induction b attrs used rule: collect_namespaces.induct)
  case (1 b used)
  then show ?case by (simp add: referenced_namespaces_def)
next
  case (2 b key val items used)
  then obtain k where k: "key = VQName k" by (cases key) auto
  show ?case
  proof (cases "valid_qualified_name b val")
    case None
    then have nq: "\<And>q. val \<noteq> VQName q" by (auto simp: vqn_qname)
    from 2 k None nq show ?thesis
      by (cases val) (auto simp: referenced_namespaces_def Let_def)
  next
    case (Some q)
    from 2 k Some show ?thesis
      by (cases val) (auto simp: referenced_namespaces_def Let_def vqn_qname)
  qed
qed

lemma map_of_add_namespace:
  "map_of (add_namespace n used) p = (if p = ns_prefix n then Some (ns_uri n) else map_of used p)"
  by (simp add: add_namespace_def update_conv')

lemma foldl_add_namespace_snoc:
  "foldl (\<lambda>u n. add_namespace n u) used (nss @ [m]) =
   add_namespace m (foldl (\<lambda>u n. add_namespace n u) used nss)"
  by simp

lemma map_of_fold_add_namespace:
  fixes n :: namespace
  assumes "n \<in> set nss"
    and "\<forall>m \<in> set nss. ns_prefix m = ns_prefix n \<longrightarrow> ns_uri m = ns_uri n"
  shows "map_of (foldl (\<lambda>u n. add_namespace n u) used nss) (ns_prefix n) = Some (ns_uri n)"
  using assms
proof (induction nss rule: rev_induct)
  case Nil
  then show ?case by simp
next
  case (snoc m nss)
  show ?case
  proof (cases "ns_prefix m = ns_prefix n")
    case True
    then have "ns_uri m = ns_uri n" using snoc.prems(2) by simp
    with True show ?thesis
      unfolding foldl_add_namespace_snoc map_of_add_namespace by simp
  next
    case False
    with snoc.prems(1) have "n \<in> set nss" by auto
    moreover have "\<forall>m \<in> set nss. ns_prefix m = ns_prefix n \<longrightarrow> ns_uri m = ns_uri n"
      using snoc.prems(2) by simp
    ultimately have "map_of (foldl (\<lambda>u n. add_namespace n u) used nss) (ns_prefix n) = Some (ns_uri n)"
      by (rule snoc.IH)
    with False show ?thesis
      unfolding foldl_add_namespace_snoc map_of_add_namespace by simp
  qed
qed

lemma referenced_namespaces_value:
  "(k, v) \<in> set attrs \<Longrightarrow> valid_qualified_name b v = Some q \<Longrightarrow>
   qn_namespace q \<in> set (referenced_namespaces b attrs)"
proof (induction attrs)
  case Nil
  then show ?case by simp
next
  case (Cons a attrs)
  obtain k0 v0 where a: "a = (k0, v0)" by (cases a)
  have unf: "referenced_namespaces b (a # attrs) =
      ((case k0 of VQName q \<Rightarrow> [qn_namespace q] | _ \<Rightarrow> []) @
       (case valid_qualified_name b v0 of Some q \<Rightarrow> [qn_namespace q] | None \<Rightarrow> [])) @
      referenced_namespaces b attrs"
    by (simp add: referenced_namespaces_def a)
  show ?case
  proof (cases "(k, v) = a")
    case True
    then have "v0 = v" using a by simp
    with Cons.prems(2) show ?thesis unfolding unf by simp
  next
    case False
    with Cons.prems(1) have "(k, v) \<in> set attrs" by simp
    then have "qn_namespace q \<in> set (referenced_namespaces b attrs)"
      using Cons.prems(2) by (rule Cons.IH)
    then show ?thesis unfolding unf by simp
  qed
qed


lemma extract_Inr:
  assumes "get_metadata_and_attributes_for_record (Record r) = Inr (md, attrs)"
  obtains ident :: qualified_name and used where
    "valid_qualified_name (rec_bundle r) (declared_identifier r) = Some ident"
    "collect_namespaces (rec_bundle r) (py_dict (rec_attributes r))
       (add_namespace (qn_namespace ident) (add_namespace (qn_namespace (record_type r)) [])) = Inr used"
    "md = \<lparr>prov_type = record_type r, md_identifier = ident, namespaces = used,
            type_map = create_type_dict (py_dict (rec_attributes r))\<rparr>"
    "attrs = py_dict (rec_attributes r)"
proof (cases "valid_qualified_name (rec_bundle r) (declared_identifier r)")
  case None
  with assms show ?thesis by (simp add: extract_record)
next
  case (Some ident)
  show ?thesis
  proof (cases "collect_namespaces (rec_bundle r) (py_dict (rec_attributes r))
       (add_namespace (qn_namespace ident) (add_namespace (qn_namespace (record_type r)) []))")
    case (Inl e)
    with assms Some show ?thesis by (simp add: extract_record)
  next
    case (Inr used)
    with assms Some have
      "Inr (\<lparr>prov_type = record_type r, md_identifier = ident, namespaces = used,
            type_map = create_type_dict (py_dict (rec_attributes r))\<rparr>,
           py_dict (rec_attributes r)) = (Inr (md, attrs) :: error + (metadata \<times> (pyval \<times> pyval) list))"
      by (simp only: extract_record option.case sum.case)
    then have "md = \<lparr>prov_type = record_type r, md_identifier = ident, namespaces = used,
            type_map = create_type_dict (py_dict (rec_attributes r))\<rparr>"
      and "attrs = py_dict (rec_attributes r)"
      by (simp_all only: sum.inject prod.inject) blast+
    then show ?thesis using that[OF Some Inr] by blast
  qed
qed

text \<open>
  What the loop of lines 384-406 does for the entries of the dictionary that line 383
  builds from the record's attributes. For an entry whose value is a string that
  resolves to a qualified name, the stored attributes are that dictionary as it is, so
  the value stays the string, and the namespaces of the metadata map the prefix of that
  qualified name to its URI, when no other namespace that the entries refer to has the
  same prefix with another URI.
\<close>

lemma string_value_namespace_recorded_value_kept:
  assumes "get_metadata_and_attributes_for_record (Record r) = Inr (md, attrs)"
    and "(k, VStr s) \<in> set (py_dict (rec_attributes r))"
    and "valid_qualified_name (rec_bundle r) (VStr s) = Some q"
    and "\<forall>n \<in> set (referenced_namespaces (rec_bundle r) (py_dict (rec_attributes r))).
           ns_prefix n = ns_prefix (qn_namespace q) \<longrightarrow> ns_uri n = ns_uri (qn_namespace q)"
  shows "attrs = py_dict (rec_attributes r) \<and> (k, VStr s) \<in> set attrs \<and>
         map_of (namespaces md) (ns_prefix (qn_namespace q)) = Some (ns_uri (qn_namespace q))"
proof -
  from assms(1) obtain ident :: qualified_name and used where
    c: "collect_namespaces (rec_bundle r) (py_dict (rec_attributes r))
          (add_namespace (qn_namespace ident) (add_namespace (qn_namespace (record_type r)) [])) = Inr used"
    and md: "namespaces md = used" and at: "attrs = py_dict (rec_attributes r)"
    by (rule extract_Inr) simp
  have "qn_namespace q \<in> set (referenced_namespaces (rec_bundle r) (py_dict (rec_attributes r)))"
    using assms(2,3) by (rule referenced_namespaces_value)
  then have "map_of (foldl (\<lambda>u n. add_namespace n u)
                (add_namespace (qn_namespace ident) (add_namespace (qn_namespace (record_type r)) []))
                (referenced_namespaces (rec_bundle r) (py_dict (rec_attributes r))))
              (ns_prefix (qn_namespace q)) = Some (ns_uri (qn_namespace q))"
    using assms(4) by (rule map_of_fold_add_namespace)
  then have "map_of used (ns_prefix (qn_namespace q)) = Some (ns_uri (qn_namespace q))"
    using collect_namespaces_fold[OF c] by simp
  with md at assms(2) show ?thesis by simp
qed

lemma string_value_namespace_recorded_value_kept_example:
  "\<exists>md attrs.
     get_metadata_and_attributes_for_record (Record string_valued_record) = Inr (md, attrs) \<and>
     attrs = [(VQName (ex_qn ''note''), VStr ''ex:thing'')] \<and>
     map_of (namespaces md) ''ex'' = Some ''http://example.org/''"
proof -
  let ?b = "rec_bundle string_valued_record"
  have v: "valid_qualified_name ?b (VStr ''ex:thing'') = Some (ex_qn ''thing'')"
    by (simp add: string_valued_record_def valid_qualified_name_def DEFAULT_NAMESPACES_def
          PROV_def XSD_def XSI_def EXAMPLE_NS_def ex_qn_def)
  have d: "py_dict (rec_attributes string_valued_record)
             = [(VQName (ex_qn ''note''), VStr ''ex:thing'')]"
    by (simp add: string_valued_record_def py_dict_def)
  have n: "referenced_namespaces ?b [(VQName (ex_qn ''note''), VStr ''ex:thing'')]
             = [EXAMPLE_NS, EXAMPLE_NS]"
    by (simp add: referenced_namespaces_def v ex_qn_def)
  have i: "valid_qualified_name ?b (declared_identifier string_valued_record) = Some (ex_qn ''e1'')"
    by (simp add: declared_identifier_def string_valued_record_def vqn_qname)
  have m: "(VQName (ex_qn ''note''), VStr ''ex:thing'')
             \<in> set (py_dict (rec_attributes string_valued_record))"
    unfolding d by simp
  have c: "\<forall>n \<in> set (referenced_namespaces ?b (py_dict (rec_attributes string_valued_record))).
             ns_prefix n = ns_prefix (qn_namespace (ex_qn ''thing'')) \<longrightarrow>
             ns_uri n = ns_uri (qn_namespace (ex_qn ''thing''))"
    unfolding d n by (simp add: ex_qn_def)
  obtain md attrs where
    e: "get_metadata_and_attributes_for_record (Record string_valued_record) = Inr (md, attrs)"
    unfolding extract_record i d by (simp add: Let_def v)
  have "attrs = py_dict (rec_attributes string_valued_record) \<and>
        (VQName (ex_qn ''note''), VStr ''ex:thing'') \<in> set attrs \<and>
        map_of (namespaces md) (ns_prefix (qn_namespace (ex_qn ''thing'')))
          = Some (ns_uri (qn_namespace (ex_qn ''thing'')))"
    by (rule string_value_namespace_recorded_value_kept[OF e m v c])
  with e d show ?thesis by (simp add: ex_qn_def EXAMPLE_NS_def)
qed

text \<open>
  C9: the namespace of a resolvable string value is not recorded, and the value is not
  stored, when a later attribute of the record has the same key. Line 383 turns the list
  of attributes into a \<^verbatim>\<open>dict\<close> before the loop of lines 384-406 sees them, so that of the
  entity with the attributes \<^verbatim>\<open>ex:note = "foo:a"\<close> and \<^verbatim>\<open>ex:note = "ex:b"\<close> only the second
  is stored: the string \<^verbatim>\<open>foo:a\<close> resolves in the bundle of the entity, and neither is it
  among the stored attributes nor is the prefix \<^verbatim>\<open>foo\<close> among the namespaces of the metadata.
\<close>

theorem dropped_value_namespace_not_recorded:
  "(VQName (ex_qn ''note''), VStr ''foo:a'') \<in> set (rec_attributes relinked_entity) \<and>
   valid_qualified_name (rec_bundle relinked_entity) (VStr ''foo:a'')
     = Some \<lparr>qn_namespace = FOO_NS, localpart = ''a''\<rparr> \<and>
   get_metadata_and_attributes_for_record (Record relinked_entity)
     = Inr (entity_metadata ''e1'', [(VQName (ex_qn ''note''), VStr ''ex:b'')]) \<and>
   map_of (namespaces (entity_metadata ''e1'')) ''foo'' = None"
proof -
  have 1: "(VQName (ex_qn ''note''), VStr ''foo:a'') \<in> set (rec_attributes relinked_entity)"
    by (simp add: relinked_entity_def)
  have 2: "valid_qualified_name (rec_bundle relinked_entity) (VStr ''foo:a'')
     = Some \<lparr>qn_namespace = FOO_NS, localpart = ''a''\<rparr>"
    by (simp add: relinked_entity_def valid_qualified_name_def DEFAULT_NAMESPACES_def
          PROV_def XSD_def XSI_def EXAMPLE_NS_def FOO_NS_def)
  have v: "valid_qualified_name (rec_bundle relinked_entity) (VStr ''ex:b'') = Some (ex_qn ''b'')"
    by (simp add: relinked_entity_def valid_qualified_name_def DEFAULT_NAMESPACES_def
          PROV_def XSD_def XSI_def EXAMPLE_NS_def FOO_NS_def ex_qn_def)
  have d: "py_dict (rec_attributes relinked_entity) = [(VQName (ex_qn ''note''), VStr ''ex:b'')]"
    by (simp add: relinked_entity_def py_dict_def qn_eq_def)
  have i: "valid_qualified_name (rec_bundle relinked_entity) (declared_identifier relinked_entity)
             = Some (ex_qn ''e1'')"
    by (simp add: declared_identifier_def relinked_entity_def vqn_qname)
  have t: "record_type relinked_entity = prov_qn ''Entity''"
    by (simp add: record_type_def relinked_entity_def)
  have n: "\<not> in_prov_attributes (VQName (ex_qn ''note''))"
    by (simp add: in_prov_attributes_def PROV_ATTRIBUTES_def qn_eq_def qn_uri_def
        prov_qn_def ex_qn_def PROV_def EXAMPLE_NS_def)
  have 3: "get_metadata_and_attributes_for_record (Record relinked_entity)
     = Inr (entity_metadata ''e1'', [(VQName (ex_qn ''note''), VStr ''ex:b'')])"
    unfolding extract_record i d t option.case
    by (simp add: v n create_type_dict_def entity_metadata_def add_namespace_def prov_qn_def
          PROV_def ex_qn_def EXAMPLE_NS_def)
  have 4: "map_of (namespaces (entity_metadata ''e1'')) ''foo'' = None"
    by (simp add: entity_metadata_def)
  from 1 2 3 4 show ?thesis by (intro conjI)
qed

lemma extract_anonymous:
  assumes "rec_identifier r = VNone"
    and "get_metadata_and_attributes_for_record (Record r) = Inr (md, attrs)"
  shows "md_identifier md = record_type r \<and> prov_type md = record_type r"
proof -
  from assms(2) obtain ident :: qualified_name where
    "valid_qualified_name (rec_bundle r) (declared_identifier r) = Some ident"
    "md_identifier md = ident" "prov_type md = record_type r"
    by (rule extract_Inr) simp
  with assms(1) show ?thesis by (simp add: declared_identifier_def vqn_qname)
qed

section \<open>Properties of the reconstructor\<close>

lemma qn_opt_eq_refl: "qn_opt_eq x x"
  by (cases x) (auto simp: qn_eq_def)

lemma str_qname_prov: "str_qname (prov_qn l) = ''prov:'' @ l"
  by (simp add: str_qname_def prov_qn_def PROV_def)

lemma vqn_prov_string:
  "valid_qualified_name nss (VStr (''prov:'' @ l)) = Some (prov_qn l)"
  by (simp add: valid_qualified_name_def DEFAULT_NAMESPACES_def PROV_def prov_qn_def)

lemma parse_record_cases:
  "parse_record b raw =
     (if is_skipped b raw then Inr b
      else (case type_map_of (raw_type_map (raw_meta raw)) of
              None \<Rightarrow> Inl InvalidArgumentTypeException
            | Some tm \<Rightarrow>
                Inr (create_prov_record (add_namespaces_to_bundle b (raw_meta raw))
                       (stored_type b raw)
                       (if qn_opt_eq (stored_identifier b raw) (stored_type b raw)
                        then VNone else VStr (raw_identifier (raw_meta raw)))
                       (raw_attributes raw) tm)))"
proof -
  have l: "str_qname PROV_LABEL = ''prov:label''"
    by (simp add: PROV_LABEL_def str_qname_prov)
  show ?thesis
    unfolding parse_record_def Let_def vqn_prov_unknown l is_skipped_def skipped_label_def
      stored_type_def stored_identifier_def type_map_of_def
    by (cases "raw_type_map (raw_meta raw)") auto
qed

lemma create_prov_record_records:
  "restored_records (create_prov_record b t i attrs tm) =
     restored_records b @
       [\<lparr>restored_type = t,
         restored_identifier =
           (case valid_qualified_name (restored_namespaces b) i of Some q \<Rightarrow> VQName q | None \<Rightarrow> i),
         restored_attributes =
           map (\<lambda>(k, v). (restored_key (restored_namespaces b) k,
                           decode_json_representation (restored_namespaces b) v (map_of tm k)))
             attrs\<rparr>]"
  by (simp add: create_prov_record_def)

lemma parse_record_anonymous:
  assumes "qn_opt_eq (stored_identifier b raw) (stored_type b raw)"
    and "\<not> is_skipped b raw"
    and "raw_type_map (raw_meta raw) \<noteq> TypeMapOther"
  shows "\<exists>b' rec. parse_record b raw = Inr b' \<and>
           restored_records b' = restored_records b @ [rec] \<and>
           restored_identifier rec = VNone \<and> restored_type rec = stored_type b raw"
proof -
  from assms(3) obtain tm where tm: "type_map_of (raw_type_map (raw_meta raw)) = Some tm"
    by (cases "raw_type_map (raw_meta raw)") (auto simp: type_map_of_def)
  show ?thesis
    unfolding parse_record_cases using assms(1,2) tm
    by (simp add: create_prov_record_records vqn_none add_namespaces_to_bundle_def)
qed

lemma stored_record_prov_type:
  assumes "prov_type md = prov_qn l"
  shows "stored_type b (stored_record attrs md) = Some (prov_qn l)"
  using assms vqn_prov_string[of "restored_namespaces b" l]
  by (simp add: stored_type_def stored_record_def str_qname_prov)

lemma stored_record_prov_identifier:
  assumes "md_identifier md = prov_qn l"
  shows "stored_identifier b (stored_record attrs md) = Some (prov_qn l)"
  using assms vqn_prov_string[of "restored_namespaces b" l]
  by (simp add: stored_identifier_def stored_record_def str_qname_prov)

lemma prov_qn_inject: "prov_qn a = prov_qn b \<longleftrightarrow> a = b"
  by (simp add: prov_qn_def)

text \<open>
  C5. A record without identifier is stored with its type as identifier (for a relation,
  the type of its kind). The reconstructor creates a record without identifier, and
  with the stored type as its type, whenever the stored identifier equals the stored
  type (as the bundle resolves them, compared as Python compares qualified names), the
  record is not one of the skipped ones and the type map is readable. Together: a
  relation without identifier, of a kind \<^verbatim>\<open>prov:l\<close>, is read back from what was stored for
  it without identifier and with its type.
\<close>

theorem anonymous_relation_convention:
  "(rec_identifier r = VNone \<and>
    get_metadata_and_attributes_for_record (Record r) = Inr (md, attrs)
      \<longrightarrow> md_identifier md = record_type r \<and> prov_type md = record_type r) \<and>
   (qn_opt_eq (stored_identifier b raw) (stored_type b raw) \<and> \<not> is_skipped b raw \<and>
    raw_type_map (raw_meta raw) \<noteq> TypeMapOther
      \<longrightarrow> (\<exists>b' rec. parse_record b raw = Inr b' \<and>
             restored_records b' = restored_records b @ [rec] \<and>
             restored_identifier rec = VNone \<and> restored_type rec = stored_type b raw)) \<and>
   (rec_identifier r = VNone \<and> get_type r = Some (prov_qn l) \<and> l \<noteq> ''Unknown'' \<and>
    get_metadata_and_attributes_for_record (Record r) = Inr (md, attrs) \<and>
    \<not> skipped_label (raw_attributes (stored_record attrs md))
      \<longrightarrow> (\<exists>b' rec. parse_record b (stored_record attrs md) = Inr b' \<and>
             restored_records b' = restored_records b @ [rec] \<and>
             restored_identifier rec = VNone \<and> restored_type rec = get_type r))"
proof -
  have p1: "rec_identifier r = VNone \<and>
    get_metadata_and_attributes_for_record (Record r) = Inr (md, attrs)
      \<longrightarrow> md_identifier md = record_type r \<and> prov_type md = record_type r"
    using extract_anonymous by blast
  have p2: "qn_opt_eq (stored_identifier b raw) (stored_type b raw) \<and> \<not> is_skipped b raw \<and>
    raw_type_map (raw_meta raw) \<noteq> TypeMapOther
      \<longrightarrow> (\<exists>b' rec. parse_record b raw = Inr b' \<and>
             restored_records b' = restored_records b @ [rec] \<and>
             restored_identifier rec = VNone \<and> restored_type rec = stored_type b raw)"
    using parse_record_anonymous by blast
  have p3: "rec_identifier r = VNone \<and> get_type r = Some (prov_qn l) \<and> l \<noteq> ''Unknown'' \<and>
    get_metadata_and_attributes_for_record (Record r) = Inr (md, attrs) \<and>
    \<not> skipped_label (raw_attributes (stored_record attrs md))
      \<longrightarrow> (\<exists>b' rec. parse_record b (stored_record attrs md) = Inr b' \<and>
             restored_records b' = restored_records b @ [rec] \<and>
             restored_identifier rec = VNone \<and> restored_type rec = get_type r)"
  proof
    assume a: "rec_identifier r = VNone \<and> get_type r = Some (prov_qn l) \<and> l \<noteq> ''Unknown'' \<and>
      get_metadata_and_attributes_for_record (Record r) = Inr (md, attrs) \<and>
      \<not> skipped_label (raw_attributes (stored_record attrs md))"
    let ?raw = "stored_record attrs md"
    from a have rt: "record_type r = prov_qn l" by (simp add: record_type_def)
    from a have "md_identifier md = record_type r \<and> prov_type md = record_type r"
      using extract_anonymous by blast
    with rt have t: "stored_type b ?raw = Some (prov_qn l)"
      and i: "stored_identifier b ?raw = Some (prov_qn l)"
      by (simp_all add: stored_record_prov_type stored_record_prov_identifier)
    from a have "prov_qn l \<noteq> PROV_UNKNOWN"
      by (simp add: PROV_UNKNOWN_def prov_qn_inject)
    with t a have ns: "\<not> is_skipped b ?raw" by (simp add: is_skipped_def)
    have eq: "qn_opt_eq (stored_identifier b ?raw) (stored_type b ?raw)"
      unfolding i t by (rule qn_opt_eq_refl)
    have tm: "raw_type_map (raw_meta ?raw) \<noteq> TypeMapOther"
      by (simp add: stored_record_def)
    from parse_record_anonymous[OF eq ns tm] t a
    show "\<exists>b' rec. parse_record b ?raw = Inr b' \<and>
               restored_records b' = restored_records b @ [rec] \<and>
               restored_identifier rec = VNone \<and> restored_type rec = get_type r"
      by simp
  qed
  from p1 p2 p3 show ?thesis by blast
qed

theorem anonymous_relation_convention_witness:
  "\<exists>md attrs b' rec.
     get_metadata_and_attributes_for_record (Record anonymous_generation) = Inr (md, attrs) \<and>
     md_identifier md = prov_qn ''Generation'' \<and>
     parse_record empty_bundle (stored_record attrs md) = Inr b' \<and>
     restored_records b' = [rec] \<and>
     restored_identifier rec = VNone \<and> restored_type rec = Some (prov_qn ''Generation'')"
proof -
  let ?r = anonymous_generation
  have i: "valid_qualified_name (rec_bundle ?r) (declared_identifier ?r) = Some (prov_qn ''Generation'')"
    by (simp add: declared_identifier_def record_type_def anonymous_generation_def vqn_qname)
  have d: "py_dict (rec_attributes ?r) = rec_attributes ?r"
    by (simp add: anonymous_generation_def py_dict_def prov_qn_def qn_eq_def qn_uri_def)
  obtain md attrs where
    e: "get_metadata_and_attributes_for_record (Record ?r) = Inr (md, attrs)"
    unfolding extract_record i d by (simp add: Let_def anonymous_generation_def vqn_qname)
  have a: "attrs = rec_attributes ?r"
    using e by (rule extract_Inr) (simp add: d)
  have s: "\<not> skipped_label (raw_attributes (stored_record attrs md))"
    unfolding a
    by (simp add: skipped_label_def stored_record_def anonymous_generation_def str_key_def
          str_qname_prov)
  have t: "get_type ?r = Some (prov_qn ''Generation'')" and n: "rec_identifier ?r = VNone"
    by (simp_all add: anonymous_generation_def)
  have r: "record_type ?r = prov_qn ''Generation''"
    by (simp add: record_type_def t)
  from anonymous_relation_convention[of ?r md attrs empty_bundle "stored_record attrs md"
      "''Generation''"] e s t n r
  show ?thesis by (simp add: empty_bundle_def)
qed

section \<open>Calls made by the materializer\<close>

lemma extends_calls: "extends st st' \<Longrightarrow> calls st' = calls st @ new_calls st st'"
  by (metis append_take_drop_id extends_def new_calls_def)

lemma new_calls_eqI: "calls st' = calls st @ xs \<Longrightarrow> new_calls st st' = xs"
  by (simp add: new_calls_def)

lemma extends_refl: "extends st st"
  by (simp add: extends_def)

lemma extends_trans:
  assumes "extends a b" "extends b c"
  shows "extends a c"
proof -
  from assms have ab: "calls b = calls a @ new_calls a b" and bc: "calls c = calls b @ new_calls b c"
    by (simp_all add: extends_calls)
  then have "calls c = calls a @ (new_calls a b @ new_calls b c)" by simp
  with assms show ?thesis by (simp add: extends_def)
qed

lemma new_calls_trans:
  assumes "extends a b" "extends b c"
  shows "new_calls a c = new_calls a b @ new_calls b c"
proof -
  from assms have ab: "calls b = calls a @ new_calls a b" and bc: "calls c = calls b @ new_calls b c"
    by (simp_all add: extends_calls)
  then have "calls c = calls a @ (new_calls a b @ new_calls b c)" by simp
  then show ?thesis by (rule new_calls_eqI)
qed

lemma new_calls_refl: "new_calls st st = []"
  by (simp add: new_calls_def)

lemma issue_Inr:
  assumes "issue f c st = Inr (i, st')"
  shows "extends st st' \<and> new_calls st st' = [(c, i)] \<and> uuid_count st' = uuid_count st"
proof -
  from assms obtain s' where "f (db st) = Inr (i, s')"
    and st': "st' = st\<lparr>db := s', calls := calls st @ [(c, i)]\<rparr>"
    by (auto simp: issue_def split: sum.splits)
  then show ?thesis by (simp add: extends_def new_calls_def)
qed

lemma issue_Inl:
  "issue f c st = Inl e \<Longrightarrow> \<exists>d. e = DatabaseError d"
  by (auto simp: issue_def split: sum.splits)

lemma extract_unknown_record:
  "get_metadata_and_attributes_for_record
     (Record \<lparr>rec_bundle = [], record_class = OtherRecord, get_type = None,
              rec_identifier = VQName (prov_qn (''Unknown-'' @ uid)), rec_attributes = [],
              formal_from = None, formal_to = None, formal_third = None\<rparr>)
   = Inr (unknown_metadata uid, [])"
  unfolding extract_record
  by (simp add: declared_identifier_def record_type_def vqn_qname py_dict_def
        unknown_metadata_def create_type_dict_def add_namespace_def prov_qn_def PROV_def
        PROV_UNKNOWN_def)

lemma create_unknown_node_Inr:
  assumes "create_unknown_node ad bundle_id st = Inr (q, st')"
  shows "extends st st' \<and>
         (\<exists>i. new_calls st st' =
                [(SaveRecord bundle_id [] (unknown_metadata (uuid_source st (uuid_count st))), i)]) \<and>
         q = Some (prov_qn (''Unknown-'' @ uuid_source st (uuid_count st))) \<and>
         uuid_count st' = Suc (uuid_count st)"
proof -
  let ?uid = "uuid_source st (uuid_count st)"
  let ?st1 = "st\<lparr>uuid_count := Suc (uuid_count st)\<rparr>"
  have v: "valid_qualified_name [] (VStr (''prov:Unknown-'' @ ?uid)) = Some (prov_qn (''Unknown-'' @ ?uid))"
    using vqn_prov_string[of "[]" "''Unknown-'' @ ?uid"] by simp
  have unf: "create_unknown_node ad bundle_id st =
      (case adapter_save_record ad bundle_id [] (unknown_metadata ?uid) ?st1 of
         Inl e \<Rightarrow> Inl e
       | Inr (i, st2) \<Rightarrow> Inr (Some (prov_qn (''Unknown-'' @ ?uid)), st2))"
    unfolding create_unknown_node_def uuid4_def Let_def prod.case v py_of_qname_def option.case
      extract_unknown_record sum.case
    by simp
  from assms obtain i where
    s: "adapter_save_record ad bundle_id [] (unknown_metadata ?uid) ?st1 = Inr (i, st')"
    and q: "q = Some (prov_qn (''Unknown-'' @ ?uid))"
    unfolding unf by (auto split: sum.splits)
  from s have "extends ?st1 st' \<and> new_calls ?st1 st' = [(SaveRecord bundle_id [] (unknown_metadata ?uid), i)]
      \<and> uuid_count st' = uuid_count ?st1"
    unfolding adapter_save_record_def by (rule issue_Inr)
  then show ?thesis using q by (auto simp: extends_def new_calls_def)
qed

lemma endpoint_Inr:
  assumes "(case ep of None \<Rightarrow> create_unknown_node ad bid st | Some q \<Rightarrow> Inr (Some q, st))
             = Inr (qn, st1)"
  shows "extends st st1 \<and>
         (case ep of
            Some q \<Rightarrow> new_calls st st1 = [] \<and> qn = Some q \<and> uuid_count st1 = uuid_count st
          | None \<Rightarrow> (\<exists>j. new_calls st st1 = [(placeholder_call st 0 bid, j)]) \<and>
                    qn = Some (placeholder_identifier st 0) \<and>
                    uuid_count st1 = Suc (uuid_count st))"
proof (cases ep)
  case None
  with assms have "create_unknown_node ad bid st = Inr (qn, st1)" by simp
  from create_unknown_node_Inr[OF this] None show ?thesis
    by (simp add: placeholder_call_def placeholder_identifier_def)
next
  case (Some q)
  with assms show ?thesis by (auto simp: extends_refl new_calls_refl)
qed

lemma endpoint_Inl:
  assumes "(case ep of None \<Rightarrow> create_unknown_node ad bid st | Some q \<Rightarrow> Inr (Some q, st)) = Inl e"
  shows "\<exists>d. e = DatabaseError d"
proof (cases ep)
  case None
  let ?uid = "uuid_source st (uuid_count st)"
  have v: "valid_qualified_name [] (VStr (''prov:Unknown-'' @ ?uid)) = Some (prov_qn (''Unknown-'' @ ?uid))"
    using vqn_prov_string[of "[]" "''Unknown-'' @ ?uid"] by simp
  have unf: "create_unknown_node ad bid st =
      (case adapter_save_record ad bid [] (unknown_metadata ?uid) (st\<lparr>uuid_count := Suc (uuid_count st)\<rparr>) of
         Inl e \<Rightarrow> Inl e
       | Inr (i, st2) \<Rightarrow> Inr (Some (prov_qn (''Unknown-'' @ ?uid)), st2))"
    unfolding create_unknown_node_def uuid4_def Let_def prod.case v py_of_qname_def option.case
      extract_unknown_record sum.case
    by simp
  from assms None have "create_unknown_node ad bid st = Inl e" by simp
  then have "adapter_save_record ad bid [] (unknown_metadata ?uid) (st\<lparr>uuid_count := Suc (uuid_count st)\<rparr>) = Inl e"
    unfolding unf by (auto split: sum.splits)
  then show ?thesis unfolding adapter_save_record_def by (rule issue_Inl)
next
  case (Some q)
  with assms show ?thesis by simp
qed

lemma create_relation_Inr:
  assumes "create_relation ad fb tb rel st = Inr (i, st')"
  shows "extends st st' \<and>
    (\<exists>pf pt fq tq md attrs.
       new_calls st st' = pf @ pt @ [(SaveRelation fb fq tb tq attrs md, i)] \<and>
       get_metadata_and_attributes_for_record (Record rel) = Inr (md, attrs) \<and>
       (case formal_from rel of
          Some q \<Rightarrow> pf = [] \<and> fq = Some q
        | None \<Rightarrow> (\<exists>j. pf = [(placeholder_call st 0 fb, j)]) \<and> fq = Some (placeholder_identifier st 0)) \<and>
       (case formal_to rel of
          Some q \<Rightarrow> pt = [] \<and> tq = Some q
        | None \<Rightarrow>
            (\<exists>k. pt = [(placeholder_call st (if formal_from rel = None then 1 else 0) tb, k)]) \<and>
            tq = Some (placeholder_identifier st (if formal_from rel = None then 1 else 0))))"
proof -
  from assms obtain fq st1 where
    f: "(case formal_from rel of None \<Rightarrow> create_unknown_node ad fb st | Some q \<Rightarrow> Inr (Some q, st))
          = Inr (fq, st1)"
    unfolding create_relation_def by (auto split: sum.splits)
  from assms f obtain tq st2 where
    t: "(case formal_to rel of None \<Rightarrow> create_unknown_node ad tb st1 | Some q \<Rightarrow> Inr (Some q, st1))
          = Inr (tq, st2)"
    unfolding create_relation_def by (auto split: sum.splits)
  from assms f t obtain md attrs where
    e: "get_metadata_and_attributes_for_record (Record rel) = Inr (md, attrs)"
    and s: "adapter_save_relation ad fb fq tb tq attrs md st2 = Inr (i, st')"
    unfolding create_relation_def by (auto split: sum.splits)
  note F = endpoint_Inr[OF f] and T = endpoint_Inr[OF t]
  from s have S: "extends st2 st' \<and> new_calls st2 st' = [(SaveRelation fb fq tb tq attrs md, i)]"
    unfolding adapter_save_relation_def using issue_Inr by blast
  from F T S have ext: "extends st st1" "extends st1 st2" "extends st2 st'" by simp_all
  then have e02: "extends st st2" and e0: "extends st st'"
    by (blast intro: extends_trans)+
  have nc: "new_calls st st' = new_calls st st1 @ new_calls st1 st2 @ [(SaveRelation fb fq tb tq attrs md, i)]"
    using new_calls_trans[OF e02 ext(3)] new_calls_trans[OF ext(1) ext(2)] S by simp
  have src: "uuid_source st1 = uuid_source st" using ext(1) by (simp add: extends_def)
  have cnt: "uuid_count st1 = uuid_count st + (if formal_from rel = None then 1 else 0)"
    using F by (cases "formal_from rel") simp_all
  have pc: "placeholder_call st1 0 tb = placeholder_call st (if formal_from rel = None then 1 else 0) tb"
    and pi: "placeholder_identifier st1 0 = placeholder_identifier st (if formal_from rel = None then 1 else 0)"
    unfolding placeholder_call_def placeholder_identifier_def src cnt by simp_all
  have Fc: "case formal_from rel of
          Some q \<Rightarrow> new_calls st st1 = [] \<and> fq = Some q
        | None \<Rightarrow> (\<exists>j. new_calls st st1 = [(placeholder_call st 0 fb, j)]) \<and> fq = Some (placeholder_identifier st 0)"
    using F by (cases "formal_from rel") simp_all
  have Tc: "case formal_to rel of
          Some q \<Rightarrow> new_calls st1 st2 = [] \<and> tq = Some q
        | None \<Rightarrow>
            (\<exists>k. new_calls st1 st2 = [(placeholder_call st (if formal_from rel = None then 1 else 0) tb, k)]) \<and>
            tq = Some (placeholder_identifier st (if formal_from rel = None then 1 else 0))"
    using T unfolding pc pi by (cases "formal_to rel") simp_all
  from e0 nc e Fc Tc show ?thesis by blast
qed

lemma parse_record_Inr:
  assumes "parse_record b raw = Inr b'"
  shows "(is_skipped b raw \<and> b' = b) \<or>
         (\<not> is_skipped b raw \<and>
          (\<exists>rec. restored_records b' = restored_records b @ [rec] \<and>
                 restored_type rec = stored_type b raw))"
proof (cases "is_skipped b raw")
  case True
  with assms show ?thesis by (simp add: parse_record_cases)
next
  case False
  with assms obtain tm where
    b': "b' = create_prov_record (add_namespaces_to_bundle b (raw_meta raw)) (stored_type b raw)
           (if qn_opt_eq (stored_identifier b raw) (stored_type b raw)
            then VNone else VStr (raw_identifier (raw_meta raw)))
           (raw_attributes raw) tm"
    by (auto simp: parse_record_cases split: option.splits)
  from False show ?thesis
    unfolding b' create_prov_record_records
    by (simp add: add_namespaces_to_bundle_def)
qed

lemma kept_mono: "kept raws r \<Longrightarrow> set raws \<subseteq> set raws' \<Longrightarrow> kept raws' r"
  unfolding kept_def by blast

lemma parse_record_kept:
  assumes "parse_record b raw = Inr b'"
  shows "\<exists>new. restored_records b' = restored_records b @ new \<and> (\<forall>r \<in> set new. kept [raw] r)"
proof (cases "is_skipped b raw")
  case True
  with parse_record_Inr[OF assms] have "restored_records b' = restored_records b @ []" by simp
  then show ?thesis by (intro exI[of _ "[]"]) simp
next
  case False
  with parse_record_Inr[OF assms] obtain rec where
    r: "restored_records b' = restored_records b @ [rec]"
    and t: "restored_type rec = stored_type b raw"
    by blast
  from False t have 1: "restored_type rec \<noteq> Some PROV_UNKNOWN"
    and 2: "\<not> skipped_label (raw_attributes raw)"
    by (simp_all add: is_skipped_def)
  from assms r have 3: "rebuilt_from raw rec"
    unfolding rebuilt_from_def by blast
  from 1 2 3 have "kept [raw] rec" by (simp add: kept_def)
  with r show ?thesis by (intro exI[of _ "[rec]"]) simp
qed

lemma parse_records_kept:
  "parse_records b raws = Inr b' \<Longrightarrow>
   \<exists>new. restored_records b' = restored_records b @ new \<and> (\<forall>r \<in> set new. kept raws r)"
proof (induction raws arbitrary: b)
  case Nil
  then show ?case by simp
next
  case (Cons raw raws)
  from Cons.prems obtain b1 where p: "parse_record b raw = Inr b1"
    and r: "parse_records b1 raws = Inr b'"
    by (auto split: sum.splits)
  from parse_record_kept[OF p] obtain n1 where
    1: "restored_records b1 = restored_records b @ n1" and k1: "\<forall>r \<in> set n1. kept [raw] r"
    by blast
  from Cons.IH[OF r] obtain n2 where
    2: "restored_records b' = restored_records b1 @ n2" and k2: "\<forall>r \<in> set n2. kept raws r"
    by blast
  have "\<forall>r \<in> set (n1 @ n2). kept (raw # raws) r"
    using k1 k2 by (auto intro: kept_mono)
  moreover from 1 2 have "restored_records b' = restored_records b @ (n1 @ n2)" by simp
  ultimately show ?case by blast
qed

lemma parse_bundles_kept:
  "parse_bundles doc rbs acc = Inr bs \<Longrightarrow>
   \<forall>b \<in> set acc. \<forall>r \<in> set (restored_records b). kept raws0 r \<Longrightarrow>
   set (concat (map raw_records rbs)) \<subseteq> set raws0 \<Longrightarrow>
   \<forall>b \<in> set bs. \<forall>r \<in> set (restored_records b). kept raws0 r"
proof (induction rbs arbitrary: acc)
  case Nil
  then show ?case by simp
next
  case (Cons rb rbs)
  from Cons.prems(1) obtain valid_id b1 where
    p: "parse_records \<lparr>restored_name = Some valid_id, restored_namespaces = restored_namespaces doc,
                        restored_records = []\<rparr> (raw_records rb) = Inr b1"
    and r: "parse_bundles doc rbs (acc @ [b1]) = Inr bs"
    by (auto simp: Let_def split: option.splits if_splits sum.splits)
  from parse_records_kept[OF p] have "\<forall>r \<in> set (restored_records b1). kept (raw_records rb) r"
    by simp
  moreover from Cons.prems(3) have "set (raw_records rb) \<subseteq> set raws0" by simp
  ultimately have "\<forall>r \<in> set (restored_records b1). kept raws0 r"
    by (blast intro: kept_mono)
  with Cons.prems(2) have a: "\<forall>b \<in> set (acc @ [b1]). \<forall>r \<in> set (restored_records b). kept raws0 r"
    by auto
  from Cons.prems(3) have s: "set (concat (map raw_records rbs)) \<subseteq> set raws0" by simp
  from r a s show ?case by (rule Cons.IH)
qed

lemma get_document_as_prov_kept:
  assumes "get_document_as_prov ad document_id st = Inr d"
  shows "\<exists>i raw_doc. document_id = VStr i \<and> get_document ad i (db st) = Inr raw_doc \<and>
           (\<forall>r \<in> set (all_restored_records d). kept (all_raw_records raw_doc) r)"
proof -
  from assms obtain i raw_doc doc bs where
    i: "document_id = VStr i" and g: "get_document ad i (db st) = Inr raw_doc"
    and p: "parse_records \<lparr>restored_name = None, restored_namespaces = [], restored_records = []\<rparr>
              (document_records raw_doc) = Inr doc"
    and b: "parse_bundles doc (raw_bundles raw_doc) [] = Inr bs"
    and d: "d = \<lparr>restored_top = doc, restored_bundles = bs\<rparr>"
    by (auto simp: get_document_as_prov_def split: pyval.splits sum.splits)
  from parse_records_kept[OF p] have "\<forall>r \<in> set (restored_records doc). kept (document_records raw_doc) r"
    by simp
  then have 1: "\<forall>r \<in> set (restored_records doc). kept (all_raw_records raw_doc) r"
    by (auto intro: kept_mono simp: all_raw_records_def)
  have 2: "\<forall>b \<in> set bs. \<forall>r \<in> set (restored_records b). kept (all_raw_records raw_doc) r"
    using b by (rule parse_bundles_kept) (simp_all add: all_raw_records_def)
  from 1 2 have "\<forall>r \<in> set (all_restored_records d). kept (all_raw_records raw_doc) r"
    by (auto simp: d all_restored_records_def)
  with i g show ?thesis by blast
qed

lemma placeholder_skipped:
  "parse_record b (stored_record attrs (unknown_metadata uid)) = Inr b"
proof -
  have "stored_type b (stored_record attrs (unknown_metadata uid)) = Some PROV_UNKNOWN"
    unfolding PROV_UNKNOWN_def
    by (rule stored_record_prov_type) (simp add: unknown_metadata_def PROV_UNKNOWN_def)
  then show ?thesis by (simp add: parse_record_cases is_skipped_def)
qed

text \<open>
  C3. When \<^verbatim>\<open>_create_relation\<close> materializes a relation whose "to" endpoint is \<^verbatim>\<open>None\<close>, the
  calls it makes are: the placeholder of the "from" endpoint if that is absent too,
  then exactly one \<^verbatim>\<open>save_record\<close> for the "to" endpoint, into the target container, with
  no attributes and metadata of type \<^verbatim>\<open>prov:Unknown\<close>, then the \<^verbatim>\<open>save_relation\<close> whose
  target is the placeholder's identifier. The reconstructor skips what was stored for
  the placeholder, whatever the bundle, and no record of a reconstructed document has
  the type \<^verbatim>\<open>prov:Unknown\<close>.
\<close>

theorem unknown_to_endpoint_placeholder:
  assumes "formal_to rel = None" and "create_relation ad fb tb rel st = Inr (i, st')"
  shows "(\<exists>pf fq k attrs md uid.
     new_calls st st' =
       pf @ [(SaveRecord tb [] (unknown_metadata uid), k),
             (SaveRelation fb fq tb (Some (prov_qn (''Unknown-'' @ uid))) attrs md, i)] \<and>
     (formal_from rel \<noteq> None \<longrightarrow> pf = []) \<and>
     (formal_from rel = None \<longrightarrow> (\<exists>j uid'. pf = [(SaveRecord fb [] (unknown_metadata uid'), j)])) \<and>
     prov_type (unknown_metadata uid) = PROV_UNKNOWN \<and>
     (\<forall>b. parse_record b (stored_record [] (unknown_metadata uid)) = Inr b)) \<and>
   (\<forall>document_id st0 d. get_document_as_prov ad document_id st0 = Inr d \<longrightarrow>
      (\<forall>r \<in> set (all_restored_records d). restored_type r \<noteq> Some PROV_UNKNOWN))"
proof -
  let ?n = "if formal_from rel = None then 1 else 0 :: nat"
  let ?uid = "uuid_source st (uuid_count st + ?n)"
  from create_relation_Inr[OF assms(2)] obtain pf pt fq tq md attrs where
    nc: "new_calls st st' = pf @ pt @ [(SaveRelation fb fq tb tq attrs md, i)]"
    and F: "case formal_from rel of
          Some q \<Rightarrow> pf = [] \<and> fq = Some q
        | None \<Rightarrow> (\<exists>j. pf = [(placeholder_call st 0 fb, j)]) \<and> fq = Some (placeholder_identifier st 0)"
    and T: "case formal_to rel of
          Some q \<Rightarrow> pt = [] \<and> tq = Some q
        | None \<Rightarrow> (\<exists>k. pt = [(placeholder_call st ?n tb, k)]) \<and>
            tq = Some (placeholder_identifier st ?n)"
    by blast
  from T assms(1) obtain k where pt: "pt = [(SaveRecord tb [] (unknown_metadata ?uid), k)]"
    and tq: "tq = Some (prov_qn (''Unknown-'' @ ?uid))"
    by (auto simp: placeholder_call_def placeholder_identifier_def)
  have 1: "new_calls st st' =
       pf @ [(SaveRecord tb [] (unknown_metadata ?uid), k),
             (SaveRelation fb fq tb (Some (prov_qn (''Unknown-'' @ ?uid))) attrs md, i)]"
    unfolding nc pt tq by simp
  have 2: "formal_from rel \<noteq> None \<longrightarrow> pf = []"
    using F by (cases "formal_from rel") simp_all
  have 3: "formal_from rel = None \<longrightarrow> (\<exists>j uid'. pf = [(SaveRecord fb [] (unknown_metadata uid'), j)])"
    using F by (cases "formal_from rel") (auto simp: placeholder_call_def)
  have 4: "prov_type (unknown_metadata ?uid) = PROV_UNKNOWN"
    by (simp add: unknown_metadata_def)
  have 5: "\<forall>b. parse_record b (stored_record [] (unknown_metadata ?uid)) = Inr b"
    by (simp add: placeholder_skipped)
  have a: "\<exists>pf fq k attrs md uid.
     new_calls st st' =
       pf @ [(SaveRecord tb [] (unknown_metadata uid), k),
             (SaveRelation fb fq tb (Some (prov_qn (''Unknown-'' @ uid))) attrs md, i)] \<and>
     (formal_from rel \<noteq> None \<longrightarrow> pf = []) \<and>
     (formal_from rel = None \<longrightarrow> (\<exists>j uid'. pf = [(SaveRecord fb [] (unknown_metadata uid'), j)])) \<and>
     prov_type (unknown_metadata uid) = PROV_UNKNOWN \<and>
     (\<forall>b. parse_record b (stored_record [] (unknown_metadata uid)) = Inr b)"
    by (rule exI[of _ pf], rule exI[of _ fq], rule exI[of _ k], rule exI[of _ attrs],
        rule exI[of _ md], rule exI[of _ ?uid])
       (use 1 2 3 4 5 in blast)
  have b: "\<forall>document_id st0 d. get_document_as_prov ad document_id st0 = Inr d \<longrightarrow>
      (\<forall>r \<in> set (all_restored_records d). restored_type r \<noteq> Some PROV_UNKNOWN)"
    using get_document_as_prov_kept by (fastforce simp: kept_def)
  from a b show ?thesis by (rule conjI)
qed

lemma counting_adapter_issue:
  "issue (\<lambda>n. Inr (fresh_id n, Suc n)) c st =
     Inr (fresh_id (db st), st\<lparr>db := Suc (db st), calls := calls st @ [(c, fresh_id (db st))]\<rparr>)"
  by (simp add: issue_def)

lemma counting_adapter_save_record:
  "adapter_save_record (counting_adapter raw) b attrs md st =
     Inr (fresh_id (db st),
          st\<lparr>db := Suc (db st), calls := calls st @ [(SaveRecord b attrs md, fresh_id (db st))]\<rparr>)"
  by (simp add: adapter_save_record_def counting_adapter_def counting_adapter_issue)

lemma counting_adapter_save_relation:
  "adapter_save_relation (counting_adapter raw) fb fq tb tq attrs md st =
     Inr (fresh_id (db st),
          st\<lparr>db := Suc (db st),
             calls := calls st @ [(SaveRelation fb fq tb tq attrs md, fresh_id (db st))]\<rparr>)"
  by (simp add: adapter_save_relation_def counting_adapter_def counting_adapter_issue)

lemma counting_adapter_save_bundle:
  "adapter_save_bundle (counting_adapter raw) d attrs md st =
     Inr (fresh_id (db st),
          st\<lparr>db := Suc (db st), calls := calls st @ [(SaveBundle d attrs md, fresh_id (db st))]\<rparr>)"
  by (simp add: adapter_save_bundle_def counting_adapter_def counting_adapter_issue)

lemma counting_adapter_save_document:
  "adapter_save_document (counting_adapter raw) st =
     Inr (fresh_id (db st),
          st\<lparr>db := Suc (db st), calls := calls st @ [(SaveDocument, fresh_id (db st))]\<rparr>)"
  by (simp add: adapter_save_document_def counting_adapter_def counting_adapter_issue)

lemma counting_adapter_unknown_node:
  "create_unknown_node (counting_adapter raw) bid st =
     Inr (Some (prov_qn (''Unknown-'' @ uuid_source st (uuid_count st))),
          st\<lparr>uuid_count := Suc (uuid_count st), db := Suc (db st),
             calls := calls st @
               [(SaveRecord bid [] (unknown_metadata (uuid_source st (uuid_count st))),
                 fresh_id (db st))]\<rparr>)"
proof -
  let ?uid = "uuid_source st (uuid_count st)"
  have v: "valid_qualified_name [] (VStr (''prov:Unknown-'' @ ?uid)) = Some (prov_qn (''Unknown-'' @ ?uid))"
    using vqn_prov_string[of "[]" "''Unknown-'' @ ?uid"] by simp
  show ?thesis
    unfolding create_unknown_node_def uuid4_def Let_def prod.case v py_of_qname_def option.case
      extract_unknown_record sum.case counting_adapter_save_record
    by simp
qed

lemma open_usage_extract:
  "\<exists>md attrs. get_metadata_and_attributes_for_record (Record open_usage) = Inr (md, attrs)"
proof -
  have i: "valid_qualified_name (rec_bundle open_usage) (declared_identifier open_usage)
             = Some (prov_qn ''Usage'')"
    by (simp add: declared_identifier_def record_type_def open_usage_def vqn_qname)
  have d: "py_dict (rec_attributes open_usage) = rec_attributes open_usage"
    by (simp add: open_usage_def py_dict_def)
  show ?thesis
    unfolding extract_record i d by (simp add: Let_def open_usage_def vqn_qname)
qed

theorem unknown_to_endpoint_placeholder_witness:
  "\<exists>i st' k fq attrs md uid.
     create_relation (counting_adapter no_document) (VStr ''b'') (VStr ''b'') open_usage initial_state
       = Inr (i, st') \<and>
     new_calls initial_state st' =
       [(SaveRecord (VStr ''b'') [] (unknown_metadata uid), k),
        (SaveRelation (VStr ''b'') fq (VStr ''b'') (Some (prov_qn (''Unknown-'' @ uid))) attrs md, i)] \<and>
     parse_record empty_bundle (stored_record [] (unknown_metadata uid)) = Inr empty_bundle"
proof -
  obtain md attrs where
    e: "get_metadata_and_attributes_for_record (Record open_usage) = Inr (md, attrs)"
    using open_usage_extract by blast
  have t: "formal_to open_usage = None" and f: "formal_from open_usage \<noteq> None"
    by (simp_all add: open_usage_def)
  obtain i st' where
    r: "create_relation (counting_adapter no_document) (VStr ''b'') (VStr ''b'') open_usage
          initial_state = Inr (i, st')"
    unfolding create_relation_def t option.case counting_adapter_unknown_node e
      counting_adapter_save_relation
    by (simp add: open_usage_def)
  from unknown_to_endpoint_placeholder[OF t r] obtain pf fq k attrs' md' uid where
    nc: "new_calls initial_state st' =
       pf @ [(SaveRecord (VStr ''b'') [] (unknown_metadata uid), k),
             (SaveRelation (VStr ''b'') fq (VStr ''b'') (Some (prov_qn (''Unknown-'' @ uid)))
                attrs' md', i)]"
    and pf: "formal_from open_usage \<noteq> None \<longrightarrow> pf = []"
    and sk: "\<forall>b. parse_record b (stored_record [] (unknown_metadata uid)) = Inr b"
    by blast
  from pf f have "pf = []" by simp
  with nc have nc': "new_calls initial_state st' =
       [(SaveRecord (VStr ''b'') [] (unknown_metadata uid), k),
        (SaveRelation (VStr ''b'') fq (VStr ''b'') (Some (prov_qn (''Unknown-'' @ uid)))
           attrs' md', i)]"
    by simp
  from sk have sk': "parse_record empty_bundle (stored_record [] (unknown_metadata uid))
      = Inr empty_bundle"
    by blast
  from r nc' sk' show ?thesis by blast
qed

lemma prov_qn_not_eq:
  "a \<noteq> b \<Longrightarrow> \<not> qn_eq (prov_qn a) (prov_qn b)"
  by (simp add: qn_eq_def qn_uri_def prov_qn_def)

text \<open>
  C10. A successful call of \<^verbatim>\<open>_create_unknown_node\<close> makes exactly one call to the adapter: a
  \<^verbatim>\<open>save_record\<close> of a record whose identifier is \<^verbatim>\<open>prov:Unknown-\<close> followed by the value
  that \<^verbatim>\<open>uuid4()\<close> returned, which is also the identifier it returns. For a relation with
  both endpoints absent, \<^verbatim>\<open>_create_relation\<close> saves two placeholders and then the
  relation between them; when the two values of \<^verbatim>\<open>uuid4()\<close> differ, the two identifiers
  are different qualified names.
\<close>

theorem placeholders_are_fresh:
  "(create_unknown_node ad bid st = Inr (q, st') \<longrightarrow>
      (\<exists>i. new_calls st st' =
             [(SaveRecord bid [] (unknown_metadata (uuid_source st (uuid_count st))), i)]) \<and>
      md_identifier (unknown_metadata (uuid_source st (uuid_count st)))
        = prov_qn (''Unknown-'' @ uuid_source st (uuid_count st)) \<and>
      q = Some (prov_qn (''Unknown-'' @ uuid_source st (uuid_count st))) \<and>
      uuid_count st' = Suc (uuid_count st)) \<and>
   (formal_from rel = None \<and> formal_to rel = None \<and>
    create_relation ad fb tb rel st = Inr (i, st') \<and>
    uuid_source st (uuid_count st) \<noteq> uuid_source st (Suc (uuid_count st)) \<longrightarrow>
      (\<exists>j k attrs md u1 u2.
         new_calls st st' =
           [(SaveRecord fb [] (unknown_metadata u1), j),
            (SaveRecord tb [] (unknown_metadata u2), k),
            (SaveRelation fb (Some (prov_qn (''Unknown-'' @ u1))) tb
               (Some (prov_qn (''Unknown-'' @ u2))) attrs md, i)] \<and>
         u1 \<noteq> u2 \<and>
         prov_qn (''Unknown-'' @ u1) \<noteq> prov_qn (''Unknown-'' @ u2) \<and>
         \<not> qn_eq (prov_qn (''Unknown-'' @ u1)) (prov_qn (''Unknown-'' @ u2))))"
proof -
  have p1: "create_unknown_node ad bid st = Inr (q, st') \<longrightarrow>
      (\<exists>i. new_calls st st' =
             [(SaveRecord bid [] (unknown_metadata (uuid_source st (uuid_count st))), i)]) \<and>
      md_identifier (unknown_metadata (uuid_source st (uuid_count st)))
        = prov_qn (''Unknown-'' @ uuid_source st (uuid_count st)) \<and>
      q = Some (prov_qn (''Unknown-'' @ uuid_source st (uuid_count st))) \<and>
      uuid_count st' = Suc (uuid_count st)"
    using create_unknown_node_Inr[of ad bid st q st'] by (simp add: unknown_metadata_def)
  have p2: "formal_from rel = None \<and> formal_to rel = None \<and>
    create_relation ad fb tb rel st = Inr (i, st') \<and>
    uuid_source st (uuid_count st) \<noteq> uuid_source st (Suc (uuid_count st)) \<longrightarrow>
      (\<exists>j k attrs md u1 u2.
         new_calls st st' =
           [(SaveRecord fb [] (unknown_metadata u1), j),
            (SaveRecord tb [] (unknown_metadata u2), k),
            (SaveRelation fb (Some (prov_qn (''Unknown-'' @ u1))) tb
               (Some (prov_qn (''Unknown-'' @ u2))) attrs md, i)] \<and>
         u1 \<noteq> u2 \<and>
         prov_qn (''Unknown-'' @ u1) \<noteq> prov_qn (''Unknown-'' @ u2) \<and>
         \<not> qn_eq (prov_qn (''Unknown-'' @ u1)) (prov_qn (''Unknown-'' @ u2)))"
  proof
    assume a: "formal_from rel = None \<and> formal_to rel = None \<and>
      create_relation ad fb tb rel st = Inr (i, st') \<and>
      uuid_source st (uuid_count st) \<noteq> uuid_source st (Suc (uuid_count st))"
    let ?u1 = "uuid_source st (uuid_count st)" and ?u2 = "uuid_source st (Suc (uuid_count st))"
    from a have r: "create_relation ad fb tb rel st = Inr (i, st')" by simp
    from create_relation_Inr[OF r] obtain pf pt fq tq md attrs where
      nc: "new_calls st st' = pf @ pt @ [(SaveRelation fb fq tb tq attrs md, i)]"
      and F: "case formal_from rel of
          Some q \<Rightarrow> pf = [] \<and> fq = Some q
        | None \<Rightarrow> (\<exists>j. pf = [(placeholder_call st 0 fb, j)]) \<and> fq = Some (placeholder_identifier st 0)"
      and T: "case formal_to rel of
          Some q \<Rightarrow> pt = [] \<and> tq = Some q
        | None \<Rightarrow>
            (\<exists>k. pt = [(placeholder_call st (if formal_from rel = None then 1 else 0) tb, k)]) \<and>
            tq = Some (placeholder_identifier st (if formal_from rel = None then 1 else 0))"
      by blast
    from F a obtain j where pf: "pf = [(SaveRecord fb [] (unknown_metadata ?u1), j)]"
      and fq: "fq = Some (prov_qn (''Unknown-'' @ ?u1))"
      by (auto simp: placeholder_call_def placeholder_identifier_def)
    from T a obtain k where pt: "pt = [(SaveRecord tb [] (unknown_metadata ?u2), k)]"
      and tq: "tq = Some (prov_qn (''Unknown-'' @ ?u2))"
      by (auto simp: placeholder_call_def placeholder_identifier_def)
    have 1: "new_calls st st' =
           [(SaveRecord fb [] (unknown_metadata ?u1), j),
            (SaveRecord tb [] (unknown_metadata ?u2), k),
            (SaveRelation fb (Some (prov_qn (''Unknown-'' @ ?u1))) tb
               (Some (prov_qn (''Unknown-'' @ ?u2))) attrs md, i)]"
      unfolding nc pf pt fq tq by simp
    from a have 2: "?u1 \<noteq> ?u2" by simp
    then have 3: "prov_qn (''Unknown-'' @ ?u1) \<noteq> prov_qn (''Unknown-'' @ ?u2)"
      by (simp add: prov_qn_inject)
    from 2 have 4: "\<not> qn_eq (prov_qn (''Unknown-'' @ ?u1)) (prov_qn (''Unknown-'' @ ?u2))"
      by (intro prov_qn_not_eq) simp
    show "\<exists>j k attrs md u1 u2.
         new_calls st st' =
           [(SaveRecord fb [] (unknown_metadata u1), j),
            (SaveRecord tb [] (unknown_metadata u2), k),
            (SaveRelation fb (Some (prov_qn (''Unknown-'' @ u1))) tb
               (Some (prov_qn (''Unknown-'' @ u2))) attrs md, i)] \<and>
         u1 \<noteq> u2 \<and>
         prov_qn (''Unknown-'' @ u1) \<noteq> prov_qn (''Unknown-'' @ u2) \<and>
         \<not> qn_eq (prov_qn (''Unknown-'' @ u1)) (prov_qn (''Unknown-'' @ u2))"
      by (rule exI[of _ j], rule exI[of _ k], rule exI[of _ attrs], rule exI[of _ md],
          rule exI[of _ ?u1], rule exI[of _ ?u2])
         (use 1 2 3 4 in blast)
  qed
  from p1 p2 show ?thesis by (rule conjI)
qed

lemma open_influence_extract:
  "\<exists>md attrs. get_metadata_and_attributes_for_record (Record open_influence) = Inr (md, attrs)"
proof -
  have i: "valid_qualified_name (rec_bundle open_influence) (declared_identifier open_influence)
             = Some (prov_qn ''Influence'')"
    by (simp add: declared_identifier_def record_type_def open_influence_def vqn_qname)
  have d: "py_dict (rec_attributes open_influence) = []"
    by (simp add: open_influence_def py_dict_def)
  show ?thesis
    unfolding extract_record i d by (simp add: Let_def)
qed

theorem placeholders_are_fresh_witness:
  "\<exists>i st' j k attrs md u1 u2.
     create_relation (counting_adapter no_document) (VStr ''b'') (VStr ''c'') open_influence
       initial_state = Inr (i, st') \<and>
     new_calls initial_state st' =
       [(SaveRecord (VStr ''b'') [] (unknown_metadata u1), j),
        (SaveRecord (VStr ''c'') [] (unknown_metadata u2), k),
        (SaveRelation (VStr ''b'') (Some (prov_qn (''Unknown-'' @ u1))) (VStr ''c'')
           (Some (prov_qn (''Unknown-'' @ u2))) attrs md, i)] \<and>
     u1 \<noteq> u2"
proof -
  obtain md attrs where
    e: "get_metadata_and_attributes_for_record (Record open_influence) = Inr (md, attrs)"
    using open_influence_extract by blast
  have t: "formal_to open_influence = None" and f: "formal_from open_influence = None"
    by (simp_all add: open_influence_def)
  obtain i st' where
    r: "create_relation (counting_adapter no_document) (VStr ''b'') (VStr ''c'') open_influence
          initial_state = Inr (i, st')"
    unfolding create_relation_def t f option.case counting_adapter_unknown_node sum.case prod.case e
      counting_adapter_save_relation
    by simp
  have u: "uuid_source initial_state (uuid_count initial_state)
             \<noteq> uuid_source initial_state (Suc (uuid_count initial_state))"
    by (simp add: initial_state_def)
  from placeholders_are_fresh[where rel = open_influence
      and ad = "counting_adapter no_document" and fb = "VStr ''b''" and tb = "VStr ''c''"
      and st = initial_state and i = i and st' = st'] f t r u
  obtain j k attrs' md' u1 u2 where
    "new_calls initial_state st' =
           [(SaveRecord (VStr ''b'') [] (unknown_metadata u1), j),
            (SaveRecord (VStr ''c'') [] (unknown_metadata u2), k),
            (SaveRelation (VStr ''b'') (Some (prov_qn (''Unknown-'' @ u1))) (VStr ''c'')
               (Some (prov_qn (''Unknown-'' @ u2))) attrs' md', i)]"
    and "u1 \<noteq> u2"
    by blast
  with r show ?thesis by blast
qed

section \<open>Bundle-membership edges\<close>

lemma not_in_prov_attributes_label: "\<not> in_prov_attributes (VQName PROV_LABEL)"
  by (simp add: in_prov_attributes_def PROV_ATTRIBUTES_def PROV_LABEL_def qn_eq_def qn_uri_def
        prov_qn_def)

lemma extract_belong_relation:
  "get_metadata_and_attributes_for_record (Record (belong_relation b))
     = Inr (membership_metadata, membership_attributes)"
proof -
  have i: "valid_qualified_name (rec_bundle (belong_relation b))
             (declared_identifier (belong_relation b)) = Some PROV_ASSOCIATION"
    by (simp add: declared_identifier_def record_type_def belong_relation_def vqn_qname)
  have d: "py_dict (rec_attributes (belong_relation b)) = membership_attributes"
    by (simp add: belong_relation_def py_dict_def membership_attributes_def)
  have v: "valid_qualified_name nss (VStr ''belongsToBundle'') = None" for nss
    by (simp add: valid_qualified_name_def)
  have t: "create_type_dict membership_attributes = []"
    by (simp add: create_type_dict_def membership_attributes_def not_in_prov_attributes_label)
  have r: "record_type (belong_relation b) = PROV_ASSOCIATION"
    by (simp add: record_type_def belong_relation_def)
  show ?thesis
    unfolding extract_record i d t r option.case
    by (simp add: membership_attributes_def v membership_metadata_def add_namespace_def
          PROV_ASSOCIATION_def PROV_LABEL_def prov_qn_def PROV_def)
qed

lemma membership_edge_skipped:
  "parse_record rb (stored_record membership_attributes md) = Inr rb"
proof -
  have "skipped_label (raw_attributes (stored_record membership_attributes md))"
    by (simp add: skipped_label_def stored_record_def membership_attributes_def str_key_def
          PROV_LABEL_def str_qname_prov)
  then show ?thesis by (simp add: parse_record_cases is_skipped_def)
qed

lemma create_associations_Inr:
  "create_associations ad document_id bundle_id to_qn belong_attrs belong_md rs st = Inr st' \<Longrightarrow>
   extends st st' \<and>
   list_all2 (\<lambda>r ci. \<exists>md attrs.
        get_metadata_and_attributes_for_record (Record r) = Inr (md, attrs) \<and>
        fst ci = SaveRelation bundle_id (Some (md_identifier md)) document_id to_qn
                   belong_attrs belong_md)
     rs (new_calls st st')"
proof (induction rs arbitrary: st)
  case Nil
  then show ?case by (simp add: extends_refl new_calls_refl)
next
  case (Cons r rs)
  from Cons.prems obtain md attrs i st1 where
    e: "get_metadata_and_attributes_for_record (Record r) = Inr (md, attrs)"
    and s: "adapter_save_relation ad bundle_id (Some (md_identifier md)) document_id to_qn
              belong_attrs belong_md st = Inr (i, st1)"
    and r: "create_associations ad document_id bundle_id to_qn belong_attrs belong_md rs st1 = Inr st'"
    by (auto split: sum.splits)
  from s have S: "extends st st1 \<and> new_calls st st1 =
      [(SaveRelation bundle_id (Some (md_identifier md)) document_id to_qn belong_attrs belong_md, i)]"
    unfolding adapter_save_relation_def using issue_Inr by blast
  from Cons.IH[OF r] have R: "extends st1 st'" and L: "list_all2 (\<lambda>r ci. \<exists>md attrs.
        get_metadata_and_attributes_for_record (Record r) = Inr (md, attrs) \<and>
        fst ci = SaveRelation bundle_id (Some (md_identifier md)) document_id to_qn
                   belong_attrs belong_md) rs (new_calls st1 st')"
    by simp_all
  from S R have E: "extends st st'" by (blast intro: extends_trans)
  have N: "new_calls st st' =
      (SaveRelation bundle_id (Some (md_identifier md)) document_id to_qn belong_attrs belong_md, i)
        # new_calls st1 st'"
    using new_calls_trans[of st st1 st'] S R by simp
  from E L e show ?case unfolding N by auto
qed

lemma create_bundle_association_Inr:
  assumes "create_bundle_association ad document_id bundle_id bundle_ident b st = Inr st'"
  shows "extends st st' \<and>
   list_all2 (\<lambda>r ci. \<exists>md attrs.
        get_metadata_and_attributes_for_record (Record r) = Inr (md, attrs) \<and>
        fst ci = SaveRelation bundle_id (Some (md_identifier md)) document_id bundle_ident
                   membership_attributes membership_metadata)
     (get_records ProvElement (bundle_records b)) (new_calls st st')"
  using assms unfolding create_bundle_association_def extract_belong_relation sum.case prod.case
  by (rule create_associations_Inr)

lemma extract_entity1:
  "get_metadata_and_attributes_for_record (Record entity1) = Inr (entity_metadata ''e1'', [])"
  unfolding extract_record
  by (simp add: declared_identifier_def record_type_def entity1_def vqn_qname py_dict_def
        entity_metadata_def create_type_dict_def add_namespace_def prov_qn_def PROV_def ex_qn_def
        EXAMPLE_NS_def)

lemma extract_noted_entity:
  "get_metadata_and_attributes_for_record (Record noted_entity)
     = Inr (noted_entity_metadata, rec_attributes noted_entity)"
proof -
  have v: "valid_qualified_name nss (VStr ''belongsToBundle'') = None" for nss
    by (simp add: valid_qualified_name_def)
  have n: "\<not> in_prov_attributes (VQName (ex_qn ''note''))"
    by (simp add: in_prov_attributes_def PROV_ATTRIBUTES_def qn_eq_def qn_uri_def
        prov_qn_def ex_qn_def PROV_def EXAMPLE_NS_def)
  show ?thesis
    unfolding extract_record
    by (simp add: declared_identifier_def record_type_def noted_entity_def vqn_qname py_dict_def
        noted_entity_metadata_def create_type_dict_def add_namespace_def prov_qn_def PROV_def ex_qn_def
        EXAMPLE_NS_def v n[unfolded ex_qn_def EXAMPLE_NS_def])
qed

lemma skipped_label_skipped:
  "skipped_label (raw_attributes raw) \<Longrightarrow> parse_record rb raw = Inr rb"
  by (simp add: parse_record_cases is_skipped_def)

lemma get_document_single:
  assumes "parse_record \<lparr>restored_name = None, restored_namespaces = [], restored_records = []\<rparr> raw
             = Inr b"
  shows "get_document_as_prov (counting_adapter \<lparr>document_records = [raw], raw_bundles = []\<rparr>)
           (VStr i) st = Inr \<lparr>restored_top = b, restored_bundles = []\<rparr>"
  by (simp add: get_document_as_prov_def counting_adapter_def assms)

lemma read_noted_entity:
  "get_document_as_prov
     (counting_adapter stored_noted_document)
     (VStr ''id'') initial_state
   = Inr \<lparr>restored_top =
            \<lparr>restored_name = None, restored_namespaces = [PROV, EXAMPLE_NS],
             restored_records =
               [\<lparr>restored_type = Some (prov_qn ''Entity''),
                 restored_identifier = VQName (ex_qn ''e1''),
                 restored_attributes = [(VQName (ex_qn ''note''), VStr ''belongsToBundle'')]\<rparr>]\<rparr>,
          restored_bundles = []\<rparr>"
proof -
  let ?raw = "stored_record [(VQName (ex_qn ''note''), VStr ''belongsToBundle'')] noted_entity_metadata"
  let ?b0 = "\<lparr>restored_name = None, restored_namespaces = [], restored_records = []\<rparr>"
  have t: "stored_type ?b0 ?raw = Some (prov_qn ''Entity'')"
    by (rule stored_record_prov_type) (simp add: noted_entity_metadata_def)
  have i: "stored_identifier ?b0 ?raw = None"
    by (simp add: stored_identifier_def stored_record_def noted_entity_metadata_def str_qname_def
          ex_qn_def EXAMPLE_NS_def valid_qualified_name_def DEFAULT_NAMESPACES_def PROV_def XSD_def
          XSI_def starts_with_def)
  have a: "raw_attributes ?raw = [(''ex:note'', VStr ''belongsToBundle'')]"
    by (simp add: stored_record_def str_key_def str_qname_def ex_qn_def EXAMPLE_NS_def)
  have s: "\<not> is_skipped ?b0 ?raw"
    unfolding is_skipped_def t a
    by (simp add: skipped_label_def PROV_UNKNOWN_def prov_qn_inject)
  have m: "raw_meta ?raw = \<lparr>raw_type = ''prov:Entity'', raw_identifier = ''ex:e1'',
      raw_namespaces = [(''prov'', ''http://www.w3.org/ns/prov#''), (''ex'', ''http://example.org/'')],
      raw_type_map = TypeMapDict []\<rparr>"
    by (simp add: stored_record_def noted_entity_metadata_def str_qname_def prov_qn_def PROV_def
          ex_qn_def EXAMPLE_NS_def)
  have v: "valid_qualified_name [PROV, EXAMPLE_NS] (VStr ''ex:e1'') = Some (ex_qn ''e1'')"
    "valid_qualified_name [PROV, EXAMPLE_NS] (VStr ''ex:note'') = Some (ex_qn ''note'')"
    by (simp_all add: valid_qualified_name_def DEFAULT_NAMESPACES_def PROV_def XSD_def XSI_def
          EXAMPLE_NS_def ex_qn_def)
  have p: "parse_record ?b0 ?raw =
      Inr \<lparr>restored_name = None, restored_namespaces = [PROV, EXAMPLE_NS],
             restored_records =
               [\<lparr>restored_type = Some (prov_qn ''Entity''),
                 restored_identifier = VQName (ex_qn ''e1''),
                 restored_attributes = [(VQName (ex_qn ''note''), VStr ''belongsToBundle'')]\<rparr>]\<rparr>"
    unfolding parse_record_cases using s
    by (simp add: t i a m type_map_of_def create_prov_record_def add_namespaces_to_bundle_def
          restored_key_def decode_json_representation_def v[unfolded PROV_def EXAMPLE_NS_def]
          PROV_def EXAMPLE_NS_def)
  from p show ?thesis unfolding stored_noted_document_def by (rule get_document_single)
qed

lemma extract_aliased_label_entity:
  "get_metadata_and_attributes_for_record (Record aliased_label_entity)
     = Inr (aliased_label_metadata,
            [(VQName \<lparr>qn_namespace = ALIAS_NS, localpart = ''label''\<rparr>, VStr ''belongsToBundle'')])"
proof -
  have v: "valid_qualified_name nss (VStr ''belongsToBundle'') = None" for nss
    by (simp add: valid_qualified_name_def)
  have n: "\<not> in_prov_attributes (VQName \<lparr>qn_namespace = ALIAS_NS, localpart = ''label''\<rparr>)"
    by (simp add: in_prov_attributes_def PROV_ATTRIBUTES_def qn_eq_def qn_uri_def
        prov_qn_def ALIAS_NS_def PROV_def)
  show ?thesis
    unfolding extract_record
    by (simp add: declared_identifier_def record_type_def aliased_label_entity_def vqn_qname
        py_dict_def aliased_label_metadata_def create_type_dict_def add_namespace_def prov_qn_def
        PROV_def ex_qn_def EXAMPLE_NS_def v n[unfolded ALIAS_NS_def] ALIAS_NS_def)
qed

lemma read_aliased_label_entity:
  "get_document_as_prov
     (counting_adapter stored_aliased_document)
     (VStr ''id'') initial_state
   = Inr \<lparr>restored_top =
            \<lparr>restored_name = None, restored_namespaces = [PROV, EXAMPLE_NS, ALIAS_NS],
             restored_records =
               [\<lparr>restored_type = Some (prov_qn ''Entity''),
                 restored_identifier = VQName (ex_qn ''e1''),
                 restored_attributes =
                   [(VQName \<lparr>qn_namespace = ALIAS_NS, localpart = ''label''\<rparr>,
                     VStr ''belongsToBundle'')]\<rparr>]\<rparr>,
          restored_bundles = []\<rparr>"
proof -
  let ?raw = "stored_record
      [(VQName \<lparr>qn_namespace = ALIAS_NS, localpart = ''label''\<rparr>, VStr ''belongsToBundle'')]
      aliased_label_metadata"
  let ?b0 = "\<lparr>restored_name = None, restored_namespaces = [], restored_records = []\<rparr>"
  have t: "stored_type ?b0 ?raw = Some (prov_qn ''Entity'')"
    by (rule stored_record_prov_type) (simp add: aliased_label_metadata_def)
  have i: "stored_identifier ?b0 ?raw = None"
    by (simp add: stored_identifier_def stored_record_def aliased_label_metadata_def str_qname_def
          ex_qn_def EXAMPLE_NS_def valid_qualified_name_def DEFAULT_NAMESPACES_def PROV_def XSD_def
          XSI_def starts_with_def)
  have a: "raw_attributes ?raw = [(''p:label'', VStr ''belongsToBundle'')]"
    by (simp add: stored_record_def str_key_def str_qname_def ALIAS_NS_def)
  have s: "\<not> is_skipped ?b0 ?raw"
    unfolding is_skipped_def t a
    by (simp add: skipped_label_def PROV_UNKNOWN_def prov_qn_inject)
  have m: "raw_meta ?raw = \<lparr>raw_type = ''prov:Entity'', raw_identifier = ''ex:e1'',
      raw_namespaces = [(''prov'', ''http://www.w3.org/ns/prov#''), (''ex'', ''http://example.org/''),
                        (''p'', ''http://www.w3.org/ns/prov#'')],
      raw_type_map = TypeMapDict []\<rparr>"
    by (simp add: stored_record_def aliased_label_metadata_def str_qname_def prov_qn_def PROV_def
          ex_qn_def EXAMPLE_NS_def)
  have v: "valid_qualified_name [PROV, EXAMPLE_NS, ALIAS_NS] (VStr ''ex:e1'') = Some (ex_qn ''e1'')"
    "valid_qualified_name [PROV, EXAMPLE_NS, ALIAS_NS] (VStr ''p:label'')
       = Some \<lparr>qn_namespace = ALIAS_NS, localpart = ''label''\<rparr>"
    by (simp_all add: valid_qualified_name_def DEFAULT_NAMESPACES_def PROV_def XSD_def XSI_def
          EXAMPLE_NS_def ALIAS_NS_def ex_qn_def)
  have p: "parse_record ?b0 ?raw =
      Inr \<lparr>restored_name = None, restored_namespaces = [PROV, EXAMPLE_NS, ALIAS_NS],
             restored_records =
               [\<lparr>restored_type = Some (prov_qn ''Entity''),
                 restored_identifier = VQName (ex_qn ''e1''),
                 restored_attributes =
                   [(VQName \<lparr>qn_namespace = ALIAS_NS, localpart = ''label''\<rparr>,
                     VStr ''belongsToBundle'')]\<rparr>]\<rparr>"
    unfolding parse_record_cases using s
    by (simp add: t[unfolded ALIAS_NS_def] i[unfolded ALIAS_NS_def] a[unfolded ALIAS_NS_def]
          m[unfolded ALIAS_NS_def] type_map_of_def create_prov_record_def
          add_namespaces_to_bundle_def restored_key_def decode_json_representation_def
          v[unfolded PROV_def EXAMPLE_NS_def ALIAS_NS_def] PROV_def EXAMPLE_NS_def ALIAS_NS_def)
  from p show ?thesis unfolding stored_aliased_document_def by (rule get_document_single)
qed

text \<open>
  C4, as the claim states it, fails: the reconstructor looks only at what is stored under
  the key \<^verbatim>\<open>prov:label\<close>, the string. An entity with the attribute \<^verbatim>\<open>ex:note\<close> of value
  \<^verbatim>\<open>belongsToBundle\<close> is stored with that attribute, and the document read back from what
  was stored has a record with an attribute equal to \<^verbatim>\<open>belongsToBundle\<close>. So has the
  document read back for an entity whose attribute is the label of the PROV namespace
  written with another prefix, \<^verbatim>\<open>p:label\<close>: its key is stored as \<^verbatim>\<open>p:label\<close>, and the record
  read back has the attribute \<^verbatim>\<open>prov:label\<close>, as qualified names compare, with that value.
\<close>

theorem membership_value_counterexample:
  "get_metadata_and_attributes_for_record (Record noted_entity)
     = Inr (noted_entity_metadata, [(VQName (ex_qn ''note''), VStr ''belongsToBundle'')]) \<and>
   get_document_as_prov
     (counting_adapter stored_noted_document)
     (VStr ''id'') initial_state
   = Inr \<lparr>restored_top =
            \<lparr>restored_name = None, restored_namespaces = [PROV, EXAMPLE_NS],
             restored_records =
               [\<lparr>restored_type = Some (prov_qn ''Entity''),
                 restored_identifier = VQName (ex_qn ''e1''),
                 restored_attributes = [(VQName (ex_qn ''note''), VStr ''belongsToBundle'')]\<rparr>]\<rparr>,
          restored_bundles = []\<rparr> \<and>
   get_metadata_and_attributes_for_record (Record aliased_label_entity)
     = Inr (aliased_label_metadata,
            [(VQName \<lparr>qn_namespace = ALIAS_NS, localpart = ''label''\<rparr>, VStr ''belongsToBundle'')]) \<and>
   get_document_as_prov
     (counting_adapter stored_aliased_document)
     (VStr ''id'') initial_state
   = Inr \<lparr>restored_top =
            \<lparr>restored_name = None, restored_namespaces = [PROV, EXAMPLE_NS, ALIAS_NS],
             restored_records =
               [\<lparr>restored_type = Some (prov_qn ''Entity''),
                 restored_identifier = VQName (ex_qn ''e1''),
                 restored_attributes =
                   [(VQName \<lparr>qn_namespace = ALIAS_NS, localpart = ''label''\<rparr>,
                     VStr ''belongsToBundle'')]\<rparr>]\<rparr>,
          restored_bundles = []\<rparr> \<and>
   py_eq (VQName \<lparr>qn_namespace = ALIAS_NS, localpart = ''label''\<rparr>) (VQName PROV_LABEL)"
proof -
  have 1: "get_metadata_and_attributes_for_record (Record noted_entity)
     = Inr (noted_entity_metadata, [(VQName (ex_qn ''note''), VStr ''belongsToBundle'')])"
    using extract_noted_entity by (simp add: noted_entity_def)
  have 5: "py_eq (VQName \<lparr>qn_namespace = ALIAS_NS, localpart = ''label''\<rparr>) (VQName PROV_LABEL)"
    by (simp add: qn_eq_def qn_uri_def ALIAS_NS_def PROV_LABEL_def prov_qn_def PROV_def)
  from 1 read_noted_entity extract_aliased_label_entity read_aliased_label_entity 5
  show ?thesis by (intro conjI)
qed

text \<open>
  C4, amended. Every record of a reconstructed document is rebuilt from a raw record of
  what the adapter returned that does not have \<^verbatim>\<open>belongsToBundle\<close> stored under the key
  \<^verbatim>\<open>prov:label\<close>: the reconstructor skips every raw record that has it. The calls of
  \<^verbatim>\<open>_create_bundle_association\<close> are one \<^verbatim>\<open>save_relation\<close> for each element of the bundle, from
  the bundle's container to the document's, all with the attribute \<^verbatim>\<open>prov:label\<close> of value
  \<^verbatim>\<open>belongsToBundle\<close>, and the reconstructor skips what was stored for each of them.
\<close>

theorem membership_edges_invisible:
  "(get_document_as_prov ad document_id st0 = Inr d \<longrightarrow>
      (\<exists>i raw_doc. document_id = VStr i \<and> get_document ad i (db st0) = Inr raw_doc \<and>
         (\<forall>r \<in> set (all_restored_records d).
            \<exists>raw \<in> set (all_raw_records raw_doc). rebuilt_from raw r \<and>
               map_of (raw_attributes raw) ''prov:label'' \<noteq> Some (VStr ''belongsToBundle'')))) \<and>
   (map_of (raw_attributes raw) ''prov:label'' = Some (VStr ''belongsToBundle'')
      \<longrightarrow> parse_record rb raw = Inr rb) \<and>
   (create_bundle_association ad doc_id bundle_id bundle_ident b st = Inr st' \<longrightarrow>
      length (new_calls st st') = length (get_records ProvElement (bundle_records b)) \<and>
      (\<forall>ci \<in> set (new_calls st st').
         (\<exists>fq md. fst ci = SaveRelation bundle_id fq doc_id bundle_ident
                            [(VQName PROV_LABEL, VStr ''belongsToBundle'')] md \<and>
            (\<forall>rb. parse_record rb
                    (stored_record [(VQName PROV_LABEL, VStr ''belongsToBundle'')] md) = Inr rb))))"
proof -
  have p1: "get_document_as_prov ad document_id st0 = Inr d \<longrightarrow>
      (\<exists>i raw_doc. document_id = VStr i \<and> get_document ad i (db st0) = Inr raw_doc \<and>
         (\<forall>r \<in> set (all_restored_records d).
            \<exists>raw \<in> set (all_raw_records raw_doc). rebuilt_from raw r \<and>
               map_of (raw_attributes raw) ''prov:label'' \<noteq> Some (VStr ''belongsToBundle'')))"
  proof
    assume "get_document_as_prov ad document_id st0 = Inr d"
    from get_document_as_prov_kept[OF this] obtain i raw_doc where
      i: "document_id = VStr i" and g: "get_document ad i (db st0) = Inr raw_doc"
      and k: "\<forall>r \<in> set (all_restored_records d). kept (all_raw_records raw_doc) r"
      by blast
    from k have "\<forall>r \<in> set (all_restored_records d).
            \<exists>raw \<in> set (all_raw_records raw_doc). rebuilt_from raw r \<and>
               map_of (raw_attributes raw) ''prov:label'' \<noteq> Some (VStr ''belongsToBundle'')"
      unfolding kept_def skipped_label_def by blast
    with i g show "\<exists>i raw_doc. document_id = VStr i \<and> get_document ad i (db st0) = Inr raw_doc \<and>
         (\<forall>r \<in> set (all_restored_records d).
            \<exists>raw \<in> set (all_raw_records raw_doc). rebuilt_from raw r \<and>
               map_of (raw_attributes raw) ''prov:label'' \<noteq> Some (VStr ''belongsToBundle''))"
      by blast
  qed
  have p2: "map_of (raw_attributes raw) ''prov:label'' = Some (VStr ''belongsToBundle'')
      \<longrightarrow> parse_record rb raw = Inr rb"
    using skipped_label_skipped[of raw rb] by (simp add: skipped_label_def)
  have p3: "create_bundle_association ad doc_id bundle_id bundle_ident b st = Inr st' \<longrightarrow>
      length (new_calls st st') = length (get_records ProvElement (bundle_records b)) \<and>
      (\<forall>ci \<in> set (new_calls st st').
         (\<exists>fq md. fst ci = SaveRelation bundle_id fq doc_id bundle_ident
                            [(VQName PROV_LABEL, VStr ''belongsToBundle'')] md \<and>
            (\<forall>rb. parse_record rb
                    (stored_record [(VQName PROV_LABEL, VStr ''belongsToBundle'')] md) = Inr rb)))"
  proof
    assume "create_bundle_association ad doc_id bundle_id bundle_ident b st = Inr st'"
    from create_bundle_association_Inr[OF this]
    have L: "list_all2 (\<lambda>r ci. \<exists>md attrs.
        get_metadata_and_attributes_for_record (Record r) = Inr (md, attrs) \<and>
        fst ci = SaveRelation bundle_id (Some (md_identifier md)) doc_id bundle_ident
                   membership_attributes membership_metadata)
     (get_records ProvElement (bundle_records b)) (new_calls st st')"
      by simp
    have len: "length (new_calls st st') = length (get_records ProvElement (bundle_records b))"
      using L by (simp add: list_all2_lengthD)
    have each: "\<exists>fq md. fst ci = SaveRelation bundle_id fq doc_id bundle_ident
                            [(VQName PROV_LABEL, VStr ''belongsToBundle'')] md \<and>
            (\<forall>rb. parse_record rb
                    (stored_record [(VQName PROV_LABEL, VStr ''belongsToBundle'')] md) = Inr rb)"
      if "ci \<in> set (new_calls st st')" for ci
    proof -
      from that L obtain md :: metadata where
        "fst ci = SaveRelation bundle_id (Some (md_identifier md)) doc_id bundle_ident
                   membership_attributes membership_metadata"
        by (auto simp: list_all2_conv_all_nth in_set_conv_nth)
      then show ?thesis
        using membership_edge_skipped by (auto simp: membership_attributes_def)
    qed
    from len each
    show "length (new_calls st st') = length (get_records ProvElement (bundle_records b)) \<and>
      (\<forall>ci \<in> set (new_calls st st').
         (\<exists>fq md. fst ci = SaveRelation bundle_id fq doc_id bundle_ident
                            [(VQName PROV_LABEL, VStr ''belongsToBundle'')] md \<and>
            (\<forall>rb. parse_record rb
                    (stored_record [(VQName PROV_LABEL, VStr ''belongsToBundle'')] md) = Inr rb)))"
      by blast
  qed
  from p1 p2 p3 show ?thesis by (intro conjI)
qed

theorem membership_edges_invisible_witness:
  "get_document_as_prov
     (counting_adapter stored_noted_document)
     (VStr ''id'') initial_state
   = Inr \<lparr>restored_top =
            \<lparr>restored_name = None, restored_namespaces = [PROV, EXAMPLE_NS],
             restored_records =
               [\<lparr>restored_type = Some (prov_qn ''Entity''),
                 restored_identifier = VQName (ex_qn ''e1''),
                 restored_attributes = [(VQName (ex_qn ''note''), VStr ''belongsToBundle'')]\<rparr>]\<rparr>,
          restored_bundles = []\<rparr> \<and>
   rebuilt_from
     (stored_record [(VQName (ex_qn ''note''), VStr ''belongsToBundle'')] noted_entity_metadata)
     \<lparr>restored_type = Some (prov_qn ''Entity''),
      restored_identifier = VQName (ex_qn ''e1''),
      restored_attributes = [(VQName (ex_qn ''note''), VStr ''belongsToBundle'')]\<rparr> \<and>
   map_of (raw_attributes (stored_record membership_attributes membership_metadata)) ''prov:label''
     = Some (VStr ''belongsToBundle'') \<and>
   parse_record empty_bundle (stored_record membership_attributes membership_metadata)
     = Inr empty_bundle \<and>
   (\<exists>st' i.
     create_bundle_association (counting_adapter stored_noted_document) (VStr ''doc'') (VStr ''b'')
       (Some (prov_qn ''bundle:ex:b1'')) bundle_of_entity1 initial_state = Inr st' \<and>
     new_calls initial_state st' =
       [(SaveRelation (VStr ''b'') (Some (ex_qn ''e1'')) (VStr ''doc'') (Some (prov_qn ''bundle:ex:b1''))
           [(VQName PROV_LABEL, VStr ''belongsToBundle'')] membership_metadata, i)] \<and>
     parse_record empty_bundle
       (stored_record [(VQName PROV_LABEL, VStr ''belongsToBundle'')] membership_metadata)
       = Inr empty_bundle)"
proof -
  let ?raw = "stored_record [(VQName (ex_qn ''note''), VStr ''belongsToBundle'')] noted_entity_metadata"
  let ?rec = "\<lparr>restored_type = Some (prov_qn ''Entity''),
      restored_identifier = VQName (ex_qn ''e1''),
      restored_attributes = [(VQName (ex_qn ''note''), VStr ''belongsToBundle'')]\<rparr>"
  let ?ad = "counting_adapter stored_noted_document"
  let ?mraw = "stored_record membership_attributes membership_metadata"
  have g: "get_records ProvElement (bundle_records bundle_of_entity1) = [entity1]"
    by (simp add: get_records_def bundle_of_entity1_def entity1_def)
  obtain st' where
    r: "create_bundle_association (counting_adapter stored_noted_document) (VStr ''doc'') (VStr ''b'')
       (Some (prov_qn ''bundle:ex:b1'')) bundle_of_entity1 initial_state = Inr st'"
    and c: "calls st' = calls initial_state @
       [(SaveRelation (VStr ''b'') (Some (ex_qn ''e1'')) (VStr ''doc'') (Some (prov_qn ''bundle:ex:b1''))
           membership_attributes membership_metadata, fresh_id (db initial_state))]"
    unfolding create_bundle_association_def extract_belong_relation sum.case prod.case g
      create_associations.simps extract_entity1 counting_adapter_save_relation
    by (simp add: entity_metadata_def)
  from c have n: "new_calls initial_state st' =
       [(SaveRelation (VStr ''b'') (Some (ex_qn ''e1'')) (VStr ''doc'') (Some (prov_qn ''bundle:ex:b1''))
           [(VQName PROV_LABEL, VStr ''belongsToBundle'')] membership_metadata, fresh_id (db initial_state))]"
    unfolding membership_attributes_def by (rule new_calls_eqI)
  have l: "map_of (raw_attributes ?mraw) ''prov:label'' = Some (VStr ''belongsToBundle'')"
    by (simp add: stored_record_def membership_attributes_def str_key_def PROV_LABEL_def
          str_qname_prov)
  let ?d = "\<lparr>restored_top =
                   \<lparr>restored_name = None, restored_namespaces = [PROV, EXAMPLE_NS],
                    restored_records = [?rec]\<rparr>,
                 restored_bundles = []\<rparr>"
  note T = membership_edges_invisible[of ?ad "VStr ''id''" initial_state ?d ?mraw empty_bundle
      "VStr ''doc''" "VStr ''b''" "Some (prov_qn ''bundle:ex:b1'')" bundle_of_entity1
      initial_state st']
  from T read_noted_entity obtain i raw_doc where
    g: "get_document ?ad i (db initial_state) = Inr raw_doc"
    and a: "\<forall>r \<in> set (all_restored_records ?d).
            \<exists>raw \<in> set (all_raw_records raw_doc). rebuilt_from raw r \<and>
               map_of (raw_attributes raw) ''prov:label'' \<noteq> Some (VStr ''belongsToBundle'')"
    by blast
  from g have "raw_doc = \<lparr>document_records = [?raw], raw_bundles = []\<rparr>"
    by (simp add: counting_adapter_def stored_noted_document_def)
  with a have 2: "rebuilt_from ?raw ?rec"
    by (simp add: all_restored_records_def all_raw_records_def)
  from T l have 4: "parse_record empty_bundle ?mraw = Inr empty_bundle" by blast
  from T r
  have "\<forall>ci \<in> set (new_calls initial_state st').
         (\<exists>fq md. fst ci = SaveRelation (VStr ''b'') fq (VStr ''doc'') (Some (prov_qn ''bundle:ex:b1''))
                            [(VQName PROV_LABEL, VStr ''belongsToBundle'')] md \<and>
            (\<forall>rb. parse_record rb
                    (stored_record [(VQName PROV_LABEL, VStr ''belongsToBundle'')] md) = Inr rb))"
    by blast
  then have "parse_record empty_bundle
       (stored_record [(VQName PROV_LABEL, VStr ''belongsToBundle'')] membership_metadata)
       = Inr empty_bundle"
    unfolding n by simp
  with r n have 5: "\<exists>st' i.
     create_bundle_association (counting_adapter stored_noted_document) (VStr ''doc'') (VStr ''b'')
       (Some (prov_qn ''bundle:ex:b1'')) bundle_of_entity1 initial_state = Inr st' \<and>
     new_calls initial_state st' =
       [(SaveRelation (VStr ''b'') (Some (ex_qn ''e1'')) (VStr ''doc'') (Some (prov_qn ''bundle:ex:b1''))
           [(VQName PROV_LABEL, VStr ''belongsToBundle'')] membership_metadata, i)] \<and>
     parse_record empty_bundle
       (stored_record [(VQName PROV_LABEL, VStr ''belongsToBundle'')] membership_metadata)
       = Inr empty_bundle"
    by blast
  from read_noted_entity 2 l 4 5 show ?thesis by (intro conjI)
qed

section \<open>The two passes of the materializer\<close>

lemma extract_Inl:
  "get_metadata_and_attributes_for_record (Record r) = Inl e \<Longrightarrow> e = InvalidProvRecordException"
  using collect_namespaces_error[of "rec_bundle r" "py_dict (rec_attributes r)"]
  by (auto simp: extract_record split: option.splits sum.splits)

lemma extract_prov_type:
  "get_metadata_and_attributes_for_record (Record r) = Inr (md, attrs) \<Longrightarrow>
   prov_type md = record_type r"
  by (erule extract_Inr) simp

lemma typed_error_simps:
  "typed_error InvalidArgumentTypeException" "typed_error InvalidProvRecordException"
  "typed_error (DatabaseError d)" "\<not> typed_error KeyError" "\<not> typed_error ParseException"
  "\<not> typed_error AttributeError"
  by (simp_all add: typed_error_def)

lemma create_relation_Inl:
  assumes "create_relation ad fb tb rel st = Inl e"
  shows "typed_error e"
proof (cases "(case formal_from rel of None \<Rightarrow> create_unknown_node ad fb st | Some q \<Rightarrow> Inr (Some q, st))")
  case (Inl e1)
  with assms have "e = e1" by (simp add: create_relation_def)
  with endpoint_Inl[OF Inl] show ?thesis by (auto simp: typed_error_simps)
next
  case (Inr p)
  obtain fq st1 where p: "p = (fq, st1)" by (cases p)
  show ?thesis
  proof (cases "(case formal_to rel of None \<Rightarrow> create_unknown_node ad tb st1 | Some q \<Rightarrow> Inr (Some q, st1))")
    case (Inl e1)
    with assms Inr p have "e = e1" by (simp add: create_relation_def)
    with endpoint_Inl[OF Inl] show ?thesis by (auto simp: typed_error_simps)
  next
    case Inr2: (Inr p2)
    obtain tq st2 where p2: "p2 = (tq, st2)" by (cases p2)
    show ?thesis
    proof (cases "get_metadata_and_attributes_for_record (Record rel)")
      case (Inl e1)
      with assms Inr p Inr2 p2 have "e = e1" by (simp add: create_relation_def)
      with extract_Inl[OF Inl] show ?thesis by (simp add: typed_error_simps)
    next
      case Inr3: (Inr p3)
      obtain md attrs where p3: "p3 = (md, attrs)" by (cases p3)
      from assms Inr p Inr2 p2 Inr3 p3
      have "adapter_save_relation ad fb fq tb tq attrs md st2 = Inl e"
        by (simp add: create_relation_def)
      then obtain d where "e = DatabaseError d"
        unfolding adapter_save_relation_def using issue_Inl by blast
      then show ?thesis by (simp add: typed_error_simps)
    qed
  qed
qed

lemma create_nodes_Inr:
  "create_nodes ad bundle_id rs st = Inr st' \<Longrightarrow>
   extends st st' \<and> list_all2 (node_saved bundle_id) rs (new_calls st st')"
proof (induction rs arbitrary: st)
  case Nil
  then show ?case by (simp add: extends_refl new_calls_refl)
next
  case (Cons r rs)
  from Cons.prems obtain md attrs i st1 where
    e: "get_metadata_and_attributes_for_record (Record r) = Inr (md, attrs)"
    and s: "adapter_save_record ad bundle_id attrs md st = Inr (i, st1)"
    and r: "create_nodes ad bundle_id rs st1 = Inr st'"
    by (auto split: sum.splits)
  from s have S: "extends st st1 \<and> new_calls st st1 = [(SaveRecord bundle_id attrs md, i)]"
    unfolding adapter_save_record_def using issue_Inr by blast
  from Cons.IH[OF r] have R: "extends st1 st'"
    and L: "list_all2 (node_saved bundle_id) rs (new_calls st1 st')"
    by simp_all
  from S R have E: "extends st st'" by (blast intro: extends_trans)
  have N: "new_calls st st' = (SaveRecord bundle_id attrs md, i) # new_calls st1 st'"
    using new_calls_trans[of st st1 st'] S R by simp
  have H: "node_saved bundle_id r (SaveRecord bundle_id attrs md, i)"
    by (simp add: node_saved_def e)
  from E L H show ?case unfolding N by simp
qed

lemma create_nodes_Inl:
  "create_nodes ad bundle_id rs st = Inl e \<Longrightarrow> typed_error e"
proof (induction rs arbitrary: st)
  case Nil
  then show ?case by simp
next
  case (Cons r rs)
  show ?case
  proof (cases "get_metadata_and_attributes_for_record (Record r)")
    case (Inl e1)
    with Cons.prems have "e = e1" by simp
    with extract_Inl[OF Inl] show ?thesis by (simp add: typed_error_simps)
  next
    case (Inr p)
    obtain md attrs where p: "p = (md, attrs)" by (cases p)
    show ?thesis
    proof (cases "adapter_save_record ad bundle_id attrs md st")
      case (Inl e1)
      with Cons.prems Inr p have "e = e1" by simp
      moreover from Inl obtain d where "e1 = DatabaseError d"
        unfolding adapter_save_record_def using issue_Inl by blast
      ultimately show ?thesis by (simp add: typed_error_simps)
    next
      case Inr2: (Inr q)
      obtain i st1 where q: "q = (i, st1)" by (cases q)
      from Cons.prems Inr p Inr2 q have "create_nodes ad bundle_id rs st1 = Inl e" by simp
      then show ?thesis by (rule Cons.IH)
    qed
  qed
qed

lemma create_relation_plain:
  assumes "create_relation ad bundle_id bundle_id r st = Inr (i, st')"
    and "get_type r \<noteq> Some PROV_MENTION"
  shows "extends st st' \<and> (\<forall>ci \<in> set (new_calls st st'). plain_edge_part bundle_id (fst ci))"
proof -
  from create_relation_Inr[OF assms(1)] obtain pf pt fq tq md attrs where
    E: "extends st st'"
    and nc: "new_calls st st' = pf @ pt @ [(SaveRelation bundle_id fq bundle_id tq attrs md, i)]"
    and e: "get_metadata_and_attributes_for_record (Record r) = Inr (md, attrs)"
    and F: "case formal_from r of
          Some q \<Rightarrow> pf = [] \<and> fq = Some q
        | None \<Rightarrow> (\<exists>j. pf = [(placeholder_call st 0 bundle_id, j)]) \<and> fq = Some (placeholder_identifier st 0)"
    and T: "case formal_to r of
          Some q \<Rightarrow> pt = [] \<and> tq = Some q
        | None \<Rightarrow>
            (\<exists>k. pt = [(placeholder_call st (if formal_from r = None then 1 else 0) bundle_id, k)]) \<and>
            tq = Some (placeholder_identifier st (if formal_from r = None then 1 else 0))"
    by blast
  have ph: "plain_edge_part bundle_id (placeholder_call st n bundle_id)" for n
    by (simp add: plain_edge_part_def placeholder_call_def is_placeholder_def unknown_metadata_def)
  from F have pf: "\<forall>ci \<in> set pf. plain_edge_part bundle_id (fst ci)"
    by (cases "formal_from r") (auto simp: ph)
  from T have pt: "\<forall>ci \<in> set pt. plain_edge_part bundle_id (fst ci)"
    by (cases "formal_to r") (auto simp: ph)
  from assms(2) have "record_type r \<noteq> PROV_MENTION"
    by (cases "get_type r")
       (simp_all add: record_type_def PROV_UNKNOWN_def PROV_MENTION_def prov_qn_inject)
  with extract_prov_type[OF e] have "prov_type md \<noteq> PROV_MENTION" by simp
  then have "plain_edge_part bundle_id (SaveRelation bundle_id fq bundle_id tq attrs md)"
    by (simp add: plain_edge_part_def)
  with pf pt E show ?thesis unfolding nc by auto
qed

lemma create_relations_Inr:
  "create_relations ad bundle_id rs st = Inr st' \<Longrightarrow>
   extends st st' \<and> (\<forall>ci \<in> set (new_calls st st'). plain_edge_part bundle_id (fst ci))"
proof (induction rs arbitrary: st)
  case Nil
  then show ?case by (simp add: extends_refl new_calls_refl)
next
  case (Cons r rs)
  show ?case
  proof (cases "get_type r = Some PROV_MENTION")
    case True
    with Cons.prems have "create_relations ad bundle_id rs st = Inr st'" by simp
    then show ?thesis by (rule Cons.IH)
  next
    case False
    with Cons.prems obtain i st1 where
      c: "create_relation ad bundle_id bundle_id r st = Inr (i, st1)"
      and r: "create_relations ad bundle_id rs st1 = Inr st'"
      by (auto split: sum.splits)
    from create_relation_plain[OF c False] have S: "extends st st1"
      and P: "\<forall>ci \<in> set (new_calls st st1). plain_edge_part bundle_id (fst ci)"
      by simp_all
    from Cons.IH[OF r] have R: "extends st1 st'"
      and Q: "\<forall>ci \<in> set (new_calls st1 st'). plain_edge_part bundle_id (fst ci)"
      by simp_all
    from S R have E: "extends st st'" by (rule extends_trans)
    from P Q show ?thesis unfolding new_calls_trans[OF S R] using E by auto
  qed
qed

lemma create_relations_Inl:
  "create_relations ad bundle_id rs st = Inl e \<Longrightarrow> typed_error e"
proof (induction rs arbitrary: st)
  case Nil
  then show ?case by simp
next
  case (Cons r rs)
  show ?case
  proof (cases "get_type r = Some PROV_MENTION")
    case True
    with Cons.prems have "create_relations ad bundle_id rs st = Inl e" by simp
    then show ?thesis by (rule Cons.IH)
  next
    case False
    show ?thesis
    proof (cases "create_relation ad bundle_id bundle_id r st")
      case (Inl e1)
      with Cons.prems False have "e = e1" by simp
      with create_relation_Inl[OF Inl] show ?thesis by simp
    next
      case (Inr q)
      obtain i st1 where q: "q = (i, st1)" by (cases q)
      from Cons.prems False Inr q have "create_relations ad bundle_id rs st1 = Inl e" by simp
      then show ?thesis by (rule Cons.IH)
    qed
  qed
qed

lemma create_bundle_Inr:
  assumes "create_bundle ad bundle_id recs st = Inr st'"
  shows "extends st st' \<and> is_str bundle_id \<and>
    (\<exists>nodes edges. new_calls st st' = nodes @ edges \<and>
       list_all2 (node_saved bundle_id) (get_records ProvElement recs) nodes \<and>
       (\<forall>ci \<in> set edges. plain_edge_part bundle_id (fst ci)))"
proof -
  from assms have s: "is_str bundle_id"
    by (auto simp: create_bundle_def split: if_splits)
  with assms obtain st1 where
    n: "create_nodes ad bundle_id (get_records ProvElement recs) st = Inr st1"
    and r: "create_relations ad bundle_id (get_records ProvRelation recs) st1 = Inr st'"
    by (auto simp: create_bundle_def split: sum.splits)
  from create_nodes_Inr[OF n] have N: "extends st st1"
    and L: "list_all2 (node_saved bundle_id) (get_records ProvElement recs) (new_calls st st1)"
    by simp_all
  from create_relations_Inr[OF r] have R: "extends st1 st'"
    and P: "\<forall>ci \<in> set (new_calls st1 st'). plain_edge_part bundle_id (fst ci)"
    by simp_all
  from N R have "extends st st'" by (rule extends_trans)
  with s L P new_calls_trans[OF N R] show ?thesis by blast
qed

lemma create_bundle_Inl:
  assumes "create_bundle ad bundle_id recs st = Inl e"
  shows "typed_error e"
proof (cases "is_str bundle_id")
  case False
  with assms show ?thesis by (simp add: create_bundle_def typed_error_simps)
next
  case True
  show ?thesis
  proof (cases "create_nodes ad bundle_id (get_records ProvElement recs) st")
    case (Inl e1)
    with assms True have "e = e1" by (simp add: create_bundle_def)
    with create_nodes_Inl[OF Inl] show ?thesis by simp
  next
    case (Inr st1)
    with assms True have "create_relations ad bundle_id (get_records ProvRelation recs) st1 = Inl e"
      by (simp add: create_bundle_def)
    then show ?thesis by (rule create_relations_Inl)
  qed
qed

lemma py_eq_refl: "py_eq k k"
  by (cases k) (simp_all add: qn_eq_def)

lemma py_eq_sym: "py_eq a b \<Longrightarrow> py_eq b a"
  by (cases a; cases b) (simp_all add: qn_eq_def)

lemma py_eq_trans: "py_eq a b \<Longrightarrow> py_eq b c \<Longrightarrow> py_eq a c"
  by (cases a; cases b; cases c) (simp_all add: qn_eq_def)

lemma dict_get_dict_set:
  "dict_get k2 (dict_set k v d) = (if py_eq k k2 then Some v else dict_get k2 d)"
proof (induction d)
  case Nil
  then show ?case by simp
next
  case (Cons a d)
  obtain k0 v0 where a: "a = (k0, v0)" by (cases a)
  show ?case
  proof (cases "py_eq k0 k")
    case True
    then have "py_eq k0 k2 \<longleftrightarrow> py_eq k k2"
      by (meson py_eq_sym py_eq_trans)
    with True a show ?thesis by simp
  next
    case False
    then have "py_eq k0 k2 \<Longrightarrow> \<not> py_eq k k2"
      by (meson py_eq_sym py_eq_trans)
    with False a Cons show ?thesis by auto
  qed
qed

lemma vqn_bundle_identifier:
  "valid_qualified_name nss (VStr (format_bundle_identifier (str_qname (bundle_identifier b))))
     = Some (bundle_node_identifier b)"
proof -
  have "format_bundle_identifier x = ''prov:'' @ (''bundle:'' @ x)" for x
    by (simp add: format_bundle_identifier_def PROV_API_BUNDLE_IDENTIFIER_PREFIX_def)
  then show ?thesis
    unfolding bundle_node_identifier_def using vqn_prov_string by metis
qed

lemma extract_bundle_record:
  "\<exists>md attrs.
     get_metadata_and_attributes_for_record
       (Record (bundle_record_of b (Some (bundle_node_identifier b)))) = Inr (md, attrs) \<and>
     prov_type md = PROV_BUNDLE \<and> md_identifier md = bundle_node_identifier b"
proof -
  let ?r = "bundle_record_of b (Some (bundle_node_identifier b))"
  have i: "valid_qualified_name (rec_bundle ?r) (declared_identifier ?r)
             = Some (bundle_node_identifier b)"
    by (simp add: declared_identifier_def bundle_record_of_def py_of_qname_def vqn_qname)
  have d: "py_dict (rec_attributes ?r)
             = [(VQName (prov_qn ''bundle_name''), VQName (bundle_identifier b))]"
    by (simp add: bundle_record_of_def py_dict_def)
  have t: "record_type ?r = PROV_BUNDLE"
    by (simp add: record_type_def bundle_record_of_def)
  show ?thesis
    unfolding extract_record i d t option.case by (simp add: Let_def)
qed

lemma dict_get_in: "dict_get k d = Some v \<Longrightarrow> v \<in> snd ` set d"
  by (induction d) (auto split: if_splits)

lemma dict_set_values: "snd ` set (dict_set k v d) \<subseteq> insert v (snd ` set d)"
proof (induction d)
  case Nil
  then show ?case by simp
next
  case (Cons a d)
  obtain k0 v0 where a: "a = (k0, v0)" by (cases a)
  show ?case
  proof (cases "py_eq k0 k")
    case True
    with a show ?thesis by auto
  next
    case False
    with a Cons show ?thesis by auto
  qed
qed

lemma issued_append: "issued d (xs @ ys) v \<longleftrightarrow> issued d xs v \<or> issued d ys v"
  by (auto simp: issued_def)

lemma create_bundle_association_Inl:
  assumes "create_bundle_association ad document_id bundle_id bundle_ident b st = Inl e"
  shows "typed_error e"
proof -
  have "create_associations ad document_id bundle_id to_qn ba bm rs st = Inl e \<Longrightarrow> typed_error e"
    for to_qn ba bm rs st
  proof (induction rs arbitrary: st)
    case Nil
    then show ?case by simp
  next
    case (Cons r rs)
    show ?case
    proof (cases "get_metadata_and_attributes_for_record (Record r)")
      case (Inl e1)
      with Cons.prems have "e = e1" by simp
      with extract_Inl[OF Inl] show ?thesis by (simp add: typed_error_simps)
    next
      case (Inr p)
      obtain md attrs where p: "p = (md, attrs)" by (cases p)
      show ?thesis
      proof (cases "adapter_save_relation ad bundle_id (Some (md_identifier md)) document_id to_qn ba bm st")
        case (Inl e1)
        with Cons.prems Inr p have "e = e1" by simp
        moreover from Inl obtain d where "e1 = DatabaseError d"
          unfolding adapter_save_relation_def using issue_Inl by blast
        ultimately show ?thesis by (simp add: typed_error_simps)
      next
        case Inr2: (Inr q)
        obtain i st1 where q: "q = (i, st1)" by (cases q)
        from Cons.prems Inr p Inr2 q
        have "create_associations ad document_id bundle_id to_qn ba bm rs st1 = Inl e" by simp
        then show ?thesis by (rule Cons.IH)
      qed
    qed
  qed
  with assms show ?thesis
    unfolding create_bundle_association_def extract_belong_relation sum.case prod.case by blast
qed

lemma create_bundles_step:
  "create_bundles ad doc_id (b # bs) m0 st =
     (case get_metadata_and_attributes_for_record
             (Record (bundle_record_of b (Some (bundle_node_identifier b)))) of
        Inl e \<Rightarrow> Inl e
      | Inr (md, attrs) \<Rightarrow>
          (case adapter_save_bundle ad doc_id attrs md st of
             Inl e \<Rightarrow> Inl e
           | Inr (bundle_id, st1) \<Rightarrow>
               (case create_bundle ad bundle_id (bundle_records b) st1 of
                  Inl e \<Rightarrow> Inl e
                | Inr st2 \<Rightarrow>
                    (case create_bundle_association ad doc_id bundle_id
                            (Some (bundle_node_identifier b)) b st2 of
                       Inl e \<Rightarrow> Inl e
                     | Inr st3 \<Rightarrow>
                         create_bundles ad doc_id bs
                           (dict_set (VQName (bundle_identifier b)) bundle_id m0) st3))))"
  by (simp add: Let_def vqn_bundle_identifier)

lemma create_bundles_Inl:
  "create_bundles ad doc_id bs m0 st = Inl e \<Longrightarrow> typed_error e"
proof (induction bs arbitrary: m0 st)
  case Nil
  then show ?case by simp
next
  case (Cons b bs)
  obtain md attrs where
    x: "get_metadata_and_attributes_for_record
          (Record (bundle_record_of b (Some (bundle_node_identifier b)))) = Inr (md, attrs)"
    using extract_bundle_record by blast
  note P = Cons.prems[unfolded create_bundles_step]
  show ?case
  proof (cases "adapter_save_bundle ad doc_id attrs md st")
    case (Inl e1)
    with P x have "e = e1" by simp
    moreover from Inl obtain d where "e1 = DatabaseError d"
      unfolding adapter_save_bundle_def using issue_Inl by blast
    ultimately show ?thesis by (simp add: typed_error_simps)
  next
    case (Inr q)
    obtain bundle_id st1 where q: "q = (bundle_id, st1)" by (cases q)
    show ?thesis
    proof (cases "create_bundle ad bundle_id (bundle_records b) st1")
      case (Inl e1)
      with P x Inr q have "e = e1" by simp
      with create_bundle_Inl[OF Inl] show ?thesis by simp
    next
      case Inr2: (Inr st2)
      show ?thesis
      proof (cases "create_bundle_association ad doc_id bundle_id (Some (bundle_node_identifier b)) b st2")
        case (Inl e1)
        with P x Inr q Inr2 have "e = e1" by simp
        with create_bundle_association_Inl[OF Inl] show ?thesis by simp
      next
        case Inr3: (Inr st3)
        with P x Inr q Inr2
        have "create_bundles ad doc_id bs (dict_set (VQName (bundle_identifier b)) bundle_id m0) st3 = Inl e"
          by simp
        then show ?thesis by (rule Cons.IH)
      qed
    qed
  qed
qed

lemma create_bundles_Inr:
  "create_bundles ad doc_id bs m0 st = Inr (m', st') \<Longrightarrow>
   extends st st' \<and>
   (\<exists>segs. new_calls st st' = concat segs \<and> list_all2 (bundle_segment doc_id) bs segs \<and>
      (\<forall>k. dict_get k m' =
             (case container_id k bs segs of Some v \<Rightarrow> Some v | None \<Rightarrow> dict_get k m0))) \<and>
   (\<forall>k. dict_get k m' \<noteq> None \<longleftrightarrow>
          dict_get k m0 \<noteq> None \<or> (\<exists>b \<in> set bs. py_eq (VQName (bundle_identifier b)) k)) \<and>
   (\<forall>v \<in> snd ` set m'. v \<in> snd ` set m0 \<or> issued doc_id (new_calls st st') v)"
proof (induction bs arbitrary: m0 st)
  case Nil
  then show ?case by (auto simp: extends_refl new_calls_refl)
next
  case (Cons b bs)
  let ?m1 = "\<lambda>bundle_id. dict_set (VQName (bundle_identifier b)) bundle_id m0"
  from Cons.prems obtain md attrs bundle_id st1 st2 st3 where
    x: "get_metadata_and_attributes_for_record
          (Record (bundle_record_of b (Some (bundle_node_identifier b)))) = Inr (md, attrs)"
    and sb: "adapter_save_bundle ad doc_id attrs md st = Inr (bundle_id, st1)"
    and cb: "create_bundle ad bundle_id (bundle_records b) st1 = Inr st2"
    and ca: "create_bundle_association ad doc_id bundle_id (Some (bundle_node_identifier b)) b st2 = Inr st3"
    and r: "create_bundles ad doc_id bs (?m1 bundle_id) st3 = Inr (m', st')"
    unfolding create_bundles_step by (auto split: sum.splits)
  from extract_bundle_record[of b] x have
    pt: "prov_type md = PROV_BUNDLE" and mi: "md_identifier md = bundle_node_identifier b"
    by auto
  from sb have S: "extends st st1" and Sn: "new_calls st st1 = [(SaveBundle doc_id attrs md, bundle_id)]"
    unfolding adapter_save_bundle_def using issue_Inr by blast+
  from create_bundle_Inr[OF cb] obtain nodes edges where
    B: "extends st1 st2" and Bn: "new_calls st1 st2 = nodes @ edges"
    and nodes: "list_all2 (node_saved bundle_id) (get_records ProvElement (bundle_records b)) nodes"
    and edges: "\<forall>ci \<in> set edges. plain_edge_part bundle_id (fst ci)"
    by blast
  from create_bundle_association_Inr[OF ca] have A: "extends st2 st3"
    and An: "list_all2 (\<lambda>r ci. \<exists>md attrs.
        get_metadata_and_attributes_for_record (Record r) = Inr (md, attrs) \<and>
        fst ci = SaveRelation bundle_id (Some (md_identifier md)) doc_id (Some (bundle_node_identifier b))
                   membership_attributes membership_metadata)
     (get_records ProvElement (bundle_records b)) (new_calls st2 st3)"
    by simp_all
  have ms: "list_all2 (membership_saved doc_id bundle_id b)
     (get_records ProvElement (bundle_records b)) (new_calls st2 st3)"
    using An by (rule list_all2_mono) (auto simp: membership_saved_def)
  from Cons.IH[OF r] obtain segs where
    R: "extends st3 st'" and Rn: "new_calls st3 st' = concat segs"
    and segs: "list_all2 (bundle_segment doc_id) bs segs"
    and get: "\<forall>k. dict_get k m' =
             (case container_id k bs segs of
                Some v \<Rightarrow> Some v | None \<Rightarrow> dict_get k (?m1 bundle_id))"
    and dom: "\<forall>k. dict_get k m' \<noteq> None \<longleftrightarrow>
          dict_get k (?m1 bundle_id) \<noteq> None \<or> (\<exists>b \<in> set bs. py_eq (VQName (bundle_identifier b)) k)"
    and ran: "\<forall>v \<in> snd ` set m'. v \<in> snd ` set (?m1 bundle_id) \<or> issued doc_id (new_calls st3 st') v"
    by blast
  from S B have E2: "extends st st2" by (rule extends_trans)
  from E2 A have E3: "extends st st3" by (rule extends_trans)
  from E3 R have E: "extends st st'" by (rule extends_trans)
  let ?seg = "(SaveBundle doc_id attrs md, bundle_id) # nodes @ edges @ new_calls st2 st3"
  have n3: "new_calls st st3 = ?seg"
    using new_calls_trans[OF E2 A] new_calls_trans[OF S B] Sn Bn by simp
  have N: "new_calls st st' = concat (?seg # segs)"
    using new_calls_trans[OF E3 R] n3 Rn by simp
  have seg: "bundle_segment doc_id b ?seg"
    unfolding bundle_segment_def
    by (rule exI[of _ "(SaveBundle doc_id attrs md, bundle_id)"], rule exI[of _ nodes],
        rule exI[of _ edges], rule exI[of _ "new_calls st2 st3"])
       (use nodes edges ms pt mi in \<open>simp add: is_save_bundle_def\<close>)
  have get': "\<forall>k. dict_get k m' =
             (case container_id k (b # bs) (?seg # segs) of
                Some v \<Rightarrow> Some v | None \<Rightarrow> dict_get k m0)"
    using get by (simp add: dict_get_dict_set split: option.splits)
  have 1: "\<exists>segs. new_calls st st' = concat segs \<and> list_all2 (bundle_segment doc_id) (b # bs) segs \<and>
      (\<forall>k. dict_get k m' =
             (case container_id k (b # bs) segs of Some v \<Rightarrow> Some v | None \<Rightarrow> dict_get k m0))"
    by (rule exI[of _ "?seg # segs"]) (use N seg segs get' in simp)
  have 2: "\<forall>k. dict_get k m' \<noteq> None \<longleftrightarrow>
          dict_get k m0 \<noteq> None \<or> (\<exists>b \<in> set (b # bs). py_eq (VQName (bundle_identifier b)) k)"
    using dom by (auto simp: dict_get_dict_set)
  have iss: "issued doc_id (new_calls st st') bundle_id"
    unfolding N by (simp add: issued_def)
  have "issued doc_id (new_calls st3 st') v \<Longrightarrow> issued doc_id (new_calls st st') v" for v
    unfolding new_calls_trans[OF E3 R] by (simp add: issued_append)
  with ran iss dict_set_values[of "VQName (bundle_identifier b)" bundle_id m0]
  have 3: "\<forall>v \<in> snd ` set m'. v \<in> snd ` set m0 \<or> issued doc_id (new_calls st st') v"
    by blast
  from E 1 2 3 show ?case by blast
qed

lemma mention_saved_append:
  "mention_saved f t m xs \<or> mention_saved f t m ys \<Longrightarrow> mention_saved f t m (xs @ ys)"
  by (auto simp: mention_saved_def)

lemma create_relation_mention:
  assumes "create_relation ad fb tb m st = Inr (i, st')"
    and "get_type m = Some PROV_MENTION"
    and "fb \<in> snd ` set bundle_id_map" and "tb \<in> snd ` set bundle_id_map"
  shows "extends st st' \<and> (\<forall>ci \<in> set (new_calls st st'). link_part bundle_id_map (fst ci)) \<and>
         mention_saved fb tb m (new_calls st st') \<and> mention_part fb tb m (new_calls st st')"
proof -
  from create_relation_Inr[OF assms(1)] obtain pf pt fq tq md attrs where
    E: "extends st st'"
    and nc: "new_calls st st' = pf @ pt @ [(SaveRelation fb fq tb tq attrs md, i)]"
    and e: "get_metadata_and_attributes_for_record (Record m) = Inr (md, attrs)"
    and F: "case formal_from m of
          Some q \<Rightarrow> pf = [] \<and> fq = Some q
        | None \<Rightarrow> (\<exists>j. pf = [(placeholder_call st 0 fb, j)]) \<and> fq = Some (placeholder_identifier st 0)"
    and T: "case formal_to m of
          Some q \<Rightarrow> pt = [] \<and> tq = Some q
        | None \<Rightarrow>
            (\<exists>k. pt = [(placeholder_call st (if formal_from m = None then 1 else 0) tb, k)]) \<and>
            tq = Some (placeholder_identifier st (if formal_from m = None then 1 else 0))"
    by blast
  have ph: "b \<in> snd ` set bundle_id_map \<Longrightarrow> link_part bundle_id_map (placeholder_call st n b)" for n b
    by (simp add: link_part_def placeholder_call_def is_placeholder_def unknown_metadata_def)
  note phf = ph[OF assms(3)] and pht = ph[OF assms(4)]
  from F have pf: "\<forall>ci \<in> set pf. link_part bundle_id_map (fst ci)"
    by (cases "formal_from m") (auto simp: phf)
  from T have pt: "\<forall>ci \<in> set pt. link_part bundle_id_map (fst ci)"
    by (cases "formal_to m") (auto simp: pht)
  from assms(2) have "record_type m = PROV_MENTION" by (simp add: record_type_def)
  with extract_prov_type[OF e] have t: "prov_type md = PROV_MENTION" by simp
  with assms(3,4) have "link_part bundle_id_map (SaveRelation fb fq tb tq attrs md)"
    by (simp add: link_part_def)
  with pf pt have 1: "\<forall>ci \<in> set (new_calls st st'). link_part bundle_id_map (fst ci)"
    unfolding nc by auto
  from F have fq: "formal_from m = None \<or> fq = formal_from m"
    by (cases "formal_from m") simp_all
  from T have tq: "formal_to m = None \<or> tq = formal_to m"
    by (cases "formal_to m") simp_all
  have 2: "mention_saved fb tb m (new_calls st st')"
    unfolding mention_saved_def nc
    by (rule bexI[of _ "(SaveRelation fb fq tb tq attrs md, i)"]) (use t fq tq e in simp_all)
  have F': "case formal_from m of
           Some q \<Rightarrow> pf = [] \<and> fq = Some q
         | None \<Rightarrow>
             (\<exists>uid j. pf = [(SaveRecord fb [] (unknown_metadata uid), j)] \<and>
                     fq = Some (prov_qn (''Unknown-'' @ uid)))"
    using F by (cases "formal_from m") (auto simp: placeholder_call_def placeholder_identifier_def)
  have T': "case formal_to m of
           Some q \<Rightarrow> pt = [] \<and> tq = Some q
         | None \<Rightarrow>
             (\<exists>uid k. pt = [(SaveRecord tb [] (unknown_metadata uid), k)] \<and>
                     tq = Some (prov_qn (''Unknown-'' @ uid)))"
    using T by (cases "formal_to m") (auto simp: placeholder_call_def placeholder_identifier_def)
  have 3: "mention_part fb tb m (new_calls st st')"
    unfolding mention_part_def
    by (rule exI[of _ pf], rule exI[of _ pt], rule exI[of _ fq], rule exI[of _ tq],
        rule exI[of _ attrs], rule exI[of _ md], rule exI[of _ i])
       (use nc e F' T' in simp)
  from E 1 2 3 show ?thesis by (intro conjI)
qed

lemma create_mentions_Inr:
  "create_mentions ad from_id bundle_id_map ms st = Inr st' \<Longrightarrow>
   from_id \<in> snd ` set bundle_id_map \<Longrightarrow>
   extends st st' \<and> (\<forall>ci \<in> set (new_calls st st'). link_part bundle_id_map (fst ci)) \<and>
   (\<forall>m \<in> set ms. get_type m = Some PROV_MENTION \<longrightarrow>
      (\<exists>to_id. dict_get (py_of_qname (formal_third m)) bundle_id_map = Some to_id \<and>
               mention_saved from_id to_id m (new_calls st st'))) \<and>
   (\<exists>parts. new_calls st st' = concat parts \<and>
      list_all2
        (\<lambda>m part. \<exists>to_id. dict_get (py_of_qname (formal_third m)) bundle_id_map = Some to_id \<and>
                   mention_part from_id to_id m part)
        (filter (\<lambda>m. get_type m = Some PROV_MENTION) ms) parts)"
proof (induction ms arbitrary: st)
  case Nil
  then show ?case by (simp add: extends_refl new_calls_refl)
next
  case (Cons m ms)
  show ?case
  proof (cases "get_type m = Some PROV_MENTION")
    case False
    with Cons.prems(1) have "create_mentions ad from_id bundle_id_map ms st = Inr st'" by simp
    from Cons.IH[OF this Cons.prems(2)] False show ?thesis by simp
  next
    case True
    with Cons.prems(1) obtain to_id i st1 where
      g: "dict_get (py_of_qname (formal_third m)) bundle_id_map = Some to_id"
      and c: "create_relation ad from_id to_id m st = Inr (i, st1)"
      and r: "create_mentions ad from_id bundle_id_map ms st1 = Inr st'"
      by (auto split: option.splits sum.splits)
    from g have t: "to_id \<in> snd ` set bundle_id_map" by (rule dict_get_in)
    from create_relation_mention[OF c True Cons.prems(2) t] have S: "extends st st1"
      and P: "\<forall>ci \<in> set (new_calls st st1). link_part bundle_id_map (fst ci)"
      and M: "mention_saved from_id to_id m (new_calls st st1)"
      and MP: "mention_part from_id to_id m (new_calls st st1)"
      by simp_all
    from Cons.IH[OF r Cons.prems(2)] have R: "extends st1 st'"
      and Q: "\<forall>ci \<in> set (new_calls st1 st'). link_part bundle_id_map (fst ci)"
      and I: "\<forall>m \<in> set ms. get_type m = Some PROV_MENTION \<longrightarrow>
        (\<exists>to_id. dict_get (py_of_qname (formal_third m)) bundle_id_map = Some to_id \<and>
               mention_saved from_id to_id m (new_calls st1 st'))"
      and J: "\<exists>parts. new_calls st1 st' = concat parts \<and>
        list_all2
          (\<lambda>m part. \<exists>to_id. dict_get (py_of_qname (formal_third m)) bundle_id_map = Some to_id \<and>
                     mention_part from_id to_id m part)
          (filter (\<lambda>m. get_type m = Some PROV_MENTION) ms) parts"
      by simp_all
    from J obtain parts where
      Jc: "new_calls st1 st' = concat parts"
      and Jl: "list_all2
          (\<lambda>m part. \<exists>to_id. dict_get (py_of_qname (formal_third m)) bundle_id_map = Some to_id \<and>
                     mention_part from_id to_id m part)
          (filter (\<lambda>m. get_type m = Some PROV_MENTION) ms) parts"
      by (elim exE conjE)
    from S R have E: "extends st st'" by (rule extends_trans)
    note N = new_calls_trans[OF S R]
    have 1: "\<forall>ci \<in> set (new_calls st st'). link_part bundle_id_map (fst ci)"
      unfolding N using P Q by auto
    have 2: "\<forall>m' \<in> set (m # ms). get_type m' = Some PROV_MENTION \<longrightarrow>
        (\<exists>to_id. dict_get (py_of_qname (formal_third m')) bundle_id_map = Some to_id \<and>
               mention_saved from_id to_id m' (new_calls st st'))"
      unfolding N using g M I by (auto intro: mention_saved_append)
    have 3: "\<exists>parts. new_calls st st' = concat parts \<and>
        list_all2
          (\<lambda>m part. \<exists>to_id. dict_get (py_of_qname (formal_third m)) bundle_id_map = Some to_id \<and>
                     mention_part from_id to_id m part)
          (filter (\<lambda>m. get_type m = Some PROV_MENTION) (m # ms)) parts"
      by (rule exI[of _ "new_calls st st1 # parts"]) (use N Jc Jl True g MP in auto)
    from E 1 2 3 show ?thesis by (intro conjI)
  qed
qed

lemma create_mentions_Inl:
  "create_mentions ad from_id bundle_id_map ms st = Inl e \<Longrightarrow>
   typed_error e \<or>
   (e = KeyError \<and>
    (\<exists>m \<in> set ms. get_type m = Some PROV_MENTION \<and>
        dict_get (py_of_qname (formal_third m)) bundle_id_map = None))"
proof (induction ms arbitrary: st)
  case Nil
  then show ?case by simp
next
  case (Cons m ms)
  show ?case
  proof (cases "get_type m = Some PROV_MENTION")
    case False
    with Cons.prems have "create_mentions ad from_id bundle_id_map ms st = Inl e" by simp
    from Cons.IH[OF this] show ?thesis by auto
  next
    case True
    show ?thesis
    proof (cases "dict_get (py_of_qname (formal_third m)) bundle_id_map")
      case None
      with Cons.prems True have "e = KeyError" by simp
      with None True show ?thesis by auto
    next
      case (Some to_id)
      show ?thesis
      proof (cases "create_relation ad from_id to_id m st")
        case (Inl e1)
        with Cons.prems True Some have "e = e1" by simp
        with create_relation_Inl[OF Inl] show ?thesis by simp
      next
        case (Inr q)
        obtain i st1 where q: "q = (i, st1)" by (cases q)
        from Cons.prems True Some Inr q
        have "create_mentions ad from_id bundle_id_map ms st1 = Inl e" by simp
        from Cons.IH[OF this] show ?thesis by auto
      qed
    qed
  qed
qed

lemma mentions_of_set:
  "m \<in> set (mentions_of b) \<longleftrightarrow>
   m \<in> set (get_records ProvRelation (bundle_records b)) \<and> get_type m = Some PROV_MENTION"
  by (simp add: mentions_of_def)

lemma create_all_bundle_links_Inr:
  "create_all_bundle_links ad bs bundle_id_map st = Inr st' \<Longrightarrow>
   extends st st' \<and> (\<forall>ci \<in> set (new_calls st st'). link_part bundle_id_map (fst ci)) \<and>
   (\<forall>b \<in> set bs. \<forall>m \<in> set (mentions_of b).
      (\<exists>from_id to_id.
         dict_get (VQName (bundle_identifier b)) bundle_id_map = Some from_id \<and>
         dict_get (py_of_qname (formal_third m)) bundle_id_map = Some to_id \<and>
         mention_saved from_id to_id m (new_calls st st'))) \<and>
   (\<exists>pss. new_calls st st' = concat (concat pss) \<and>
      list_all2 (bundle_links (\<lambda>k. dict_get k bundle_id_map)) bs pss)"
proof (induction bs arbitrary: st)
  case Nil
  then show ?case by (simp add: extends_refl new_calls_refl)
next
  case (Cons b bs)
  from Cons.prems obtain from_id st1 where
    g: "dict_get (VQName (bundle_identifier b)) bundle_id_map = Some from_id"
    and c: "create_mentions ad from_id bundle_id_map (get_records ProvRelation (bundle_records b)) st
              = Inr st1"
    and r: "create_all_bundle_links ad bs bundle_id_map st1 = Inr st'"
    by (auto simp: create_bundle_links_def split: option.splits sum.splits)
  from g have f: "from_id \<in> snd ` set bundle_id_map" by (rule dict_get_in)
  from create_mentions_Inr[OF c f] have S: "extends st st1"
    and P: "\<forall>ci \<in> set (new_calls st st1). link_part bundle_id_map (fst ci)"
    and M: "\<forall>m \<in> set (get_records ProvRelation (bundle_records b)). get_type m = Some PROV_MENTION \<longrightarrow>
      (\<exists>to_id. dict_get (py_of_qname (formal_third m)) bundle_id_map = Some to_id \<and>
               mention_saved from_id to_id m (new_calls st st1))"
    and K: "\<exists>parts. new_calls st st1 = concat parts \<and>
      list_all2
        (\<lambda>m part. \<exists>to_id. dict_get (py_of_qname (formal_third m)) bundle_id_map = Some to_id \<and>
                   mention_part from_id to_id m part)
        (filter (\<lambda>m. get_type m = Some PROV_MENTION) (get_records ProvRelation (bundle_records b)))
        parts"
    by simp_all
  from K obtain parts where
    Kc: "new_calls st st1 = concat parts"
    and Kl: "list_all2
        (\<lambda>m part. \<exists>to_id. dict_get (py_of_qname (formal_third m)) bundle_id_map = Some to_id \<and>
                   mention_part from_id to_id m part)
        (mentions_of b) parts"
    unfolding mentions_of_def by (elim exE conjE)
  from g Kl have BL: "bundle_links (\<lambda>k. dict_get k bundle_id_map) b parts"
    unfolding bundle_links_def by blast
  from Cons.IH[OF r] have R: "extends st1 st'"
    and Q: "\<forall>ci \<in> set (new_calls st1 st'). link_part bundle_id_map (fst ci)"
    and I: "\<forall>b \<in> set bs. \<forall>m \<in> set (mentions_of b).
      (\<exists>from_id to_id.
         dict_get (VQName (bundle_identifier b)) bundle_id_map = Some from_id \<and>
         dict_get (py_of_qname (formal_third m)) bundle_id_map = Some to_id \<and>
         mention_saved from_id to_id m (new_calls st1 st'))"
    and J: "\<exists>pss. new_calls st1 st' = concat (concat pss) \<and>
      list_all2 (bundle_links (\<lambda>k. dict_get k bundle_id_map)) bs pss"
    by simp_all
  from J obtain pss where
    Jc: "new_calls st1 st' = concat (concat pss)"
    and Jl: "list_all2 (bundle_links (\<lambda>k. dict_get k bundle_id_map)) bs pss"
    by (elim exE conjE)
  from S R have E: "extends st st'" by (rule extends_trans)
  note N = new_calls_trans[OF S R]
  have 1: "\<forall>ci \<in> set (new_calls st st'). link_part bundle_id_map (fst ci)"
    unfolding N using P Q by auto
  have 2: "\<exists>from_id to_id.
         dict_get (VQName (bundle_identifier b')) bundle_id_map = Some from_id \<and>
         dict_get (py_of_qname (formal_third m)) bundle_id_map = Some to_id \<and>
         mention_saved from_id to_id m (new_calls st st')"
    if "b' \<in> set (b # bs)" and "m \<in> set (mentions_of b')" for b' m
  proof (cases "b' = b")
    case True
    with that(2) M obtain to_id where
      "dict_get (py_of_qname (formal_third m)) bundle_id_map = Some to_id"
      "mention_saved from_id to_id m (new_calls st st1)"
      by (auto simp: mentions_of_set)
    with g True show ?thesis unfolding N by (auto intro: mention_saved_append)
  next
    case False
    with that have "b' \<in> set bs" by simp
    with I that(2) show ?thesis unfolding N by (blast intro: mention_saved_append)
  qed
  have 3: "\<exists>pss. new_calls st st' = concat (concat pss) \<and>
      list_all2 (bundle_links (\<lambda>k. dict_get k bundle_id_map)) (b # bs) pss"
    by (rule exI[of _ "parts # pss"]) (use N Kc Jc BL Jl in simp)
  from E 1 2 3 show ?case by blast
qed

lemma create_all_bundle_links_Inl:
  "create_all_bundle_links ad bs bundle_id_map st = Inl e \<Longrightarrow>
   typed_error e \<or>
   (e = KeyError \<and>
    (\<exists>b \<in> set bs.
       dict_get (VQName (bundle_identifier b)) bundle_id_map = None \<or>
       (\<exists>m \<in> set (mentions_of b). dict_get (py_of_qname (formal_third m)) bundle_id_map = None)))"
proof (induction bs arbitrary: st)
  case Nil
  then show ?case by simp
next
  case (Cons b bs)
  show ?case
  proof (cases "create_bundle_links ad b bundle_id_map st")
    case (Inr st1)
    with Cons.prems have "create_all_bundle_links ad bs bundle_id_map st1 = Inl e" by simp
    from Cons.IH[OF this] show ?thesis by auto
  next
    case (Inl e1)
    with Cons.prems have e: "e = e1" by simp
    show ?thesis
    proof (cases "dict_get (VQName (bundle_identifier b)) bundle_id_map")
      case None
      with Inl e have "e = KeyError" by (simp add: create_bundle_links_def)
      with None show ?thesis by auto
    next
      case (Some from_id)
      with Inl e have "create_mentions ad from_id bundle_id_map
          (get_records ProvRelation (bundle_records b)) st = Inl e"
        by (simp add: create_bundle_links_def)
      from create_mentions_Inl[OF this] show ?thesis by (auto simp: mentions_of_set)
    qed
  qed
qed

section \<open>The document as a whole\<close>

lemma first_pass_Inr:
  assumes "first_pass ad d st = Inr (doc_id, m, st1)"
  shows "extends st st1 \<and>
    (\<exists>nodes edges segs.
       new_calls st st1 = (SaveDocument, doc_id) # nodes @ edges @ concat segs \<and>
       list_all2 (node_saved doc_id) (get_records ProvElement (records d)) nodes \<and>
       (\<forall>ci \<in> set edges. plain_edge_part doc_id (fst ci)) \<and>
       list_all2 (bundle_segment doc_id) (bundles d) segs \<and>
       (\<forall>k. dict_get k m = container_id k (bundles d) segs)) \<and>
    (\<forall>k. dict_get k m \<noteq> None \<longleftrightarrow> (\<exists>b \<in> set (bundles d). py_eq (VQName (bundle_identifier b)) k)) \<and>
    (\<forall>v \<in> snd ` set m. issued doc_id (new_calls st st1) v)"
proof -
  from assms obtain sa sb where
    s: "adapter_save_document ad st = Inr (doc_id, sa)"
    and b: "create_bundle ad doc_id (records d) sa = Inr sb"
    and c: "create_bundles ad doc_id (bundles d) [] sb = Inr (m, st1)"
    by (auto simp: first_pass_def split: sum.splits)
  from s have S: "extends st sa" and Sn: "new_calls st sa = [(SaveDocument, doc_id)]"
    unfolding adapter_save_document_def using issue_Inr by blast+
  from create_bundle_Inr[OF b] obtain nodes edges where
    B: "extends sa sb" and Bn: "new_calls sa sb = nodes @ edges"
    and nodes: "list_all2 (node_saved doc_id) (get_records ProvElement (records d)) nodes"
    and edges: "\<forall>ci \<in> set edges. plain_edge_part doc_id (fst ci)"
    by blast
  from create_bundles_Inr[OF c] obtain segs where
    C: "extends sb st1" and Cn: "new_calls sb st1 = concat segs"
    and segs: "list_all2 (bundle_segment doc_id) (bundles d) segs"
    and get: "\<forall>k. dict_get k m =
          (case container_id k (bundles d) segs of
             Some v \<Rightarrow> Some v | None \<Rightarrow> dict_get k ([] :: (pyval \<times> pyval) list))"
    and dom: "\<forall>k. dict_get k m \<noteq> None \<longleftrightarrow>
          dict_get k ([] :: (pyval \<times> pyval) list) \<noteq> None \<or>
          (\<exists>b \<in> set (bundles d). py_eq (VQName (bundle_identifier b)) k)"
    and ran: "\<forall>v \<in> snd ` set m. v \<in> snd ` set ([] :: (pyval \<times> pyval) list) \<or>
                issued doc_id (new_calls sb st1) v"
    by blast
  from S B have E2: "extends st sb" by (rule extends_trans)
  from E2 C have E: "extends st st1" by (rule extends_trans)
  have N: "new_calls st st1 = (SaveDocument, doc_id) # nodes @ edges @ concat segs"
    using new_calls_trans[OF E2 C] new_calls_trans[OF S B] Sn Bn Cn by simp
  have get': "\<forall>k. dict_get k m = container_id k (bundles d) segs"
    using get by (simp split: option.splits)
  have 1: "\<exists>nodes edges segs.
       new_calls st st1 = (SaveDocument, doc_id) # nodes @ edges @ concat segs \<and>
       list_all2 (node_saved doc_id) (get_records ProvElement (records d)) nodes \<and>
       (\<forall>ci \<in> set edges. plain_edge_part doc_id (fst ci)) \<and>
       list_all2 (bundle_segment doc_id) (bundles d) segs \<and>
       (\<forall>k. dict_get k m = container_id k (bundles d) segs)"
    using N nodes edges segs get' by blast
  have 2: "\<forall>k. dict_get k m \<noteq> None \<longleftrightarrow> (\<exists>b \<in> set (bundles d). py_eq (VQName (bundle_identifier b)) k)"
    using dom by simp
  have "issued doc_id (new_calls sb st1) v \<Longrightarrow> issued doc_id (new_calls st st1) v" for v
    unfolding new_calls_trans[OF E2 C] by (simp add: issued_append)
  with ran have 3: "\<forall>v \<in> snd ` set m. issued doc_id (new_calls st st1) v" by auto
  from E 1 2 3 show ?thesis by (intro conjI)
qed

lemma first_pass_Inl:
  assumes "first_pass ad d st = Inl e"
  shows "typed_error e"
proof (cases "adapter_save_document ad st")
  case (Inl e1)
  with assms have "e = e1" by (simp add: first_pass_def)
  moreover from Inl obtain x where "e1 = DatabaseError x"
    unfolding adapter_save_document_def using issue_Inl by blast
  ultimately show ?thesis by (simp add: typed_error_simps)
next
  case (Inr q)
  obtain doc_id sa where q: "q = (doc_id, sa)" by (cases q)
  show ?thesis
  proof (cases "create_bundle ad doc_id (records d) sa")
    case (Inl e1)
    with assms Inr q have "e = e1" by (simp add: first_pass_def)
    with create_bundle_Inl[OF Inl] show ?thesis by simp
  next
    case Inr2: (Inr sb)
    show ?thesis
    proof (cases "create_bundles ad doc_id (bundles d) [] sb")
      case (Inl e1)
      with assms Inr q Inr2 have "e = e1" by (simp add: first_pass_def)
      with create_bundles_Inl[OF Inl] show ?thesis by simp
    next
      case Inr3: (Inr r)
      with assms Inr q Inr2 show ?thesis by (simp add: first_pass_def split: prod.splits)
    qed
  qed
qed

lemma create_document_Inr:
  assumes "create_document parse ad c st = Inr (doc_id, st')"
  obtains d m st1 where
    "form_string parse c = Inr d"
    "first_pass ad d st = Inr (doc_id, m, st1)"
    "create_all_bundle_links ad (bundles d) m st1 = Inr st'"
proof -
  from assms obtain d where f: "form_string parse c = Inr d"
    by (auto simp: create_document_def split: sum.splits)
  with assms obtain m st1 where p: "first_pass ad d st = Inr (doc_id, m, st1)"
    and l: "create_all_bundle_links ad (bundles d) m st1 = Inr st'"
    by (auto simp: create_document_def split: sum.splits)
  from f p l show ?thesis by (rule that)
qed

lemma create_document_Inl:
  assumes "create_document parse ad c st = Inl e"
  shows "typed_error e \<or>
         (e = KeyError \<and> (\<exists>d. form_string parse c = Inr d \<and> dangling_mention d))"
proof (cases "form_string parse c")
  case (Inl e1)
  with assms have "e = InvalidArgumentTypeException" by (simp add: create_document_def)
  then show ?thesis by (simp add: typed_error_simps)
next
  case (Inr d)
  show ?thesis
  proof (cases "first_pass ad d st")
    case (Inl e1)
    with assms Inr have "e = e1" by (simp add: create_document_def)
    with first_pass_Inl[OF Inl] show ?thesis by simp
  next
    case Inr2: (Inr r)
    obtain doc_id m st1 where r: "r = (doc_id, m, st1)" by (cases r)
    from assms Inr Inr2 r have l: "create_all_bundle_links ad (bundles d) m st1 = Inl e"
      by (auto simp: create_document_def split: sum.splits)
    from first_pass_Inr[OF Inr2[unfolded r]] have
      dom: "\<forall>k. dict_get k m \<noteq> None \<longleftrightarrow> (\<exists>b \<in> set (bundles d). py_eq (VQName (bundle_identifier b)) k)"
      by simp
    have own: "dict_get (VQName (bundle_identifier b)) m \<noteq> None" if "b \<in> set (bundles d)" for b
      using dom that py_eq_refl by blast
    from create_all_bundle_links_Inl[OF l] show ?thesis
    proof
      assume "typed_error e"
      then show ?thesis by simp
    next
      assume k: "e = KeyError \<and>
        (\<exists>b \<in> set (bundles d).
           dict_get (VQName (bundle_identifier b)) m = None \<or>
           (\<exists>x \<in> set (mentions_of b). dict_get (py_of_qname (formal_third x)) m = None))"
      then obtain b x where b: "b \<in> set (bundles d)" and x: "x \<in> set (mentions_of b)"
        and n: "dict_get (py_of_qname (formal_third x)) m = None"
        using own by blast
      from n dom have "\<forall>b' \<in> set (bundles d).
          \<not> py_eq (VQName (bundle_identifier b')) (py_of_qname (formal_third x))"
        by blast
      with b x have "dangling_mention d" unfolding dangling_mention_def by blast
      with k Inr show ?thesis by simp
    qed
  qed
qed

lemma node_saved_not_mention: "node_saved b r ci \<Longrightarrow> \<not> is_mention_edge (fst ci)"
  by (auto simp: node_saved_def is_mention_edge_def split: sum.splits)

lemma plain_edge_part_not_mention: "plain_edge_part b c \<Longrightarrow> \<not> is_mention_edge c"
  by (cases c) (auto simp: plain_edge_part_def is_mention_edge_def)

lemma membership_saved_not_mention: "membership_saved d bid b r ci \<Longrightarrow> \<not> is_mention_edge (fst ci)"
  by (auto simp: membership_saved_def is_mention_edge_def membership_metadata_def
        PROV_ASSOCIATION_def PROV_MENTION_def prov_qn_inject split: sum.splits)

lemma list_all2_none:
  assumes "list_all2 P xs ys" and "\<And>x y. P x y \<Longrightarrow> Q y"
  shows "\<forall>y \<in> set ys. Q y"
proof
  fix y assume "y \<in> set ys"
  then obtain i where i: "i < length ys" and y: "y = ys ! i" by (auto simp: in_set_conv_nth)
  from assms(1) i have "P (xs ! i) (ys ! i)" by (simp add: list_all2_conv_all_nth)
  then show "Q y" unfolding y by (rule assms(2))
qed

lemma bundle_segment_not_mention:
  assumes "bundle_segment doc_id b seg"
  shows "\<forall>ci \<in> set seg. \<not> is_mention_edge (fst ci)"
proof -
  from assms obtain sb nodes edges ms where
    seg: "seg = sb # nodes @ edges @ ms"
    and sb: "is_save_bundle doc_id b (fst sb)"
    and nodes: "list_all2 (node_saved (snd sb)) (get_records ProvElement (bundle_records b)) nodes"
    and edges: "\<forall>ci \<in> set edges. plain_edge_part (snd sb) (fst ci)"
    and ms: "list_all2 (membership_saved doc_id (snd sb) b)
          (get_records ProvElement (bundle_records b)) ms"
    unfolding bundle_segment_def by blast
  from sb have 1: "\<not> is_mention_edge (fst sb)"
    by (cases "fst sb") (simp_all add: is_save_bundle_def is_mention_edge_def)
  from nodes have 2: "\<forall>ci \<in> set nodes. \<not> is_mention_edge (fst ci)"
    by (rule list_all2_none) (rule node_saved_not_mention)
  from edges have 3: "\<forall>ci \<in> set edges. \<not> is_mention_edge (fst ci)"
    using plain_edge_part_not_mention by blast
  from ms have 4: "\<forall>ci \<in> set ms. \<not> is_mention_edge (fst ci)"
    by (rule list_all2_none) (rule membership_saved_not_mention)
  from 1 2 3 4 show ?thesis unfolding seg by auto
qed

lemma segments_not_mention:
  assumes "list_all2 (bundle_segment doc_id) bs segs"
  shows "\<forall>ci \<in> set (concat segs). \<not> is_mention_edge (fst ci)"
proof -
  from assms have "\<forall>seg \<in> set segs. \<forall>ci \<in> set seg. \<not> is_mention_edge (fst ci)"
    by (rule list_all2_none) (rule bundle_segment_not_mention)
  then show ?thesis by auto
qed

lemma link_part_cases: "link_part m c \<Longrightarrow> is_mention_edge c \<or> is_placeholder c"
  by (cases c) (auto simp: link_part_def is_mention_edge_def)

text \<open>
  C8. A successful \<^verbatim>\<open>create_document\<close> makes its calls in this order: \<^verbatim>\<open>save_document\<close>; one
  \<^verbatim>\<open>save_record\<close> for each element of the document; the document's relations other than
  mentions (each a \<^verbatim>\<open>save_relation\<close>, preceded by its placeholders); then for each bundle
  in turn its \<^verbatim>\<open>save_bundle\<close>, one \<^verbatim>\<open>save_record\<close> for each of its elements into the
  container just created, its relations other than mentions, and one membership edge
  for each of its elements; and only after the last bundle the calls of the second
  pass, which are mention edges and their placeholders. So in each container the
  element nodes come before the edges, and there is no mention edge before the end of
  the first pass.
\<close>

theorem two_pass_order:
  assumes "create_document parse ad c st = Inr (doc_id, st')"
  shows "\<exists>d nodes edges segs links.
     form_string parse c = Inr d \<and>
     new_calls st st' = (SaveDocument, doc_id) # nodes @ edges @ concat segs @ links \<and>
     list_all2 (node_saved doc_id) (get_records ProvElement (records d)) nodes \<and>
     (\<forall>ci \<in> set edges. plain_edge_part doc_id (fst ci)) \<and>
     list_all2 (bundle_segment doc_id) (bundles d) segs \<and>
     (\<forall>ci \<in> set ((SaveDocument, doc_id) # nodes @ edges @ concat segs).
        \<not> is_mention_edge (fst ci)) \<and>
     (\<forall>ci \<in> set links. is_mention_edge (fst ci) \<or> is_placeholder (fst ci))"
proof -
  from assms obtain d m st1 where
    f: "form_string parse c = Inr d"
    and p: "first_pass ad d st = Inr (doc_id, m, st1)"
    and l: "create_all_bundle_links ad (bundles d) m st1 = Inr st'"
    by (rule create_document_Inr)
  from first_pass_Inr[OF p] obtain nodes edges segs where
    E1: "extends st st1"
    and N1: "new_calls st st1 = (SaveDocument, doc_id) # nodes @ edges @ concat segs"
    and nodes: "list_all2 (node_saved doc_id) (get_records ProvElement (records d)) nodes"
    and edges: "\<forall>ci \<in> set edges. plain_edge_part doc_id (fst ci)"
    and segs: "list_all2 (bundle_segment doc_id) (bundles d) segs"
    by blast
  from create_all_bundle_links_Inr[OF l] have E2: "extends st1 st'"
    and L: "\<forall>ci \<in> set (new_calls st1 st'). link_part m (fst ci)"
    by simp_all
  have N: "new_calls st st' = (SaveDocument, doc_id) # nodes @ edges @ concat segs @ new_calls st1 st'"
    using new_calls_trans[OF E1 E2] N1 by simp
  have a: "\<forall>ci \<in> set nodes. \<not> is_mention_edge (fst ci)"
    using nodes by (rule list_all2_none) (rule node_saved_not_mention)
  have b: "\<forall>ci \<in> set edges. \<not> is_mention_edge (fst ci)"
    using edges plain_edge_part_not_mention by blast
  have c: "\<forall>ci \<in> set (concat segs). \<not> is_mention_edge (fst ci)"
    using segs by (rule segments_not_mention)
  have p1: "\<forall>ci \<in> set ((SaveDocument, doc_id) # nodes @ edges @ concat segs).
        \<not> is_mention_edge (fst ci)"
    using a b c by (auto simp: is_mention_edge_def)
  have p2: "\<forall>ci \<in> set (new_calls st1 st'). is_mention_edge (fst ci) \<or> is_placeholder (fst ci)"
    using L link_part_cases by blast
  show ?thesis
  proof (intro exI conjI)
    show "form_string parse c = Inr d" by (rule f)
    show "new_calls st st' = (SaveDocument, doc_id) # nodes @ edges @ concat segs @ new_calls st1 st'"
      by (rule N)
    show "list_all2 (node_saved doc_id) (get_records ProvElement (records d)) nodes" by (rule nodes)
    show "\<forall>ci \<in> set edges. plain_edge_part doc_id (fst ci)" by (rule edges)
    show "list_all2 (bundle_segment doc_id) (bundles d) segs" by (rule segs)
    show "\<forall>ci \<in> set ((SaveDocument, doc_id) # nodes @ edges @ concat segs).
        \<not> is_mention_edge (fst ci)" by (rule p1)
    show "\<forall>ci \<in> set (new_calls st1 st'). is_mention_edge (fst ci) \<or> is_placeholder (fst ci)"
      by (rule p2)
  qed
qed

text \<open>
  C2, amended. The mention has to stand in a bundle. After a successful
  \<^verbatim>\<open>create_document\<close> the calls split into those of the first pass, which end with the
  segments of the bundles and none of which is a mention edge, and those of the second.
  Every call of the second pass is a mention edge between two containers whose ids were
  returned by \<^verbatim>\<open>save_bundle\<close> calls of the first pass, or a placeholder saved into such a
  container. For every mention of every bundle there is such an edge, saved with what
  was extracted from the mention: it goes from the container of the bundle that holds
  the mention to the container of the bundle that the mention names, and joins the
  endpoints that the mention names. The calls of the second pass are these and no
  others: bundle after bundle, mention after mention, the placeholders for the absent
  endpoints of the mention and then its edge.
\<close>

theorem mention_edges_after_bundles:
  assumes "create_document parse ad c st = Inr (doc_id, st')"
  shows "\<exists>d pre segs links parts.
     form_string parse c = Inr d \<and>
     new_calls st st' = pre @ concat segs @ links \<and>
     list_all2 (bundle_segment doc_id) (bundles d) segs \<and>
     (\<forall>ci \<in> set (pre @ concat segs). \<not> is_mention_edge (fst ci)) \<and>
     (\<forall>ci \<in> set links.
        (case fst ci of
           SaveRelation fb fq tb tq attrs md \<Rightarrow>
             prov_type md = PROV_MENTION \<and> issued doc_id (pre @ concat segs) fb \<and>
             issued doc_id (pre @ concat segs) tb
         | SaveRecord b attrs md \<Rightarrow>
             is_placeholder (fst ci) \<and> issued doc_id (pre @ concat segs) b
         | _ \<Rightarrow> False)) \<and>
     (\<forall>b \<in> set (bundles d). \<forall>m \<in> set (mentions_of b).
        (\<exists>from_id to_id.
           container_id (VQName (bundle_identifier b)) (bundles d) segs = Some from_id \<and>
           container_id (py_of_qname (formal_third m)) (bundles d) segs = Some to_id \<and>
           mention_saved from_id to_id m links)) \<and>
     links = concat (concat parts) \<and>
     list_all2 (bundle_links (\<lambda>k. container_id k (bundles d) segs)) (bundles d) parts"
proof -
  from assms obtain d m st1 where
    f: "form_string parse c = Inr d"
    and p: "first_pass ad d st = Inr (doc_id, m, st1)"
    and l: "create_all_bundle_links ad (bundles d) m st1 = Inr st'"
    by (rule create_document_Inr)
  from first_pass_Inr[OF p] have E1: "extends st st1"
    and X: "\<exists>nodes edges segs.
       new_calls st st1 = (SaveDocument, doc_id) # nodes @ edges @ concat segs \<and>
       list_all2 (node_saved doc_id) (get_records ProvElement (records d)) nodes \<and>
       (\<forall>ci \<in> set edges. plain_edge_part doc_id (fst ci)) \<and>
       list_all2 (bundle_segment doc_id) (bundles d) segs \<and>
       (\<forall>k. dict_get k m = container_id k (bundles d) segs)"
    and ran: "\<forall>v \<in> snd ` set m. issued doc_id (new_calls st st1) v"
    by simp_all
  from X obtain nodes edges segs where
    N1: "new_calls st st1 = (SaveDocument, doc_id) # nodes @ edges @ concat segs"
    and nodes: "list_all2 (node_saved doc_id) (get_records ProvElement (records d)) nodes"
    and edges: "\<forall>ci \<in> set edges. plain_edge_part doc_id (fst ci)"
    and segs: "list_all2 (bundle_segment doc_id) (bundles d) segs"
    and get: "\<forall>k. dict_get k m = container_id k (bundles d) segs"
    by (elim exE conjE)
  from create_all_bundle_links_Inr[OF l] have E2: "extends st1 st'"
    and L: "\<forall>ci \<in> set (new_calls st1 st'). link_part m (fst ci)"
    and M: "\<forall>b \<in> set (bundles d). \<forall>x \<in> set (mentions_of b).
      (\<exists>from_id to_id.
         dict_get (VQName (bundle_identifier b)) m = Some from_id \<and>
         dict_get (py_of_qname (formal_third x)) m = Some to_id \<and>
         mention_saved from_id to_id x (new_calls st1 st'))"
    and J: "\<exists>pss. new_calls st1 st' = concat (concat pss) \<and>
      list_all2 (bundle_links (\<lambda>k. dict_get k m)) (bundles d) pss"
    by simp_all
  from get have "(\<lambda>k. dict_get k m) = (\<lambda>k. container_id k (bundles d) segs)"
    by (intro ext) simp
  with J obtain pss where
    Jc: "new_calls st1 st' = concat (concat pss)"
    and Jl: "list_all2 (bundle_links (\<lambda>k. container_id k (bundles d) segs)) (bundles d) pss"
    by auto
  let ?pre = "(SaveDocument, doc_id) # nodes @ edges" and ?links = "new_calls st1 st'"
  let ?p1 = "?pre @ concat segs"
  have P1: "new_calls st st1 = ?p1" using N1 by simp
  have ranD: "issued doc_id ?p1 v" if "v \<in> snd ` set m" for v
    using ran that unfolding P1 by (rule bspec)
  have N: "new_calls st st' = ?pre @ concat segs @ ?links"
    using new_calls_trans[OF E1 E2] P1 by simp
  have a: "\<forall>ci \<in> set nodes. \<not> is_mention_edge (fst ci)"
    using nodes by (rule list_all2_none) (rule node_saved_not_mention)
  have b: "\<forall>ci \<in> set edges. \<not> is_mention_edge (fst ci)"
    using edges plain_edge_part_not_mention by blast
  have c: "\<forall>ci \<in> set (concat segs). \<not> is_mention_edge (fst ci)"
    using segs by (rule segments_not_mention)
  have 1: "\<forall>ci \<in> set ?p1. \<not> is_mention_edge (fst ci)"
    using a b c by (auto simp: is_mention_edge_def)
  have 2: "case fst ci of
           SaveRelation fb fq tb tq attrs md \<Rightarrow>
             prov_type md = PROV_MENTION \<and> issued doc_id ?p1 fb \<and> issued doc_id ?p1 tb
         | SaveRecord b attrs md \<Rightarrow> is_placeholder (fst ci) \<and> issued doc_id ?p1 b
         | _ \<Rightarrow> False"
    if "ci \<in> set ?links" for ci
  proof -
    from that L have lp: "link_part m (fst ci)" by blast
    show ?thesis
    proof (cases "fst ci")
      case SaveDocument
      with lp show ?thesis by (simp add: link_part_def)
    next
      case (SaveBundle x1 x2 x3)
      with lp show ?thesis by (simp add: link_part_def)
    next
      case (SaveRecord b attrs md)
      with lp have "b \<in> snd ` set m" and "is_placeholder (fst ci)"
        by (simp_all add: link_part_def)
      with SaveRecord ranD[of b] show ?thesis by simp
    next
      case (SaveRelation fb fq tb tq attrs md)
      with lp have "fb \<in> snd ` set m" "tb \<in> snd ` set m" "prov_type md = PROV_MENTION"
        by (simp_all add: link_part_def)
      with SaveRelation ranD[of fb] ranD[of tb] show ?thesis by simp
    qed
  qed
  have 3: "\<exists>from_id to_id.
           container_id (VQName (bundle_identifier b)) (bundles d) segs = Some from_id \<and>
           container_id (py_of_qname (formal_third x)) (bundles d) segs = Some to_id \<and>
           mention_saved from_id to_id x ?links"
    if "b \<in> set (bundles d)" and "x \<in> set (mentions_of b)" for b x
  proof -
    from that M obtain from_id to_id where
      g1: "dict_get (VQName (bundle_identifier b)) m = Some from_id"
      and g2: "dict_get (py_of_qname (formal_third x)) m = Some to_id"
      and s: "mention_saved from_id to_id x ?links"
      by blast
    from g1 g2 get have
      "container_id (VQName (bundle_identifier b)) (bundles d) segs = Some from_id"
      "container_id (py_of_qname (formal_third x)) (bundles d) segs = Some to_id"
      by simp_all
    with s show ?thesis by blast
  qed
  show ?thesis
  proof (intro exI conjI)
    show "form_string parse c = Inr d" by (rule f)
    show "new_calls st st' = ?pre @ concat segs @ ?links" by (rule N)
    show "list_all2 (bundle_segment doc_id) (bundles d) segs" by (rule segs)
    show "\<forall>ci \<in> set ?p1. \<not> is_mention_edge (fst ci)" by (rule 1)
    show "\<forall>ci \<in> set ?links.
        (case fst ci of
           SaveRelation fb fq tb tq attrs md \<Rightarrow>
             prov_type md = PROV_MENTION \<and> issued doc_id ?p1 fb \<and> issued doc_id ?p1 tb
         | SaveRecord b attrs md \<Rightarrow> is_placeholder (fst ci) \<and> issued doc_id ?p1 b
         | _ \<Rightarrow> False)"
      by (intro ballI) (rule 2)
    show "\<forall>b \<in> set (bundles d). \<forall>m \<in> set (mentions_of b).
        (\<exists>from_id to_id.
           container_id (VQName (bundle_identifier b)) (bundles d) segs = Some from_id \<and>
           container_id (py_of_qname (formal_third m)) (bundles d) segs = Some to_id \<and>
           mention_saved from_id to_id m ?links)"
      by (intro ballI) (rule 3)
    show "?links = concat (concat pss)" by (rule Jc)
    show "list_all2 (bundle_links (\<lambda>k. container_id k (bundles d) segs)) (bundles d) pss"
      by (rule Jl)
  qed
qed

text \<open>
  The converter methods that create a document fail as \<^verbatim>\<open>create_document\<close> does, and the
  three that take a text also with the \<^verbatim>\<open>ParseException\<close> of \<^verbatim>\<open>form_string\<close>.
\<close>

lemma form_string_Inl: "form_string parse c = Inl e \<Longrightarrow> e = ParseException"
  by (auto simp: form_string_def split: content.splits option.splits)

lemma create_document_from_json_Inl:
  assumes "create_document_from_json parse ad c st = Inl e"
  shows "typed_error e \<or>
         (e = ParseException \<and> form_string parse c = Inl ParseException) \<or>
         (e = KeyError \<and> (\<exists>d. form_string parse c = Inr d \<and> dangling_mention d))"
proof (cases "form_string parse c")
  case (Inl e1)
  with assms have "e = e1" by (simp add: create_document_from_json_def)
  with Inl form_string_Inl[OF Inl] show ?thesis by simp
next
  case (Inr d)
  with assms have "create_document parse ad (Document d) st = Inl e"
    by (simp add: create_document_from_json_def)
  from create_document_Inl[OF this] Inr show ?thesis
    by (auto simp: form_string_def)
qed

lemma create_document_from_xml_eq:
  "create_document_from_xml parse ad c st = create_document_from_json parse ad c st"
  by (simp add: create_document_from_xml_def create_document_from_json_def)

lemma create_document_from_provn_eq:
  "create_document_from_provn parse ad c st = create_document_from_json parse ad c st"
  by (simp add: create_document_from_provn_def create_document_from_json_def)

lemma create_document_from_prov_Inl:
  assumes "create_document_from_prov parse ad c st = Inl e"
  shows "typed_error e \<or>
         (e = KeyError \<and> (\<exists>d. c = Document d \<and> dangling_mention d))"
proof (cases c)
  case (Document d)
  with assms have "create_document parse ad (Document d) st = Inl e"
    by (simp add: create_document_from_prov_def)
  from create_document_Inl[OF this] Document show ?thesis
    by (auto simp: form_string_def)
next
  case (Text s)
  with assms have "e = InvalidArgumentTypeException"
    by (simp add: create_document_from_prov_def)
  then show ?thesis by (simp add: typed_error_simps)
qed

text \<open>
  The converter methods that read a document return the serialization of what
  \<^verbatim>\<open>get_document_as_prov\<close> returns, and fail as it does.
\<close>

lemma get_document_as_text:
  "get_document_as_json to_json ad i st = map_sum id to_json (get_document_as_prov ad i st)"
  "get_document_as_xml to_xml ad i st = map_sum id to_xml (get_document_as_prov ad i st)"
  "get_document_as_provn to_provn ad i st = map_sum id to_provn (get_document_as_prov ad i st)"
  by (simp_all add: get_document_as_json_def get_document_as_xml_def get_document_as_provn_def
        split: sum.splits)

section \<open>Materialization of example documents\<close>

lemma extract_entity2:
  "get_metadata_and_attributes_for_record (Record entity2) = Inr (entity_metadata ''e2'', [])"
  unfolding extract_record
  by (simp add: declared_identifier_def record_type_def entity2_def vqn_qname py_dict_def
        entity_metadata_def create_type_dict_def add_namespace_def prov_qn_def PROV_def ex_qn_def
        EXAMPLE_NS_def)

lemma in_prov_attributes_formal:
  "in_prov_attributes (VQName (prov_qn ''specificEntity''))"
  "in_prov_attributes (VQName (prov_qn ''generalEntity''))"
  "in_prov_attributes (VQName (prov_qn ''bundle''))"
  "\<not> in_prov_attributes (VQName (prov_qn ''bundle_name''))"
  by (simp_all add: in_prov_attributes_def PROV_ATTRIBUTES_def qn_eq_def qn_uri_def prov_qn_def)

lemma extract_mention:
  "get_metadata_and_attributes_for_record (Record (mention_of l))
     = Inr (mention_metadata, rec_attributes (mention_of l))"
proof -
  have d: "py_dict (rec_attributes (mention_of l)) = rec_attributes (mention_of l)"
    by (simp add: mention_of_def py_dict_def qn_eq_def qn_uri_def prov_qn_def)
  have i: "valid_qualified_name (rec_bundle (mention_of l)) (declared_identifier (mention_of l))
             = Some PROV_MENTION"
    by (simp add: declared_identifier_def record_type_def mention_of_def vqn_qname)
  have t: "record_type (mention_of l) = PROV_MENTION"
    by (simp add: record_type_def mention_of_def)
  have c: "create_type_dict (rec_attributes (mention_of l)) = []"
    by (simp add: create_type_dict_def mention_of_def in_prov_attributes_formal)
  have n: "collect_namespaces (rec_bundle (mention_of l)) (rec_attributes (mention_of l))
             (add_namespace (qn_namespace PROV_MENTION) (add_namespace (qn_namespace PROV_MENTION) []))
           = Inr [(''prov'', ''http://www.w3.org/ns/prov#''), (''ex'', ''http://example.org/'')]"
    by (simp add: mention_of_def add_namespace_def PROV_MENTION_def prov_qn_def PROV_def
          ex_qn_def EXAMPLE_NS_def)
  show ?thesis
    unfolding extract_record i d t c option.case n sum.case
    by (simp add: mention_metadata_def)
qed

lemma extract_example_bundle_record:
  assumes "bundle_identifier b = ex_qn l"
  shows "get_metadata_and_attributes_for_record
           (Record (bundle_record_of b (Some (bundle_node_identifier b))))
         = Inr (bundle_metadata l, [(VQName (prov_qn ''bundle_name''), VQName (ex_qn l))])"
proof -
  let ?r = "bundle_record_of b (Some (bundle_node_identifier b))"
  have i: "valid_qualified_name (rec_bundle ?r) (declared_identifier ?r)
             = Some (bundle_node_identifier b)"
    by (simp add: declared_identifier_def bundle_record_of_def py_of_qname_def vqn_qname)
  have d: "py_dict (rec_attributes ?r) = [(VQName (prov_qn ''bundle_name''), VQName (ex_qn l))]"
    by (simp add: bundle_record_of_def py_dict_def assms)
  have t: "record_type ?r = PROV_BUNDLE"
    by (simp add: record_type_def bundle_record_of_def)
  have c: "create_type_dict [(VQName (prov_qn ''bundle_name''), VQName (ex_qn l))]
             = [(''prov:bundle_name'', ''prov:QUALIFIED_NAME'')]"
    by (simp add: create_type_dict_def in_prov_attributes_formal str_key_def str_qname_prov)
  have n: "bundle_node_identifier b = prov_qn (''bundle:ex:'' @ l)"
    by (simp add: bundle_node_identifier_def assms str_qname_def ex_qn_def EXAMPLE_NS_def)
  have k: "collect_namespaces (rec_bundle ?r)
             [(VQName (prov_qn ''bundle_name''), VQName (ex_qn l))]
             (add_namespace (qn_namespace (bundle_node_identifier b))
                (add_namespace (qn_namespace PROV_BUNDLE) []))
           = Inr [(''prov'', ''http://www.w3.org/ns/prov#''), (''ex'', ''http://example.org/'')]"
    by (simp add: n add_namespace_def PROV_BUNDLE_def prov_qn_def PROV_def ex_qn_def EXAMPLE_NS_def)
  show ?thesis
    unfolding extract_record i d t c option.case k sum.case
    by (simp add: bundle_metadata_def n)
qed

lemma is_str_fresh_id: "is_str (fresh_id n)"
  by (simp add: is_str_def fresh_id_def)

lemma create_relations_mentions:
  "list_all (\<lambda>r. get_type r = Some PROV_MENTION) ms \<Longrightarrow> create_relations ad bid ms st = Inr st"
  by (induction ms) simp_all

lemma str_qname_ex: "str_qname (ex_qn l) = ''ex:'' @ l"
  by (simp add: str_qname_def ex_qn_def EXAMPLE_NS_def)

lemma counting_bundle_step:
  assumes i: "bundle_identifier b = ex_qn l"
    and e: "get_records ProvElement (bundle_records b) = [e]"
    and x: "get_metadata_and_attributes_for_record (Record e) = Inr (entity_metadata le, [])"
    and m: "list_all (\<lambda>r. get_type r = Some PROV_MENTION)
              (get_records ProvRelation (bundle_records b))"
  shows "create_bundles (counting_adapter raw) doc_id (b # bs) m0 st =
     create_bundles (counting_adapter raw) doc_id bs
       (dict_set (VQName (ex_qn l)) (fresh_id (db st)) m0)
       (st\<lparr>db := Suc (Suc (Suc (db st))),
           calls := calls st @
             [(SaveBundle doc_id [(VQName (prov_qn ''bundle_name''), VQName (ex_qn l))]
                 (bundle_metadata l), fresh_id (db st)),
              (SaveRecord (fresh_id (db st)) [] (entity_metadata le), fresh_id (Suc (db st))),
              (SaveRelation (fresh_id (db st)) (Some (ex_qn le)) doc_id
                 (Some (prov_qn (''bundle:ex:'' @ l))) membership_attributes membership_metadata,
               fresh_id (Suc (Suc (db st))))]\<rparr>)"
proof -
  have n: "bundle_node_identifier b = prov_qn (''bundle:ex:'' @ l)"
    by (simp add: bundle_node_identifier_def i str_qname_ex)
  have k: "md_identifier (entity_metadata le) = ex_qn le"
    by (simp add: entity_metadata_def)
  show ?thesis
    unfolding create_bundles_step extract_example_bundle_record[OF i]
    by (simp add: counting_adapter_save_bundle create_bundle_def is_str_fresh_id e x
          create_relations_mentions[OF m] counting_adapter_save_record
          create_bundle_association_def extract_belong_relation counting_adapter_save_relation
          n k i)
qed

lemma create_relation_mention_of:
  "create_relation (counting_adapter raw) fb tb (mention_of l) st =
     Inr (fresh_id (db st),
          st\<lparr>db := Suc (db st),
             calls := calls st @
               [(SaveRelation fb (Some (ex_qn ''e1'')) tb (Some (ex_qn ''e2''))
                   (rec_attributes (mention_of l)) mention_metadata, fresh_id (db st))]\<rparr>)"
proof -
  have f: "formal_from (mention_of l) = Some (ex_qn ''e1'')"
    and t: "formal_to (mention_of l) = Some (ex_qn ''e2'')"
    by (simp_all add: mention_of_def)
  show ?thesis
    unfolding create_relation_def f t option.case sum.case prod.case extract_mention
    by (simp add: counting_adapter_save_relation)
qed

lemma mention_of_fields:
  "get_type (mention_of l) = Some PROV_MENTION"
  "record_class (mention_of l) = ProvRelation"
  "formal_third (mention_of l) = Some (ex_qn l)"
  "formal_from (mention_of l) = Some (ex_qn ''e1'')"
  "formal_to (mention_of l) = Some (ex_qn ''e2'')"
  by (simp_all add: mention_of_def)

lemma entity_fields:
  "record_class entity1 = ProvElement" "record_class entity2 = ProvElement"
  by (simp_all add: entity1_def entity2_def)

lemma bundle_records_split:
  "get_records ProvElement (bundle_records bundle_with_mention) = [entity1]"
  "get_records ProvRelation (bundle_records bundle_with_mention) = [mention_of ''b2'']"
  "get_records ProvElement (bundle_records bundle_of_entity2) = [entity2]"
  "get_records ProvRelation (bundle_records bundle_of_entity2) = []"
  "get_records ProvElement (bundle_records bundle_of_entity1) = [entity1]"
  "get_records ProvRelation (bundle_records bundle_of_entity1) = []"
  by (simp_all add: get_records_def bundle_with_mention_def bundle_of_entity2_def
        bundle_of_entity1_def entity_fields mention_of_fields)

lemma ex_qn_eq: "qn_eq (ex_qn a) (ex_qn b) \<longleftrightarrow> a = b"
  by (simp add: qn_eq_def qn_uri_def ex_qn_def)

lemma bundles_with_mention_step:
  "create_bundles (counting_adapter raw) doc_id (bundle_with_mention # bs) m0 st =
     create_bundles (counting_adapter raw) doc_id bs
       (dict_set (VQName (ex_qn ''b1'')) (fresh_id (db st)) m0)
       (st\<lparr>db := Suc (Suc (Suc (db st))),
           calls := calls st @
             [(SaveBundle doc_id [(VQName (prov_qn ''bundle_name''), VQName (ex_qn ''b1''))]
                 (bundle_metadata ''b1''), fresh_id (db st)),
              (SaveRecord (fresh_id (db st)) [] (entity_metadata ''e1''), fresh_id (Suc (db st))),
              (SaveRelation (fresh_id (db st)) (Some (ex_qn ''e1'')) doc_id
                 (Some (prov_qn ''bundle:ex:b1'')) membership_attributes membership_metadata,
               fresh_id (Suc (Suc (db st))))]\<rparr>)"
proof -
  have i: "bundle_identifier bundle_with_mention = ex_qn ''b1''"
    by (simp add: bundle_with_mention_def)
  have m: "list_all (\<lambda>r. get_type r = Some PROV_MENTION)
             (get_records ProvRelation (bundle_records bundle_with_mention))"
    by (simp add: bundle_records_split mention_of_fields)
  show ?thesis
    using counting_bundle_step[OF i bundle_records_split(1) extract_entity1 m, of raw doc_id bs m0 st]
    by (simp del: create_bundles.simps)
qed

lemma bundles_of_entity1_step:
  "create_bundles (counting_adapter raw) doc_id (bundle_of_entity1 # bs) m0 st =
     create_bundles (counting_adapter raw) doc_id bs
       (dict_set (VQName (ex_qn ''b1'')) (fresh_id (db st)) m0)
       (st\<lparr>db := Suc (Suc (Suc (db st))),
           calls := calls st @
             [(SaveBundle doc_id [(VQName (prov_qn ''bundle_name''), VQName (ex_qn ''b1''))]
                 (bundle_metadata ''b1''), fresh_id (db st)),
              (SaveRecord (fresh_id (db st)) [] (entity_metadata ''e1''), fresh_id (Suc (db st))),
              (SaveRelation (fresh_id (db st)) (Some (ex_qn ''e1'')) doc_id
                 (Some (prov_qn ''bundle:ex:b1'')) membership_attributes membership_metadata,
               fresh_id (Suc (Suc (db st))))]\<rparr>)"
proof -
  have i: "bundle_identifier bundle_of_entity1 = ex_qn ''b1''"
    by (simp add: bundle_of_entity1_def)
  have m: "list_all (\<lambda>r. get_type r = Some PROV_MENTION)
             (get_records ProvRelation (bundle_records bundle_of_entity1))"
    by (simp add: bundle_records_split)
  show ?thesis
    using counting_bundle_step[OF i bundle_records_split(5) extract_entity1 m, of raw doc_id bs m0 st]
    by (simp del: create_bundles.simps)
qed

lemma bundles_of_entity2_step:
  "create_bundles (counting_adapter raw) doc_id (bundle_of_entity2 # bs) m0 st =
     create_bundles (counting_adapter raw) doc_id bs
       (dict_set (VQName (ex_qn ''b2'')) (fresh_id (db st)) m0)
       (st\<lparr>db := Suc (Suc (Suc (db st))),
           calls := calls st @
             [(SaveBundle doc_id [(VQName (prov_qn ''bundle_name''), VQName (ex_qn ''b2''))]
                 (bundle_metadata ''b2''), fresh_id (db st)),
              (SaveRecord (fresh_id (db st)) [] (entity_metadata ''e2''), fresh_id (Suc (db st))),
              (SaveRelation (fresh_id (db st)) (Some (ex_qn ''e2'')) doc_id
                 (Some (prov_qn ''bundle:ex:b2'')) membership_attributes membership_metadata,
               fresh_id (Suc (Suc (db st))))]\<rparr>)"
proof -
  have i: "bundle_identifier bundle_of_entity2 = ex_qn ''b2''"
    by (simp add: bundle_of_entity2_def)
  have m: "list_all (\<lambda>r. get_type r = Some PROV_MENTION)
             (get_records ProvRelation (bundle_records bundle_of_entity2))"
    by (simp add: bundle_records_split)
  show ?thesis
    using counting_bundle_step[OF i bundle_records_split(3) extract_entity2 m, of raw doc_id bs m0 st]
    by (simp del: create_bundles.simps)
qed

lemma bundle_identifiers:
  "bundle_identifier bundle_with_mention = ex_qn ''b1''"
  "bundle_identifier bundle_of_entity1 = ex_qn ''b1''"
  "bundle_identifier bundle_of_entity2 = ex_qn ''b2''"
  by (simp_all add: bundle_with_mention_def bundle_of_entity1_def bundle_of_entity2_def)

lemma run_linked_document:
  "create_document parse (counting_adapter raw) (Document linked_document) initial_state =
     Inr (fresh_id 0, initial_state\<lparr>db := 8, calls := linked_document_calls\<rparr>)"
proof -
  have p1: "first_pass (counting_adapter raw) linked_document initial_state =
      Inr (fresh_id 0,
           dict_set (VQName (ex_qn ''b2'')) (fresh_id 4)
             (dict_set (VQName (ex_qn ''b1'')) (fresh_id 1) []),
           initial_state\<lparr>db := 7, calls := (SaveDocument, fresh_id 0) #
             segment_calls (fresh_id 0) 1 ''b1'' ''e1'' @
             segment_calls (fresh_id 0) 4 ''b2'' ''e2''\<rparr>)"
    by (simp add: first_pass_def counting_adapter_save_document linked_document_def
          create_bundle_def is_str_fresh_id get_records_def bundles_with_mention_step
          bundles_of_entity2_step segment_calls_def initial_state_def eval_nat_numeral
          del: create_bundles.simps(2))
  have g1: "dict_get (VQName (ex_qn ''b1''))
              (dict_set (VQName (ex_qn ''b2'')) (fresh_id 4)
                 (dict_set (VQName (ex_qn ''b1'')) (fresh_id 1) [])) = Some (fresh_id 1)"
    and g2: "dict_get (VQName (ex_qn ''b2''))
              (dict_set (VQName (ex_qn ''b2'')) (fresh_id 4)
                 (dict_set (VQName (ex_qn ''b1'')) (fresh_id 1) [])) = Some (fresh_id 4)"
    by (simp_all add: dict_get_dict_set ex_qn_eq)
  show ?thesis
    unfolding create_document_def form_string_def content.case sum.case p1 prod.case
    by (simp add: linked_document_def create_bundle_links_def bundle_identifiers
          bundle_records_split g1 g2 ex_qn_eq dict_get_dict_set mention_of_fields py_of_qname_def
          create_relation_mention_of linked_document_calls_def initial_state_def
          eval_nat_numeral)
qed

lemma run_top_mention_document:
  "create_document parse (counting_adapter raw) (Document top_mention_document) initial_state =
     Inr (fresh_id 0, initial_state\<lparr>db := 7, calls := top_mention_document_calls\<rparr>)"
proof -
  have p1: "first_pass (counting_adapter raw) top_mention_document initial_state =
      Inr (fresh_id 0,
           dict_set (VQName (ex_qn ''b2'')) (fresh_id 4)
             (dict_set (VQName (ex_qn ''b1'')) (fresh_id 1) []),
           initial_state\<lparr>db := 7, calls := top_mention_document_calls\<rparr>)"
    by (simp add: first_pass_def counting_adapter_save_document top_mention_document_def
          create_bundle_def is_str_fresh_id get_records_def mention_of_fields
          bundles_of_entity1_step
          bundles_of_entity2_step segment_calls_def initial_state_def eval_nat_numeral
          top_mention_document_calls_def
          del: create_bundles.simps(2))
  have g1: "dict_get (VQName (ex_qn ''b1''))
              (dict_set (VQName (ex_qn ''b2'')) (fresh_id 4)
                 (dict_set (VQName (ex_qn ''b1'')) (fresh_id 1) [])) = Some (fresh_id 1)"
    and g2: "dict_get (VQName (ex_qn ''b2''))
              (dict_set (VQName (ex_qn ''b2'')) (fresh_id 4)
                 (dict_set (VQName (ex_qn ''b1'')) (fresh_id 1) [])) = Some (fresh_id 4)"
    by (simp_all add: dict_get_dict_set ex_qn_eq)
  show ?thesis
    unfolding create_document_def form_string_def content.case sum.case p1 prod.case
    by (simp add: top_mention_document_def create_bundle_links_def bundle_identifiers
          bundle_records_split g1 g2 ex_qn_eq dict_get_dict_set)
qed

lemma run_dangling_document:
  "create_document parse (counting_adapter raw) (Document dangling_document) initial_state
     = Inl KeyError"
proof -
  have p1: "first_pass (counting_adapter raw) dangling_document initial_state =
      Inr (fresh_id 0,
           dict_set (VQName (ex_qn ''b1'')) (fresh_id 1) [],
           initial_state\<lparr>db := 4, calls := (SaveDocument, fresh_id 0) #
             segment_calls (fresh_id 0) 1 ''b1'' ''e1''\<rparr>)"
    by (simp add: first_pass_def counting_adapter_save_document dangling_document_def
          create_bundle_def is_str_fresh_id get_records_def bundles_with_mention_step
          segment_calls_def initial_state_def eval_nat_numeral
          del: create_bundles.simps(2))
  have g1: "dict_get (VQName (ex_qn ''b1''))
                 (dict_set (VQName (ex_qn ''b1'')) (fresh_id 1) []) = Some (fresh_id 1)"
    and g2: "dict_get (VQName (ex_qn ''b2''))
                 (dict_set (VQName (ex_qn ''b1'')) (fresh_id 1) []) = None"
    by (simp_all add: dict_get_dict_set ex_qn_eq)
  show ?thesis
    unfolding create_document_def form_string_def content.case sum.case p1 prod.case
    by (simp add: dangling_document_def create_bundle_links_def bundle_identifiers
          bundle_records_split g1 g2 ex_qn_eq dict_get_dict_set mention_of_fields py_of_qname_def)
qed

theorem two_pass_order_witness:
  "create_document no_parser (counting_adapter no_document) (Document linked_document) initial_state
     = Inr (fresh_id 0, initial_state\<lparr>db := 8, calls := linked_document_calls\<rparr>) \<and>
   (\<exists>d nodes edges segs links.
     form_string no_parser (Document linked_document) = Inr d \<and>
     new_calls initial_state (initial_state\<lparr>db := 8, calls := linked_document_calls\<rparr>)
       = (SaveDocument, fresh_id 0) # nodes @ edges @ concat segs @ links \<and>
     list_all2 (node_saved (fresh_id 0)) (get_records ProvElement (records d)) nodes \<and>
     (\<forall>ci \<in> set edges. plain_edge_part (fresh_id 0) (fst ci)) \<and>
     list_all2 (bundle_segment (fresh_id 0)) (bundles d) segs \<and>
     (\<forall>ci \<in> set ((SaveDocument, fresh_id 0) # nodes @ edges @ concat segs).
        \<not> is_mention_edge (fst ci)) \<and>
     (\<forall>ci \<in> set links. is_mention_edge (fst ci) \<or> is_placeholder (fst ci)))"
  using run_linked_document[of no_parser no_document]
    two_pass_order[OF run_linked_document[of no_parser no_document]]
  by (rule conjI)

text \<open>
  C2, as the claim states it, fails: a \<^verbatim>\<open>mentionOf(ex:e1, ex:e2, ex:b1)\<close> at the top level of
  the document produces no edge. The first pass skips every mention, and the second pass
  goes through the records of the bundles only. The document with that mention and the
  bundles \<^verbatim>\<open>ex:b1\<close> (with the entity \<^verbatim>\<open>ex:e1\<close>) and \<^verbatim>\<open>ex:b2\<close> is materialized by seven calls, none
  of which saves a mention edge.
\<close>

theorem top_level_mention_not_saved:
  "records top_mention_document = [mention_of ''b1''] \<and>
   get_type (mention_of ''b1'') = Some PROV_MENTION \<and>
   create_document no_parser (counting_adapter no_document) (Document top_mention_document)
     initial_state
     = Inr (fresh_id 0, initial_state\<lparr>db := 7, calls := top_mention_document_calls\<rparr>) \<and>
   map (is_mention_edge \<circ> fst) top_mention_document_calls
     = [False, False, False, False, False, False, False]"
proof -
  have 1: "records top_mention_document = [mention_of ''b1'']"
    by (simp add: top_mention_document_def)
  have 2: "get_type (mention_of ''b1'') = Some PROV_MENTION"
    by (simp add: mention_of_fields)
  have 3: "map (is_mention_edge \<circ> fst) top_mention_document_calls
     = [False, False, False, False, False, False, False]"
    by (simp add: top_mention_document_calls_def segment_calls_def is_mention_edge_def
          membership_metadata_def PROV_MENTION_def PROV_ASSOCIATION_def prov_qn_def)
  from 1 2 run_top_mention_document[of no_parser no_document] 3 show ?thesis
    by (intro conjI)
qed

theorem mention_edges_after_bundles_witness:
  "create_document no_parser (counting_adapter no_document) (Document linked_document) initial_state
     = Inr (fresh_id 0, initial_state\<lparr>db := 8, calls := linked_document_calls\<rparr>) \<and>
   (\<exists>d pre segs links parts.
     form_string no_parser (Document linked_document) = Inr d \<and>
     new_calls initial_state (initial_state\<lparr>db := 8, calls := linked_document_calls\<rparr>)
       = pre @ concat segs @ links \<and>
     list_all2 (bundle_segment (fresh_id 0)) (bundles d) segs \<and>
     (\<forall>ci \<in> set (pre @ concat segs). \<not> is_mention_edge (fst ci)) \<and>
     (\<forall>ci \<in> set links.
        (case fst ci of
           SaveRelation fb fq tb tq attrs md \<Rightarrow>
             prov_type md = PROV_MENTION \<and> issued (fresh_id 0) (pre @ concat segs) fb \<and>
             issued (fresh_id 0) (pre @ concat segs) tb
         | SaveRecord b attrs md \<Rightarrow>
             is_placeholder (fst ci) \<and> issued (fresh_id 0) (pre @ concat segs) b
         | _ \<Rightarrow> False)) \<and>
     (\<forall>b \<in> set (bundles d). \<forall>m \<in> set (mentions_of b).
        (\<exists>from_id to_id.
           container_id (VQName (bundle_identifier b)) (bundles d) segs = Some from_id \<and>
           container_id (py_of_qname (formal_third m)) (bundles d) segs = Some to_id \<and>
           mention_saved from_id to_id m links)) \<and>
     links = concat (concat parts) \<and>
     list_all2 (bundle_links (\<lambda>k. container_id k (bundles d) segs)) (bundles d) parts) \<and>
   linked_document_calls =
     [(SaveDocument, fresh_id 0)] @
     concat [segment_calls (fresh_id 0) 1 ''b1'' ''e1'', segment_calls (fresh_id 0) 4 ''b2'' ''e2''] @
     [(SaveRelation (fresh_id 1) (Some (ex_qn ''e1'')) (fresh_id 4) (Some (ex_qn ''e2''))
         (rec_attributes (mention_of ''b2'')) mention_metadata, fresh_id 7)] \<and>
   container_id (VQName (ex_qn ''b1'')) (bundles linked_document)
     [segment_calls (fresh_id 0) 1 ''b1'' ''e1'', segment_calls (fresh_id 0) 4 ''b2'' ''e2'']
     = Some (fresh_id 1) \<and>
   container_id (VQName (ex_qn ''b2'')) (bundles linked_document)
     [segment_calls (fresh_id 0) 1 ''b1'' ''e1'', segment_calls (fresh_id 0) 4 ''b2'' ''e2'']
     = Some (fresh_id 4)"
proof -
  note r = run_linked_document[of no_parser no_document]
  have c: "linked_document_calls =
     [(SaveDocument, fresh_id 0)] @
     concat [segment_calls (fresh_id 0) 1 ''b1'' ''e1'', segment_calls (fresh_id 0) 4 ''b2'' ''e2''] @
     [(SaveRelation (fresh_id 1) (Some (ex_qn ''e1'')) (fresh_id 4) (Some (ex_qn ''e2''))
         (rec_attributes (mention_of ''b2'')) mention_metadata, fresh_id 7)]"
    by (simp add: linked_document_calls_def)
  have i: "container_id (VQName (ex_qn ''b1'')) (bundles linked_document)
     [segment_calls (fresh_id 0) 1 ''b1'' ''e1'', segment_calls (fresh_id 0) 4 ''b2'' ''e2'']
     = Some (fresh_id 1)"
    "container_id (VQName (ex_qn ''b2'')) (bundles linked_document)
     [segment_calls (fresh_id 0) 1 ''b1'' ''e1'', segment_calls (fresh_id 0) 4 ''b2'' ''e2'']
     = Some (fresh_id 4)"
    by (simp_all add: linked_document_def bundle_identifiers ex_qn_eq segment_calls_def)
  from r mention_edges_after_bundles[OF r] c i show ?thesis by (intro conjI)
qed


lemma first_pass_dangling_document:
  "first_pass (counting_adapter raw) dangling_document initial_state =
      Inr (fresh_id 0, [(VQName (ex_qn ''b1''), fresh_id 1)],
           initial_state\<lparr>db := 4, calls := (SaveDocument, fresh_id 0) #
             segment_calls (fresh_id 0) 1 ''b1'' ''e1''\<rparr>)"
  by (simp add: first_pass_def counting_adapter_save_document dangling_document_def
        create_bundle_def is_str_fresh_id get_records_def bundles_with_mention_step
        segment_calls_def initial_state_def eval_nat_numeral
        del: create_bundles.simps(2))

text \<open>
  C7: two failures that are none of the typed errors leave the entry points. A mention in
  a bundle that names a bundle which is not in the document makes \<^verbatim>\<open>create_document\<close> fail
  with \<^verbatim>\<open>KeyError\<close> (line 331), after the first pass has saved the document, the bundle, its
  entity and the membership edge. A text that does not parse makes
  \<^verbatim>\<open>create_document_from_json\<close> fail with \<^verbatim>\<open>ParseException\<close> (line 67 calls \<^verbatim>\<open>form_string\<close>
  outside the \<^verbatim>\<open>try\<close> of \<^verbatim>\<open>create_document\<close>), where \<^verbatim>\<open>create_document\<close> on the same text
  fails with \<^verbatim>\<open>InvalidArgumentTypeException\<close>.
\<close>

theorem untyped_errors_escape:
  "create_document no_parser (counting_adapter no_document) (Document dangling_document)
     initial_state = Inl KeyError \<and>
   \<not> typed_error KeyError \<and>
   first_pass (counting_adapter no_document) dangling_document initial_state =
      Inr (fresh_id 0, [(VQName (ex_qn ''b1''), fresh_id 1)],
           initial_state\<lparr>db := 4, calls := (SaveDocument, fresh_id 0) #
             segment_calls (fresh_id 0) 1 ''b1'' ''e1''\<rparr>) \<and>
   create_document_from_json no_parser (counting_adapter no_document) (Text ''{'') initial_state
     = Inl ParseException \<and>
   \<not> typed_error ParseException \<and>
   create_document no_parser (counting_adapter no_document) (Text ''{'') initial_state
     = Inl InvalidArgumentTypeException"
proof -
  have 1: "\<not> typed_error KeyError" and 2: "\<not> typed_error ParseException"
    by (simp_all add: typed_error_def)
  have 3: "create_document_from_json no_parser (counting_adapter no_document) (Text ''{'')
             initial_state = Inl ParseException"
    by (simp add: create_document_from_json_def form_string_def no_parser_def)
  have 4: "create_document no_parser (counting_adapter no_document) (Text ''{'') initial_state
     = Inl InvalidArgumentTypeException"
    by (simp add: create_document_def form_string_def no_parser_def)
  from run_dangling_document[of no_parser no_document] 1
    first_pass_dangling_document[of no_document] 3 2 4
  show ?thesis by (intro conjI)
qed

lemma py_dict_repeated_key:
  "py_dict ((k, v) # (k, v') # rest) = py_dict ((k, v') # rest)"
  by (simp add: py_dict_def py_eq_refl)

lemma extract_twice_noted_entity:
  "get_metadata_and_attributes_for_record (Record twice_noted_entity)
     = get_metadata_and_attributes_for_record (Record once_noted_entity)"
proof -
  have a: "py_dict (rec_attributes twice_noted_entity) = py_dict (rec_attributes once_noted_entity)"
    by (simp add: twice_noted_entity_def once_noted_entity_def py_dict_repeated_key)
  have b: "rec_bundle twice_noted_entity = rec_bundle once_noted_entity"
    "declared_identifier twice_noted_entity = declared_identifier once_noted_entity"
    "record_type twice_noted_entity = record_type once_noted_entity"
    by (simp_all add: twice_noted_entity_def once_noted_entity_def declared_identifier_def
          record_type_def)
  show ?thesis unfolding extract_record a b ..
qed

lemma extract_once_noted_entity:
  "get_metadata_and_attributes_for_record (Record once_noted_entity)
     = Inr (noted_entity_metadata, [(VQName (ex_qn ''note''), VStr ''second'')])"
proof -
  have v: "valid_qualified_name nss (VStr ''second'') = None" for nss
    by (simp add: valid_qualified_name_def)
  have n: "\<not> in_prov_attributes (VQName (ex_qn ''note''))"
    by (simp add: in_prov_attributes_def PROV_ATTRIBUTES_def qn_eq_def qn_uri_def
        prov_qn_def ex_qn_def PROV_def EXAMPLE_NS_def)
  show ?thesis
    unfolding extract_record
    by (simp add: declared_identifier_def record_type_def once_noted_entity_def vqn_qname py_dict_def
        noted_entity_metadata_def create_type_dict_def add_namespace_def prov_qn_def PROV_def ex_qn_def
        EXAMPLE_NS_def v n[unfolded ex_qn_def EXAMPLE_NS_def])
qed

text \<open>
  C1: the round trip loses every value but the last of an attribute that a record has more
  than once. Line 383 turns the list of attributes into a \<^verbatim>\<open>dict\<close>, so that the entity with
  the attributes \<^verbatim>\<open>ex:note = "first"\<close> and \<^verbatim>\<open>ex:note = "second"\<close> is stored with the second
  only; for every adapter, the materializer does on the document with this entity what it
  does on the document whose entity has the second attribute alone, though the two
  documents differ. What is read back can therefore not be equal to both.
\<close>

theorem repeated_attribute_value_lost:
  "get_metadata_and_attributes_for_record (Record twice_noted_entity)
     = Inr (noted_entity_metadata, [(VQName (ex_qn ''note''), VStr ''second'')]) \<and>
   create_document parse ad (Document twice_noted_document) st
     = create_document parse ad (Document once_noted_document) st \<and>
   create_document parse (counting_adapter raw) (Document twice_noted_document) initial_state
     = Inr (fresh_id 0, initial_state\<lparr>db := 2, calls :=
         [(SaveDocument, fresh_id 0),
          (SaveRecord (fresh_id 0) [(VQName (ex_qn ''note''), VStr ''second'')]
             noted_entity_metadata, fresh_id 1)]\<rparr>) \<and>
   mset (rec_attributes twice_noted_entity) \<noteq> mset (rec_attributes once_noted_entity)"
proof -
  have x: "get_metadata_and_attributes_for_record (Record twice_noted_entity)
     = Inr (noted_entity_metadata, [(VQName (ex_qn ''note''), VStr ''second'')])"
    by (simp add: extract_twice_noted_entity extract_once_noted_entity)
  have c: "record_class twice_noted_entity = ProvElement"
    "record_class once_noted_entity = ProvElement"
    by (simp_all add: twice_noted_entity_def once_noted_entity_def)
  have b: "create_bundle ad i (records twice_noted_document) s
             = create_bundle ad i (records once_noted_document) s" for i s
  proof -
    have g: "get_records ProvElement (records twice_noted_document) = [twice_noted_entity]"
      "get_records ProvRelation (records twice_noted_document) = []"
      "get_records ProvElement (records once_noted_document) = [once_noted_entity]"
      "get_records ProvRelation (records once_noted_document) = []"
      by (simp_all add: twice_noted_document_def once_noted_document_def get_records_def c)
    show ?thesis
      unfolding create_bundle_def g by (simp add: extract_twice_noted_entity)
  qed
  have e: "bundles twice_noted_document = []" "bundles once_noted_document = []"
    by (simp_all add: twice_noted_document_def once_noted_document_def)
  have p: "first_pass ad twice_noted_document st = first_pass ad once_noted_document st"
    unfolding first_pass_def b e ..
  have d: "create_document parse ad (Document twice_noted_document) st
     = create_document parse ad (Document once_noted_document) st"
    unfolding create_document_def form_string_def content.case sum.case p e ..
  have r: "create_document parse (counting_adapter raw) (Document twice_noted_document)
             initial_state
     = Inr (fresh_id 0, initial_state\<lparr>db := 2, calls :=
         [(SaveDocument, fresh_id 0),
          (SaveRecord (fresh_id 0) [(VQName (ex_qn ''note''), VStr ''second'')]
             noted_entity_metadata, fresh_id 1)]\<rparr>)"
  proof -
    have g: "get_records ProvElement (records twice_noted_document) = [twice_noted_entity]"
      "get_records ProvRelation (records twice_noted_document) = []"
      by (simp_all add: twice_noted_document_def get_records_def c)
    have t: "bundles twice_noted_document = []"
      by (simp add: twice_noted_document_def)
    show ?thesis
      unfolding create_document_def form_string_def content.case sum.case first_pass_def
        create_bundle_def g t
      by (simp add: counting_adapter_save_document is_str_fresh_id x
            counting_adapter_save_record initial_state_def eval_nat_numeral)
  qed
  have m: "mset (rec_attributes twice_noted_entity) \<noteq> mset (rec_attributes once_noted_entity)"
  proof
    assume "mset (rec_attributes twice_noted_entity) = mset (rec_attributes once_noted_entity)"
    then have "size (mset (rec_attributes twice_noted_entity))
                 = size (mset (rec_attributes once_noted_entity))"
      by simp
    then show False by (simp add: twice_noted_entity_def once_noted_entity_def)
  qed
  from x d r m show ?thesis by (intro conjI)
qed

end
